(* ===== verification/Prelude.thy ===== *)
theory Prelude
  imports Main "HOL-Library.Char_ord" "HOL-Library.List_Lexorder" "HOL-Library.Sublist"
begin

text \<open>
  Shared vocabulary of the development.

  A Rust \<^verbatim>\<open>String\<close>, \<^verbatim>\<open>&str\<close> or \<^verbatim>\<open>Vec<u8>\<close> is a \<^typ>\<open>string\<close>: a list of bytes, each byte
  a \<^typ>\<open>char\<close>.  The order on strings is the byte-wise lexicographic order that Rust
  gives \<^verbatim>\<open>str\<close> and \<^verbatim>\<open>[u8]\<close> (\<^theory_text>\<open>List_Lexorder\<close> over \<^theory_text>\<open>Char_ord\<close>).
  A \<^verbatim>\<open>time::OffsetDateTime\<close> is an \<^typ>\<open>int\<close>, the nanoseconds since the Unix epoch.
  The theory holds the types, the two machine-integer bounds, and the lemmas on
  lexicographic order and on counting that several components use.
\<close>

type_synonym bytes = string
type_synonym hash = string
type_synonym timestamp = int

named_theorems model_defs \<open>unfolding rules of the operations of a component\<close>
named_theorems frame_simps \<open>fields and tables that an operation leaves unchanged\<close>

subsection \<open>Machine integers\<close>

text \<open>\<^verbatim>\<open>u32\<close> and \<^verbatim>\<open>u64\<close> values are naturals; the operations that can leave the range are written out.\<close>

abbreviation u32_max :: nat where
  "u32_max \<equiv> 4294967295"

abbreviation u64_mod :: nat where
  "u64_mod \<equiv> 18446744073709551616"

definition saturating_add32 :: "nat \<Rightarrow> nat \<Rightarrow> nat" where
  "saturating_add32 a b = min (a + b) u32_max"

lemma saturating_add32_exact: "a + b \<le> u32_max \<Longrightarrow> saturating_add32 a b = a + b"
  by (simp add: saturating_add32_def)

lemma saturating_add32_bound: "saturating_add32 a b \<le> u32_max"
  by (simp add: saturating_add32_def)

text \<open>\<^verbatim>\<open>iter().sum::<u64>()\<close> in a release build wraps.\<close>

definition sum_u64 :: "nat list \<Rightarrow> nat" where
  "sum_u64 xs = sum_list xs mod u64_mod"

lemma sum_u64_exact: "sum_list xs < u64_mod \<Longrightarrow> sum_u64 xs = sum_list xs"
  by (simp add: sum_u64_def)

subsection \<open>Lexicographic order on byte strings\<close>

lemma less_append_same [simp]:
  fixes p x y :: "'a::linorder list"
  shows "p @ x < p @ y \<longleftrightarrow> x < y"
  by (induction p) auto

lemma le_append_same [simp]:
  fixes p x y :: "'a::linorder list"
  shows "p @ x \<le> p @ y \<longleftrightarrow> x \<le> y"
  by (induction p) auto

lemma le_append_self [simp]:
  fixes p x :: "'a::linorder list"
  shows "p \<le> p @ x"
  by (induction p) auto

abbreviation nul :: char where
  "nul \<equiv> CHR 0x00"

abbreviation soh :: char where
  "soh \<equiv> CHR 0x01"

lemma nul_least [simp]: "nul \<le> c"
  by (simp add: less_eq_char_def)

lemma not_less_nul [simp]: "\<not> c < nul"
  by (simp add: less_char_def)

lemma less_soh_iff [simp]: "c < soh \<longleftrightarrow> c = nul"
proof
  assume "c < soh"
  then have "of_char c < (1::nat)" by (simp add: less_char_def)
  then have "of_char c = (of_char nul :: nat)" by simp
  then show "c = nul" by (simp only: of_char_eq_iff)
qed (simp add: less_char_def)

lemma soh_le_iff [simp]: "soh \<le> c \<longleftrightarrow> c \<noteq> nul"
  by (meson less_soh_iff not_less)

lemma soh_cases: "nul \<noteq> c \<Longrightarrow> soh \<noteq> c \<Longrightarrow> soh < c"
  using iffD2 [OF soh_le_iff, of c] by (auto simp del: soh_le_iff dest: order_le_imp_less_or_eq)

text \<open>A half-open byte range \<open>p\<^verbatim>\<open>\0\<close> .. p\<^verbatim>\<open>\1\<close>\<close> selects exactly the strings that start with \<open>p\<^verbatim>\<open>\0\<close>\<close>.\<close>

lemma nul_range_iff_prefix:
  "p @ [nul] \<le> x \<and> x < p @ [soh] \<longleftrightarrow> prefix (p @ [nul]) x"
proof (induction p arbitrary: x)
  case Nil
  show ?case by (cases x) (auto intro: soh_cases)
next
  case (Cons c p)
  show ?case
  proof (cases x)
    case (Cons d y)
    show ?thesis
    proof (cases "c = d")
      case True
      then show ?thesis using Cons.IH [of y] \<open>x = d # y\<close> by simp
    next
      case False
      then show ?thesis using \<open>x = d # y\<close> by (auto dest: order.asym)
    qed
  qed simp
qed

lemma append_soh_le_iff:
  assumes "nul \<notin> set p" and "nul \<notin> set x"
  shows "p @ [soh] \<le> x @ nul # v \<longleftrightarrow> p < x"
  using assms
proof (induction p arbitrary: x)
  case Nil
  then show ?case by (cases x) (auto intro: soh_cases)
next
  case (Cons c p)
  then show ?case by (cases x) auto
qed

subsection \<open>Counting\<close>

lemma count_list_append [simp]: "count_list (xs @ ys) x = count_list xs x + count_list ys x"
  by (induction xs) auto

lemma count_list_pos_iff: "0 < count_list xs x \<longleftrightarrow> x \<in> set xs"
  by (metis count_list_0_iff gr0I not_gr_zero)

subsection \<open>Loops over a list\<close>

text \<open>\<^verbatim>\<open>for x in xs { t = f(t, x)?; }\<close>: the first error leaves the loop.\<close>

fun try_fold :: "('t \<Rightarrow> 'x \<Rightarrow> 'e + 't) \<Rightarrow> 't \<Rightarrow> 'x list \<Rightarrow> 'e + 't" where
  "try_fold f t [] = Inr t"
| "try_fold f t (x # xs) = (case f t x of Inl e \<Rightarrow> Inl e | Inr t' \<Rightarrow> try_fold f t' xs)"

text \<open>\<^verbatim>\<open>for x in xs { if let Some(y) = f(&mut t, x) { out.push(y); } }\<close>\<close>

fun push_fold :: "('t \<Rightarrow> 'x \<Rightarrow> 'y option \<times> 't) \<Rightarrow> 't \<Rightarrow> 'x list \<Rightarrow> 'y list \<times> 't" where
  "push_fold f t [] = ([], t)"
| "push_fold f t (x # xs) =
     (case f t x of (y, t') \<Rightarrow>
        (case push_fold f t' xs of (ys, t'') \<Rightarrow>
           (case y of Some v \<Rightarrow> v # ys | None \<Rightarrow> ys, t'')))"

end
