(* ===== verification/Table.thy ===== *)
theory Table
  imports Prelude
begin

text \<open>
  Ordered tables: the contents of a redb table, and of a Rust \<^verbatim>\<open>BTreeMap\<close>, as an
  association list with strictly increasing keys.

  The storage layer only uses point lookups, insertion, removal, and iteration in key
  order over all entries or over a half-open range of keys.  The locale
  \<^theory_text>\<open>ordered_table\<close> states what the clients rely on; its lemmas (the \<^emph>\<open>weight\<close> of a
  table under insertion and removal, uniqueness of the iteration order) are what the
  reference-counting proofs use.  The interpretation at the end discharges the laws for
  the operations below.  \<open>iter_unique\<close> shows that the laws leave no freedom: two
  well-formed tables with the same lookups iterate identically.
\<close>

type_synonym ('k, 'v) table = "('k \<times> 'v) list"

definition tbl_ok :: "('k::linorder, 'v) table \<Rightarrow> bool" where
  "tbl_ok t \<longleftrightarrow> sorted_wrt (<) (map fst t)"

definition tbl_get :: "('k, 'v) table \<Rightarrow> 'k \<Rightarrow> 'v option" where
  "tbl_get t k = map_of t k"

fun tbl_insert :: "('k::linorder, 'v) table \<Rightarrow> 'k \<Rightarrow> 'v \<Rightarrow> ('k, 'v) table" where
  "tbl_insert [] k v = [(k, v)]"
| "tbl_insert ((k', v') # t) k v =
     (if k < k' then (k, v) # (k', v') # t
      else if k = k' then (k, v) # t
      else (k', v') # tbl_insert t k v)"

definition tbl_remove :: "('k, 'v) table \<Rightarrow> 'k \<Rightarrow> ('k, 'v) table" where
  "tbl_remove t k = filter (\<lambda>e. fst e \<noteq> k) t"

definition tbl_iter :: "('k, 'v) table \<Rightarrow> ('k \<times> 'v) list" where
  "tbl_iter t = t"

text \<open>\<^verbatim>\<open>table.range(lo..hi)\<close>\<close>

definition tbl_range :: "('k::linorder, 'v) table \<Rightarrow> 'k \<Rightarrow> 'k \<Rightarrow> ('k \<times> 'v) list" where
  "tbl_range t lo hi = filter (\<lambda>e. lo \<le> fst e \<and> fst e < hi) (tbl_iter t)"

text \<open>Collecting pairs into a \<^verbatim>\<open>BTreeMap\<close>: later pairs replace earlier ones.\<close>

definition tbl_collect :: "('k::linorder \<times> 'v) list \<Rightarrow> ('k, 'v) table" where
  "tbl_collect es = foldl (\<lambda>t e. tbl_insert t (fst e) (snd e)) [] es"

subsection \<open>The interface\<close>

locale ordered_table =
  fixes ok :: "'t \<Rightarrow> bool"
    and empty :: 't
    and get :: "'t \<Rightarrow> 'k::linorder \<Rightarrow> 'v option"
    and insert :: "'t \<Rightarrow> 'k \<Rightarrow> 'v \<Rightarrow> 't"
    and remove :: "'t \<Rightarrow> 'k \<Rightarrow> 't"
    and iter :: "'t \<Rightarrow> ('k \<times> 'v) list"
  assumes ok_empty: "ok empty"
    and get_empty: "get empty k = None"
    and ok_insert: "ok t \<Longrightarrow> ok (insert t k v)"
    and ok_remove: "ok t \<Longrightarrow> ok (remove t k)"
    and get_insert: "get (insert t k v) k' = (if k' = k then Some v else get t k')"
    and get_remove: "get (remove t k) k' = (if k' = k then None else get t k')"
    and iter_sorted: "ok t \<Longrightarrow> sorted_wrt (<) (map fst (iter t))"
    and iter_lookup: "ok t \<Longrightarrow> map_of (iter t) k = get t k"
begin

lemma iter_distinct: "ok t \<Longrightarrow> distinct (map fst (iter t))"
  using iter_sorted strict_sorted_iff by blast

lemma in_iter_iff: "ok t \<Longrightarrow> (k, v) \<in> set (iter t) \<longleftrightarrow> get t k = Some v"
  by (metis iter_distinct iter_lookup map_of_eq_Some_iff)

lemma iter_dom: "ok t \<Longrightarrow> set (map fst (iter t)) = {k. get t k \<noteq> None}"
proof -
  assume ok: "ok t"
  have "k \<in> set (map fst (iter t)) \<longleftrightarrow> get t k \<noteq> None" for k
    using iter_lookup [OF ok, of k] map_of_eq_None_iff [of "iter t" k] by simp
  then show ?thesis by blast
qed

text \<open>Lookups determine the iteration order.\<close>

lemma iter_unique:
  assumes "ok t" and "ok u" and "\<And>k. get t k = get u k"
  shows "iter t = iter u"
proof (rule map_sorted_distinct_set_unique [where f = fst])
  show same: "set (iter t) = set (iter u)"
    using assms by (auto simp: in_iter_iff)
  show "inj_on fst (set (iter t) \<union> set (iter u))"
    using iter_distinct [OF assms(1)] same by (simp add: distinct_map)
qed (use iter_sorted iter_distinct assms strict_sorted_iff in auto)

text \<open>The weight of a table: the sum of a measure of its values.\<close>

definition weight :: "('v \<Rightarrow> nat) \<Rightarrow> 't \<Rightarrow> nat" where
  "weight f t = sum_list (map (\<lambda>e. f (snd e)) (iter t))"

lemma weight_sum: "ok t \<Longrightarrow> weight f t = (\<Sum>k\<in>{k. get t k \<noteq> None}. f (the (get t k)))"
proof -
  assume ok: "ok t"
  have "weight f t = (\<Sum>e\<in>set (iter t). f (snd e))"
    unfolding weight_def
    by (rule sum_list_distinct_conv_sum_set) (use iter_distinct [OF ok] in \<open>simp add: distinct_map\<close>)
  also have "\<dots> = (\<Sum>k\<in>{k. get t k \<noteq> None}. f (the (get t k)))"
  proof (rule sum.reindex_cong [symmetric])
    show "inj_on fst (set (iter t))" using iter_distinct [OF ok] by (simp add: distinct_map)
    show "{k. get t k \<noteq> None} = fst ` set (iter t)" using iter_dom [OF ok] by simp
  qed (use in_iter_iff [OF ok] in auto)
  finally show ?thesis .
qed

lemma finite_dom: "ok t \<Longrightarrow> finite {k. get t k \<noteq> None}"
  using iter_dom by (metis List.finite_set)

lemma weight_remove:
  assumes "ok t"
  shows "weight f (remove t k) + (case get t k of None \<Rightarrow> 0 | Some v \<Rightarrow> f v) = weight f t"
proof -
  let ?D = "{k. get t k \<noteq> None}"
  have r: "weight f (remove t k) = (\<Sum>j\<in>?D - {k}. f (the (get t j)))"
    unfolding weight_sum [OF ok_remove [OF assms]]
    by (rule sum.cong) (auto simp: get_remove)
  show ?thesis
  proof (cases "k \<in> ?D")
    case True
    then obtain v where v: "get t k = Some v" by auto
    have "weight f t = f (the (get t k)) + (\<Sum>j\<in>?D - {k}. f (the (get t j)))"
      unfolding weight_sum [OF assms] by (rule sum.remove [OF finite_dom [OF assms] True])
    with r v show ?thesis by simp
  next
    case False
    then show ?thesis using r weight_sum [OF assms] by simp
  qed
qed

lemma weight_insert:
  assumes "ok t"
  shows "weight f (insert t k v) + (case get t k of None \<Rightarrow> 0 | Some w \<Rightarrow> f w) = weight f t + f v"
proof -
  have "weight f (remove (insert t k v) k) + f v = weight f (insert t k v)"
    using weight_remove [OF ok_insert [OF assms], of f k v k] by (simp add: get_insert)
  moreover have "weight f (remove (insert t k v) k) = weight f (remove t k)"
    using iter_unique [of "remove (insert t k v) k" "remove t k"] assms
    by (simp add: weight_def ok_insert ok_remove get_insert get_remove)
  ultimately show ?thesis using weight_remove [OF assms, of f k] by linarith
qed

lemma weight_ge: "ok t \<Longrightarrow> get t k = Some v \<Longrightarrow> f v \<le> weight f t"
  using weight_remove [of t f k] by simp

lemma weight_zero_iff: "ok t \<Longrightarrow> weight f t = 0 \<longleftrightarrow> (\<forall>k v. get t k = Some v \<longrightarrow> f v = 0)"
  using weight_sum [of t f] finite_dom [of t] by (auto)

lemma weight_empty: "weight f empty = 0"
  using weight_sum [OF ok_empty] by (simp add: get_empty)

end

subsection \<open>The laws hold for association lists\<close>

lemma tbl_ok_Nil [simp]: "tbl_ok []"
  by (simp add: tbl_ok_def)

lemma tbl_get_Nil [simp]: "tbl_get [] k = None"
  by (simp add: tbl_get_def)

lemma fst_set_tbl_insert: "fst ` set (tbl_insert t k v) = Set.insert k (fst ` set t)"
  by (induction t k v rule: tbl_insert.induct) auto

lemma tbl_ok_insert [simp]: "tbl_ok t \<Longrightarrow> tbl_ok (tbl_insert t k v)"
  by (induction t k v rule: tbl_insert.induct)
    (auto simp: tbl_ok_def fst_set_tbl_insert dest: order.strict_trans)

lemma tbl_ok_remove [simp]: "tbl_ok t \<Longrightarrow> tbl_ok (tbl_remove t k)"
  by (induction t) (auto simp: tbl_ok_def tbl_remove_def)

lemma tbl_get_insert [simp]: "tbl_get (tbl_insert t k v) k' = (if k' = k then Some v else tbl_get t k')"
  by (induction t k v rule: tbl_insert.induct) (auto simp: tbl_get_def)

lemma tbl_get_remove [simp]: "tbl_get (tbl_remove t k) k' = (if k' = k then None else tbl_get t k')"
  by (induction t) (auto simp: tbl_get_def tbl_remove_def)

interpretation tbl: ordered_table tbl_ok "[]" tbl_get tbl_insert tbl_remove tbl_iter
  by unfold_locales (auto simp: tbl_iter_def tbl_ok_def [symmetric] tbl_get_def [symmetric])

lemma tbl_ok_collect [simp]: "tbl_ok (tbl_collect es)"
proof -
  have "tbl_ok t \<Longrightarrow> tbl_ok (foldl (\<lambda>t e. tbl_insert t (fst e) (snd e)) t es)" for t :: "('a, 'b) table"
    by (induction es arbitrary: t) auto
  then show ?thesis by (simp add: tbl_collect_def)
qed

lemma in_tbl_range_iff:
  "tbl_ok t \<Longrightarrow> (k, v) \<in> set (tbl_range t lo hi) \<longleftrightarrow> tbl_get t k = Some v \<and> lo \<le> k \<and> k < hi"
  by (auto simp: tbl_range_def tbl.in_iter_iff)

end
