(* ===== verification/Xml.thy ===== *)
theory Xml
  imports Prelude
begin

text \<open>
  The documents of \<^verbatim>\<open>src/s3/xml.rs\<close>: the request and response bodies of the API as records.
  Their XML text is produced and parsed by \<^verbatim>\<open>quick_xml\<close> through \<^verbatim>\<open>serde\<close> derives, which is
  third-party code: theory \<^theory_text>\<open>Crates\<close> has it as parameters.
\<close>

subsection \<open>Buckets\<close>

record owner =
  ow_id :: string
  ow_display_name :: string

record bucket_entry =
  be_name :: string
  be_creation_date :: string

record list_all_my_buckets_result =
  lab_owner :: owner
  lab_buckets :: "bucket_entry list"

subsection \<open>Object listings\<close>

record object_content =
  oc_key :: string
  oc_last_modified :: string
  oc_etag :: string
  oc_size :: nat
  oc_storage_class :: string

record list_bucket_result_v2 =
  v2_name :: string
  v2_prefix :: string
  v2_key_count :: nat
  v2_max_keys :: nat
  v2_delimiter :: "string option"
  v2_is_truncated :: bool
  v2_encoding_type :: "string option"
  v2_continuation_token :: "string option"
  v2_next_continuation_token :: "string option"
  v2_start_after :: "string option"
  v2_contents :: "object_content list"
  v2_common_prefixes :: "string list"

record list_bucket_result_v1 =
  v1_name :: string
  v1_prefix :: string
  v1_marker :: string
  v1_max_keys :: nat
  v1_delimiter :: "string option"
  v1_is_truncated :: bool
  v1_encoding_type :: "string option"
  v1_next_marker :: "string option"
  v1_contents :: "object_content list"
  v1_common_prefixes :: "string list"

subsection \<open>Multipart uploads\<close>

record initiate_multipart_upload_result =
  im_bucket :: string
  im_key :: string
  im_upload_id :: string

record complete_part =
  cp_part_number :: nat
  cp_etag :: string

record complete_multipart_upload_request =
  cm_parts :: "complete_part list"

record complete_multipart_upload_result =
  cmr_location :: string
  cmr_bucket :: string
  cmr_key :: string
  cmr_etag :: string

record list_parts_part =
  lpp_part_number :: nat
  lpp_etag :: string
  lpp_size :: nat
  lpp_last_modified :: string

record list_parts_result =
  lpr_bucket :: string
  lpr_key :: string
  lpr_upload_id :: string
  lpr_max_parts :: nat
  lpr_is_truncated :: bool
  lpr_parts :: "list_parts_part list"

subsection \<open>Versioning\<close>

record versioning_configuration =
  vc_status :: "string option"

record object_version =
  ov_key :: string
  ov_version_id :: string
  ov_is_latest :: bool
  ov_last_modified :: string
  ov_etag :: string
  ov_size :: nat
  ov_storage_class :: string

record delete_marker_entry =
  dm_key :: string
  dm_version_id :: string
  dm_is_latest :: bool
  dm_last_modified :: string

record list_versions_result =
  lv_name :: string
  lv_prefix :: string
  lv_key_marker :: string
  lv_max_keys :: nat
  lv_delimiter :: "string option"
  lv_is_truncated :: bool
  lv_encoding_type :: "string option"
  lv_next_key_marker :: "string option"
  lv_versions :: "object_version list"
  lv_delete_markers :: "delete_marker_entry list"

subsection \<open>Tagging, lifecycle, Object Lock, copy\<close>

record tag =
  tg_key :: string
  tg_value :: string

record tagging =
  tag_set :: "tag list"

record lifecycle_rule_xml =
  lx_id :: "string option"
  lx_status :: string
  lx_filter :: "string option option"        \<comment> \<open>\<^verbatim>\<open>filter: Option<{ prefix: Option<String> }>\<close>\<close>
  lx_expiration :: "nat option"
  lx_noncurrent :: "nat option"
  lx_abort :: "nat option"

record lifecycle_configuration_xml =
  lx_rules :: "lifecycle_rule_xml list"

record default_retention_xml =
  drx_mode :: "string option"
  drx_days :: "nat option"
  drx_years :: "nat option"

record object_lock_configuration_xml =
  olx_enabled :: "string option"
  olx_rule :: "default_retention_xml option option"  \<comment> \<open>\<^verbatim>\<open>rule: Option<{ default_retention: Option<..> }>\<close>\<close>

record retention_xml =
  rx_mode :: string
  rx_retain_until_date :: string

record legal_hold_xml =
  lhx_status :: string

record cors_rule_xml =
  cx_id :: "string option"
  cx_allowed_origin :: "string list"
  cx_allowed_method :: "string list"
  cx_allowed_header :: "string list"
  cx_expose_header :: "string list"
  cx_max_age_seconds :: "nat option"

record cors_configuration =
  cx_rules :: "cors_rule_xml list"

record copy_result =
  cr_etag :: string
  cr_last_modified :: string

subsection \<open>Response documents\<close>

datatype xml_doc =
    ListAllMyBucketsDoc list_all_my_buckets_result
  | LocationConstraintDoc string
  | ListBucketV2Doc list_bucket_result_v2
  | ListBucketV1Doc list_bucket_result_v1
  | InitiateMultipartDoc initiate_multipart_upload_result
  | CompleteMultipartDoc complete_multipart_upload_result
  | ListPartsDoc list_parts_result
  | VersioningDoc versioning_configuration
  | ListVersionsDoc list_versions_result
  | TaggingDoc tagging
  | LifecycleDoc lifecycle_configuration_xml
  | ObjectLockDoc object_lock_configuration_xml
  | RetentionDoc retention_xml
  | LegalHoldDoc legal_hold_xml
  | CopyObjectDoc copy_result
  | CopyPartDoc copy_result
  | CorsDoc cors_configuration

end
