(* ===== verification/Crates.thy ===== *)
theory Crates
  imports Xml
begin

text \<open>
  The third-party functions the program calls, as parameters of the model.

  Their code is not part of the repository, so the definitions take them as fields of a
  record \<^theory_text>\<open>crates\<close>, and a property that relies on documented behaviour of one of them names
  that behaviour as a hypothesis.  \<^verbatim>\<open>toy_crates\<close> is one concrete choice, used by witnesses only.
\<close>

record crates =
  blake3 :: "bytes \<Rightarrow> hash"              \<comment> \<open>\<^verbatim>\<open>blake3::Hasher\<close>\<close>
  md5 :: "bytes \<Rightarrow> bytes"                \<comment> \<open>\<^verbatim>\<open>md5::Md5\<close>\<close>
  hex_encode :: "bytes \<Rightarrow> string"        \<comment> \<open>\<^verbatim>\<open>hex::encode\<close>\<close>
  base64_encode :: "bytes \<Rightarrow> string"     \<comment> \<open>\<^verbatim>\<open>BASE64.encode\<close>\<close>
  base64_decode :: "string \<Rightarrow> bytes option"
  b64url_encode :: "bytes \<Rightarrow> string"     \<comment> \<open>\<^verbatim>\<open>URL_SAFE_NO_PAD\<close>\<close>
  b64url_decode :: "string \<Rightarrow> bytes option"
  crc32_be :: "bytes \<Rightarrow> bytes"           \<comment> \<open>\<^verbatim>\<open>crc32fast::hash(..).to_be_bytes()\<close>\<close>
  crc32c_be :: "bytes \<Rightarrow> bytes"
  sha1 :: "bytes \<Rightarrow> bytes"
  sha256 :: "bytes \<Rightarrow> bytes"
  hmac_sha256 :: "bytes \<Rightarrow> bytes \<Rightarrow> bytes"   \<comment> \<open>\<^verbatim>\<open>Hmac<Sha256>\<close> of a key and a message\<close>
  header_to_str :: "bytes \<Rightarrow> string option"   \<comment> \<open>\<^verbatim>\<open>HeaderValue::to_str().ok()\<close>\<close>
  header_value_ok :: "string \<Rightarrow> bool"         \<comment> \<open>\<^verbatim>\<open>HeaderValue::from_str(..).is_ok()\<close>\<close>
  header_name_ok :: "string \<Rightarrow> bool"          \<comment> \<open>\<^verbatim>\<open>HeaderName::try_from(..).is_ok()\<close>\<close>
  parse_rfc3339 :: "string \<Rightarrow> timestamp option"
  format_rfc3339 :: "timestamp \<Rightarrow> string"
  parse_amz_datetime :: "string \<Rightarrow> timestamp option"  \<comment> \<open>\<^verbatim>\<open>PrimitiveDateTime::parse\<close> with \<^verbatim>\<open>[year][month][day]T[hour][minute][second]Z\<close>\<close>
  parse_imf_fixdate :: "string \<Rightarrow> timestamp option"  \<comment> \<open>\<^verbatim>\<open>OffsetDateTime::parse\<close> with the RFC 7231 format\<close>
  format_imf_fixdate :: "timestamp \<Rightarrow> string"
  render_xml :: "xml_doc \<Rightarrow> string + string"      \<comment> \<open>\<^verbatim>\<open>quick_xml::se::to_writer\<close>: an error text or the document\<close>
  parse_complete_xml :: "bytes \<Rightarrow> string + complete_multipart_upload_request"   \<comment> \<open>\<^verbatim>\<open>quick_xml::de::from_reader\<close>\<close>
  parse_versioning_xml :: "bytes \<Rightarrow> string + versioning_configuration"
  parse_tagging_xml :: "bytes \<Rightarrow> string + tagging"
  parse_lifecycle_xml :: "bytes \<Rightarrow> string + lifecycle_configuration_xml"
  parse_object_lock_xml :: "bytes \<Rightarrow> string + object_lock_configuration_xml"
  parse_retention_xml :: "bytes \<Rightarrow> string + retention_xml"
  parse_legal_hold_xml :: "bytes \<Rightarrow> string + legal_hold_xml"
  parse_cors_xml :: "bytes \<Rightarrow> string + cors_configuration"

definition toy_crates :: crates where
  "toy_crates = \<lparr>
     blake3 = (\<lambda>b. b), md5 = (\<lambda>b. b), hex_encode = (\<lambda>b. b),
     base64_encode = (\<lambda>b. b), base64_decode = Some, b64url_encode = (\<lambda>b. b), b64url_decode = Some,
     crc32_be = (\<lambda>b. b), crc32c_be = (\<lambda>b. b), sha1 = (\<lambda>b. b), sha256 = (\<lambda>b. b), hmac_sha256 = (\<lambda>k m. k @ m),
     header_to_str = Some, header_value_ok = (\<lambda>_. True), header_name_ok = (\<lambda>_. True),
     parse_rfc3339 = (\<lambda>_. None), format_rfc3339 = (\<lambda>_. []),
     parse_amz_datetime = (\<lambda>_. Some 0),
     parse_imf_fixdate = (\<lambda>_. None), format_imf_fixdate = (\<lambda>_. []),
     render_xml = (\<lambda>_. Inr []), parse_complete_xml = (\<lambda>_. Inl []), parse_versioning_xml = (\<lambda>_. Inl []),
     parse_tagging_xml = (\<lambda>_. Inl []), parse_lifecycle_xml = (\<lambda>_. Inl []),
     parse_object_lock_xml = (\<lambda>_. Inl []), parse_retention_xml = (\<lambda>_. Inl []),
     parse_legal_hold_xml = (\<lambda>_. Inl []), parse_cors_xml = (\<lambda>_. Inr \<lparr>cx_rules = []\<rparr>)\<rparr>"

end
