(* ===== verification/Manifest.thy ===== *)
theory Manifest
  imports Table Crates
begin

text \<open>
  \<^verbatim>\<open>src/storage/manifest.rs\<close>: the records the metadata store keeps (bucket configurations,
  manifests, part entries), the composite key of the objects table, the Object Lock test
  and the ETag.
\<close>

subsection \<open>Enumerations\<close>

datatype manifest_state = InProgress | Committed | Aborted

datatype manifest_kind = Object | Tombstone

datatype upload_mode = SinglePut | Multipart

datatype checksum_algorithm = Crc32 | Crc32c | Sha1 | Sha256

datatype lock_mode = Compliance

datatype versioning_state = Off | Enabled | Suspended

datatype lifecycle_status = RuleDisabled | RuleEnabled

datatype part_state = Live | GcPending

subsection \<open>Manifests\<close>

record additional_checksum =
  ac_algorithm :: checksum_algorithm
  ac_value :: bytes

record retention =
  ret_mode :: lock_mode
  retain_until :: timestamp

record object_lock =
  ol_retention :: "retention option"
  ol_legal_hold :: bool

definition forbids_delete :: "object_lock \<Rightarrow> timestamp \<Rightarrow> bool" where
  "forbids_delete l now =
     (if ol_legal_hold l then True
      else case ol_retention l of Some r \<Rightarrow> now < retain_until r | None \<Rightarrow> False)"

record part_ref =
  pr_part_number :: nat
  pr_hash :: hash
  pr_md5 :: bytes
  pr_size :: nat

record manifest_key =
  mk_bucket :: string
  mk_key :: string
  mk_version_id :: string

definition new_key :: "string \<Rightarrow> string \<Rightarrow> string \<Rightarrow> manifest_key" where
  "new_key b k v = \<lparr>mk_bucket = b, mk_key = k, mk_version_id = v\<rparr>"

definition encode :: "manifest_key \<Rightarrow> bytes" where
  "encode k = mk_bucket k @ [nul] @ mk_key k @ [nul] @ mk_version_id k"

record manifest =
  m_key :: manifest_key
  m_state :: manifest_state
  m_kind :: manifest_kind
  m_upload_mode :: upload_mode
  m_parts :: "part_ref list"
  m_size :: nat
  m_content_type :: "string option"
  m_user_metadata :: "(string, string) table"
  m_tags :: "(string, string) table"
  m_additional_checksum :: "additional_checksum option"
  m_storage_class :: string
  m_object_lock :: "object_lock option"
  m_created_at :: timestamp
  m_last_modified :: timestamp
  m_upload_id :: "string option"

text \<open>
  \<^verbatim>\<open>Manifest::etag\<close>: \<open>None\<close> is the panic of \<^verbatim>\<open>self.parts[0]\<close> on an empty part list
  (\<^verbatim>\<open>debug_assert_eq!\<close> is absent from release builds).
\<close>

definition dquote :: string where
  "dquote = [CHR 0x22]"

fun show_nat :: "nat \<Rightarrow> string" where
  "show_nat n = (if n < 10 then [char_of (48 + n)] else show_nat (n div 10) @ [char_of (48 + n mod 10)])"

declare show_nat.simps [simp del]

definition quoted_hex :: "crates \<Rightarrow> bytes \<Rightarrow> string" where
  "quoted_hex X b = dquote @ hex_encode X b @ dquote"

definition etag :: "crates \<Rightarrow> manifest \<Rightarrow> string option" where
  "etag X m =
     (case m_upload_mode m of
        SinglePut \<Rightarrow>
          (case m_parts m of [] \<Rightarrow> None | part # _ \<Rightarrow> Some (quoted_hex X (pr_md5 part)))
      | Multipart \<Rightarrow>
          Some (dquote @ hex_encode X (md5 X (concat (map pr_md5 (m_parts m))))
                @ ''-'' @ show_nat (length (m_parts m)) @ dquote))"

subsection \<open>Bucket configuration\<close>

record lifecycle_expiration =
  le_days :: nat

record noncurrent_version_expiration =
  nve_noncurrent_days :: nat

record abort_incomplete_multipart =
  aim_days_after_initiation :: nat

record lifecycle_rule =
  lr_id :: "string option"
  lr_status :: lifecycle_status
  lr_filter_prefix :: "string option"
  lr_expiration :: "lifecycle_expiration option"
  lr_noncurrent_version_expiration :: "noncurrent_version_expiration option"
  lr_abort_incomplete_multipart_upload :: "abort_incomplete_multipart option"

record default_retention =
  dr_mode :: lock_mode
  dr_days :: "nat option"
  dr_years :: "nat option"

record object_lock_config =
  olc_enabled :: bool
  olc_default_retention :: "default_retention option"

definition default_object_lock_config :: object_lock_config where
  "default_object_lock_config = \<lparr>olc_enabled = False, olc_default_retention = None\<rparr>"

record cors_rule =
  cr_id :: "string option"
  cr_allowed_origins :: "string list"
  cr_allowed_methods :: "string list"
  cr_allowed_headers :: "string list"
  cr_expose_headers :: "string list"
  cr_max_age_seconds :: "nat option"

record bucket_config =
  bc_created_at :: timestamp
  bc_versioning :: versioning_state
  bc_region :: string
  bc_cors_rules :: "cors_rule list"
  bc_object_lock :: "object_lock_config option"
  bc_lifecycle_rules :: "lifecycle_rule list"

definition bucket_config_new :: "timestamp \<Rightarrow> string \<Rightarrow> bucket_config" where
  "bucket_config_new now region =
     \<lparr>bc_created_at = now, bc_versioning = Off, bc_region = region,
      bc_cors_rules = [], bc_object_lock = None, bc_lifecycle_rules = []\<rparr>"

subsection \<open>Parts\<close>

record part_entry =
  pe_refcount :: nat
  pe_size :: nat
  pe_state :: part_state
  pe_created_at :: timestamp

subsection \<open>Facts about keys\<close>

text \<open>
  The names a client can reach: neither the bucket nor the key holds a NUL byte.  The
  version id is not restricted, it comes last.
\<close>

definition nul_free_key :: "manifest_key \<Rightarrow> bool" where
  "nul_free_key k \<longleftrightarrow> nul \<notin> set (mk_bucket k) \<and> nul \<notin> set (mk_key k)"

lemma append_nul_inject:
  assumes "nul \<notin> set a" and "nul \<notin> set b"
  shows "a @ nul # x = b @ nul # y \<longleftrightarrow> a = b \<and> x = y"
  using assms by (induction a arbitrary: b) (case_tac b; auto)+

lemma encode_inject:
  assumes "nul_free_key k" and "nul_free_key k'"
  shows "encode k = encode k' \<longleftrightarrow> k = k'"
  using assms by (auto simp: encode_def nul_free_key_def append_nul_inject)

lemma prefix_nul_encode:
  assumes "nul_free_key k" and "nul \<notin> set b"
  shows "prefix (b @ [nul]) (encode k) \<longleftrightarrow> mk_bucket k = b"
proof
  assume "prefix (b @ [nul]) (encode k)"
  then obtain z where "encode k = b @ nul # z" by (auto simp: prefix_def)
  with assms show "mk_bucket k = b"
    by (simp add: encode_def nul_free_key_def append_nul_inject)
qed (auto simp: encode_def)

lemma prefix_nul_nul_encode:
  assumes "nul_free_key k" and "nul \<notin> set b" and "nul \<notin> set ky"
  shows "prefix (b @ nul # ky @ [nul]) (encode k) \<longleftrightarrow> mk_bucket k = b \<and> mk_key k = ky"
proof
  assume "prefix (b @ nul # ky @ [nul]) (encode k)"
  then obtain z where "encode k = b @ nul # (ky @ nul # z)" by (auto simp: prefix_def)
  with assms show "mk_bucket k = b \<and> mk_key k = ky"
    by (simp add: encode_def nul_free_key_def append_nul_inject)
qed (auto simp: encode_def)

lemma new_key_sel [simp]:
  "mk_bucket (new_key b k v) = b" "mk_key (new_key b k v) = k" "mk_version_id (new_key b k v) = v"
  by (simp_all add: new_key_def)

lemma etag_single: "m_upload_mode m = SinglePut \<Longrightarrow> m_parts m = p # ps \<Longrightarrow> etag X m = Some (quoted_hex X (pr_md5 p))"
  by (simp add: etag_def)

text \<open>An ETag exists unless a single-part manifest has lost its part.\<close>

lemma etag_defined: "etag X m = None \<longleftrightarrow> m_upload_mode m = SinglePut \<and> m_parts m = []"
  by (auto simp: etag_def split: upload_mode.splits list.splits)

end
