(* ===== verification/MetaDb.thy ===== *)
theory MetaDb
  imports Manifest
begin

text \<open>
  The write handlers and point reads of \<^verbatim>\<open>src/storage/db/actor.rs\<close>.

  A \<^verbatim>\<open>redb\<close> database is the record of its tables (\<^verbatim>\<open>tables.rs\<close>); a handler runs inside one
  transaction and returns either a \<^verbatim>\<open>MetaError\<close>, in which case the transaction is dropped
  and nothing is written, or its reply with the database it commits.  Values are stored
  decoded: bincode is third-party code and a failing \<^verbatim>\<open>bincode_decode\<close> is one of the
  failures a transaction can have (theory \<^theory_text>\<open>MetaStore\<close>).  The wall clock is an argument.
\<close>

subsection \<open>Errors (\<^verbatim>\<open>errors.rs\<close>) and tables (\<^verbatim>\<open>tables.rs\<close>)\<close>

datatype meta_error =
    Redb string
  | BincodeEncode string
  | BincodeDecode string
  | Io string
  | ActorSpawn string
  | ActorDied
  | BucketExists string
  | BucketNotFound string
  | BucketNotEmpty string
  | ManifestNotFound manifest_key
  | PartGcPending string
  | PartNotFound string
  | UploadNotInProgress manifest_key

record db =
  buckets :: "(string, bucket_config) table"
  objects :: "(bytes, manifest) table"
  parts :: "(hash, part_entry) table"
  server_meta :: "(string, bytes) table"
  events_dlq :: "(nat, bytes) table"

text \<open>\<^verbatim>\<open>bootstrap_tables\<close> on a new file creates the five tables, empty.\<close>

definition bootstrap_tables :: db where
  "bootstrap_tables = \<lparr>buckets = [], objects = [], parts = [], server_meta = [], events_dlq = []\<rparr>"

subsection \<open>Reference counts\<close>

definition inc_part_refcount ::
  "crates \<Rightarrow> (hash, part_entry) table \<Rightarrow> hash \<Rightarrow> nat \<Rightarrow> timestamp \<Rightarrow> meta_error + (hash, part_entry) table" where
  "inc_part_refcount X ps h sz now =
     (case tbl_get ps h of
        Some e \<Rightarrow>
          if pe_state e = GcPending then Inl (PartGcPending (hex_encode X h))
          else Inr (tbl_insert ps h (e\<lparr>pe_refcount := saturating_add32 (pe_refcount e) 1\<rparr>))
      | None \<Rightarrow>
          Inr (tbl_insert ps h
            \<lparr>pe_refcount = 1, pe_size = sz, pe_state = Live, pe_created_at = now\<rparr>))"

definition dec_part_refcount ::
  "(hash, part_entry) table \<Rightarrow> hash \<Rightarrow> hash option \<times> (hash, part_entry) table" where
  "dec_part_refcount ps h =
     (case tbl_get ps h of
        None \<Rightarrow> (None, ps)
      | Some e \<Rightarrow>
          (let e' = (if pe_refcount e > 0 then e\<lparr>pe_refcount := pe_refcount e - 1\<rparr> else e)
           in (if pe_refcount e' = 0 then Some h else None, tbl_insert ps h e')))"

text \<open>\<^verbatim>\<open>for part_ref in &manifest.parts { inc_part_refcount(..)?; }\<close>\<close>

definition inc_all ::
  "crates \<Rightarrow> (hash, part_entry) table \<Rightarrow> part_ref list \<Rightarrow> timestamp \<Rightarrow> meta_error + (hash, part_entry) table" where
  "inc_all X ps refs now = try_fold (\<lambda>t p. inc_part_refcount X t (pr_hash p) (pr_size p) now) ps refs"

text \<open>\<^verbatim>\<open>for p in &m.parts { if let Some(hash) = dec_part_refcount(..)? { freed.push(hash); } }\<close>\<close>

definition dec_all ::
  "(hash, part_entry) table \<Rightarrow> part_ref list \<Rightarrow> hash list \<times> (hash, part_entry) table" where
  "dec_all ps refs = push_fold (\<lambda>t p. dec_part_refcount t (pr_hash p)) ps refs"

subsection \<open>Buckets\<close>

definition handle_create_bucket :: "db \<Rightarrow> string \<Rightarrow> bucket_config \<Rightarrow> meta_error + (unit \<times> db)" where
  "handle_create_bucket d name config =
     (if tbl_get (buckets d) name \<noteq> None then Inl (BucketExists name)
      else Inr ((), d\<lparr>buckets := tbl_insert (buckets d) name config\<rparr>))"

definition handle_get_bucket :: "db \<Rightarrow> string \<Rightarrow> meta_error + bucket_config option" where
  "handle_get_bucket d name = Inr (tbl_get (buckets d) name)"

definition handle_delete_bucket :: "db \<Rightarrow> string \<Rightarrow> meta_error + (unit \<times> db)" where
  "handle_delete_bucket d name =
     (if tbl_get (buckets d) name = None then Inl (BucketNotFound name)
      else if tbl_range (objects d) (name @ [nul]) (name @ [soh]) \<noteq> [] then Inl (BucketNotEmpty name)
      else Inr ((), d\<lparr>buckets := tbl_remove (buckets d) name\<rparr>))"

definition handle_list_buckets :: "db \<Rightarrow> meta_error + (string \<times> bucket_config) list" where
  "handle_list_buckets d = Inr (tbl_iter (buckets d))"

definition handle_update_bucket_versioning ::
  "db \<Rightarrow> string \<Rightarrow> versioning_state \<Rightarrow> meta_error + (unit \<times> db)" where
  "handle_update_bucket_versioning d name new_state =
     (case tbl_get (buckets d) name of
        None \<Rightarrow> Inl (BucketNotFound name)
      | Some cfg \<Rightarrow>
          Inr ((), d\<lparr>buckets := tbl_insert (buckets d) name (cfg\<lparr>bc_versioning := new_state\<rparr>)\<rparr>))"

definition handle_update_bucket_cors ::
  "db \<Rightarrow> string \<Rightarrow> cors_rule list \<Rightarrow> meta_error + (unit \<times> db)" where
  "handle_update_bucket_cors d name rules =
     (case tbl_get (buckets d) name of
        None \<Rightarrow> Inl (BucketNotFound name)
      | Some cfg \<Rightarrow>
          Inr ((), d\<lparr>buckets := tbl_insert (buckets d) name (cfg\<lparr>bc_cors_rules := rules\<rparr>)\<rparr>))"

definition handle_update_bucket_object_lock ::
  "db \<Rightarrow> string \<Rightarrow> object_lock_config option \<Rightarrow> meta_error + (unit \<times> db)" where
  "handle_update_bucket_object_lock d name c =
     (case tbl_get (buckets d) name of
        None \<Rightarrow> Inl (BucketNotFound name)
      | Some bucket \<Rightarrow>
          Inr ((), d\<lparr>buckets := tbl_insert (buckets d) name (bucket\<lparr>bc_object_lock := c\<rparr>)\<rparr>))"

definition handle_update_bucket_lifecycle ::
  "db \<Rightarrow> string \<Rightarrow> lifecycle_rule list \<Rightarrow> meta_error + (unit \<times> db)" where
  "handle_update_bucket_lifecycle d name rules =
     (case tbl_get (buckets d) name of
        None \<Rightarrow> Inl (BucketNotFound name)
      | Some cfg \<Rightarrow>
          Inr ((), d\<lparr>buckets := tbl_insert (buckets d) name (cfg\<lparr>bc_lifecycle_rules := rules\<rparr>)\<rparr>))"

subsection \<open>Manifests\<close>

definition handle_put_manifest ::
  "crates \<Rightarrow> timestamp \<Rightarrow> db \<Rightarrow> manifest \<Rightarrow> meta_error + (hash list \<times> db)" where
  "handle_put_manifest X now d m =
     (let key_bytes = encode (m_key m);
          old = tbl_get (objects d) key_bytes
      in case inc_all X (parts d) (m_parts m) now of
           Inl e \<Rightarrow> Inl e
         | Inr ps \<Rightarrow>
             (let (freed, ps') = (case old of Some o' \<Rightarrow> dec_all ps (m_parts o') | None \<Rightarrow> ([], ps))
              in Inr (freed, d\<lparr>objects := tbl_insert (objects d) key_bytes m, parts := ps'\<rparr>)))"

definition handle_get_manifest :: "db \<Rightarrow> manifest_key \<Rightarrow> meta_error + manifest option" where
  "handle_get_manifest d k = Inr (tbl_get (objects d) (encode k))"

definition handle_delete_manifest :: "db \<Rightarrow> manifest_key \<Rightarrow> meta_error + (hash list \<times> db)" where
  "handle_delete_manifest d k =
     (let key_bytes = encode k
      in case tbl_get (objects d) key_bytes of
           None \<Rightarrow> Inl (ManifestNotFound k)
         | Some m \<Rightarrow>
             (let (freed, ps) = dec_all (parts d) (m_parts m)
              in Inr (freed, d\<lparr>objects := tbl_remove (objects d) key_bytes, parts := ps\<rparr>)))"

definition handle_update_state ::
  "timestamp \<Rightarrow> db \<Rightarrow> manifest_key \<Rightarrow> manifest_state \<Rightarrow> meta_error + (unit \<times> db)" where
  "handle_update_state now d k new_state =
     (let key_bytes = encode k
      in case tbl_get (objects d) key_bytes of
           None \<Rightarrow> Inl (ManifestNotFound k)
         | Some m \<Rightarrow>
             Inr ((), d\<lparr>objects := tbl_insert (objects d) key_bytes
                              (m\<lparr>m_state := new_state, m_last_modified := now\<rparr>)\<rparr>))"

text \<open>
  \<^verbatim>\<open>m.parts.iter().position(..)\<close> followed by \<^verbatim>\<open>m.parts.remove(old_idx)\<close>: the first part with
  the number, and the list without it.
\<close>

fun take_part :: "nat \<Rightarrow> part_ref list \<Rightarrow> (part_ref \<times> part_ref list) option" where
  "take_part n [] = None"
| "take_part n (p # rest) =
     (if pr_part_number p = n then Some (p, rest)
      else case take_part n rest of
             None \<Rightarrow> None
           | Some (old, rest') \<Rightarrow> Some (old, p # rest'))"

text \<open>
  The two clock readings of the function are \<open>now\<close> (a new part row) and \<open>now2\<close> (the
  manifest's \<^verbatim>\<open>last_modified\<close>).  The state of the manifest is not looked at.
\<close>

definition handle_append_part ::
  "crates \<Rightarrow> timestamp \<Rightarrow> timestamp \<Rightarrow> db \<Rightarrow> manifest_key \<Rightarrow> part_ref \<Rightarrow> meta_error + (hash list \<times> db)" where
  "handle_append_part X now now2 d k part =
     (let key_bytes = encode k
      in case tbl_get (objects d) key_bytes of
           None \<Rightarrow> Inl (ManifestNotFound k)
         | Some m \<Rightarrow>
             (let (freed, ps, rest) =
                (case take_part (pr_part_number part) (m_parts m) of
                   None \<Rightarrow> ([], parts d, m_parts m)
                 | Some (old, rest) \<Rightarrow>
                     (case dec_part_refcount (parts d) (pr_hash old) of
                        (f, ps) \<Rightarrow>
                          (if pr_hash old \<noteq> pr_hash part
                           then (case f of Some h \<Rightarrow> [h] | None \<Rightarrow> []) else [],
                           ps, rest)))
              in case inc_part_refcount X ps (pr_hash part) (pr_size part) now of
                   Inl e \<Rightarrow> Inl e
                 | Inr ps' \<Rightarrow>
                     (let new_parts = sort_key pr_part_number (rest @ [part]);
                          m' = m\<lparr>m_parts := new_parts,
                                 m_size := sum_u64 (map pr_size new_parts),
                                 m_last_modified := now2\<rparr>
                      in Inr (freed, d\<lparr>objects := tbl_insert (objects d) key_bytes m', parts := ps'\<rparr>))))"

definition handle_update_manifest_tags ::
  "db \<Rightarrow> manifest_key \<Rightarrow> (string, string) table \<Rightarrow> meta_error + (unit \<times> db)" where
  "handle_update_manifest_tags d k tags =
     (let key_bytes = encode k
      in case tbl_get (objects d) key_bytes of
           None \<Rightarrow> Inl (ManifestNotFound k)
         | Some m \<Rightarrow>
             Inr ((), d\<lparr>objects := tbl_insert (objects d) key_bytes (m\<lparr>m_tags := tags\<rparr>)\<rparr>))"

definition handle_update_manifest_lock ::
  "db \<Rightarrow> manifest_key \<Rightarrow> object_lock option \<Rightarrow> meta_error + (unit \<times> db)" where
  "handle_update_manifest_lock d k lock =
     (let key_bytes = encode k
      in case tbl_get (objects d) key_bytes of
           None \<Rightarrow> Inl (ManifestNotFound k)
         | Some m \<Rightarrow>
             Inr ((), d\<lparr>objects := tbl_insert (objects d) key_bytes (m\<lparr>m_object_lock := lock\<rparr>)\<rparr>))"

text \<open>
  The closure \<^verbatim>\<open>collect\<close> of \<^verbatim>\<open>handle_complete_multipart\<close>, run over the candidates in order:
  a hash is considered once, skipped when the new manifest uses it, and reported when its
  row exists with count zero.
\<close>

fun collect_freed ::
  "(hash, part_entry) table \<Rightarrow> hash list \<Rightarrow> hash list \<Rightarrow> hash list \<Rightarrow> hash list" where
  "collect_freed ps new_hashes considered [] = []"
| "collect_freed ps new_hashes considered (h # rest) =
     (if h \<in> set considered \<or> h \<in> set new_hashes
      then collect_freed ps new_hashes (h # considered) rest
      else case tbl_get ps h of
             Some e \<Rightarrow>
               (if pe_refcount e = 0 then h # collect_freed ps new_hashes (h # considered) rest
                else collect_freed ps new_hashes (h # considered) rest)
           | None \<Rightarrow> collect_freed ps new_hashes (h # considered) rest)"

definition handle_complete_multipart ::
  "crates \<Rightarrow> timestamp \<Rightarrow> db \<Rightarrow> manifest_key \<Rightarrow> manifest \<Rightarrow> meta_error + (hash list \<times> db)" where
  "handle_complete_multipart X now d in_progress_key new_committed =
     (let in_progress_key_bytes = encode in_progress_key;
          committed_key_bytes = encode (m_key new_committed)
      in case tbl_get (objects d) in_progress_key_bytes of
           None \<Rightarrow> Inl (ManifestNotFound in_progress_key)
         | Some in_progress \<Rightarrow>
             (if m_state in_progress \<noteq> InProgress then Inl (UploadNotInProgress in_progress_key)
              else
                (let old_parts = (case tbl_get (objects d) committed_key_bytes of
                                    Some old \<Rightarrow> m_parts old | None \<Rightarrow> []);
                     ps1 = snd (dec_all (parts d) (m_parts in_progress));
                     ps2 = snd (dec_all ps1 old_parts)
                 in case inc_all X ps2 (m_parts new_committed) now of
                      Inl e \<Rightarrow> Inl e
                    | Inr ps3 \<Rightarrow>
                        Inr (collect_freed ps3 (map pr_hash (m_parts new_committed)) []
                               (map pr_hash (m_parts in_progress) @ map pr_hash old_parts),
                             d\<lparr>objects := tbl_remove
                                  (tbl_insert (objects d) committed_key_bytes new_committed)
                                  in_progress_key_bytes,
                               parts := ps3\<rparr>))))"

subsection \<open>Parts\<close>

definition handle_get_part :: "db \<Rightarrow> hash \<Rightarrow> meta_error + part_entry option" where
  "handle_get_part d h = Inr (tbl_get (parts d) h)"

definition handle_mark_gc_pending :: "crates \<Rightarrow> db \<Rightarrow> hash \<Rightarrow> meta_error + (bool \<times> db)" where
  "handle_mark_gc_pending X d h =
     (case tbl_get (parts d) h of
        None \<Rightarrow> Inl (PartNotFound (hex_encode X h))
      | Some e \<Rightarrow>
          (if pe_refcount e \<noteq> 0 then Inr (False, d)
           else Inr (True, d\<lparr>parts := tbl_insert (parts d) h (e\<lparr>pe_state := GcPending\<rparr>)\<rparr>)))"

definition handle_remove_part :: "db \<Rightarrow> hash \<Rightarrow> meta_error + (unit \<times> db)" where
  "handle_remove_part d h = Inr ((), d\<lparr>parts := tbl_remove (parts d) h\<rparr>)"

definition handle_list_gc_pending :: "db \<Rightarrow> meta_error + hash list" where
  "handle_list_gc_pending d =
     Inr (map fst (filter (\<lambda>e. pe_state (snd e) = GcPending) (tbl_iter (parts d))))"

definition handle_list_orphan_parts :: "db \<Rightarrow> meta_error + hash list" where
  "handle_list_orphan_parts d =
     Inr (map fst (filter (\<lambda>e. pe_refcount (snd e) = 0 \<and> pe_state (snd e) = Live) (tbl_iter (parts d))))"

subsection \<open>Dead-letter queue\<close>

text \<open>\<^verbatim>\<open>k.value() + 1\<close> is a \<^verbatim>\<open>u64\<close> addition, which wraps in a release build.\<close>

definition handle_insert_dlq :: "db \<Rightarrow> bytes \<Rightarrow> meta_error + (nat \<times> db)" where
  "handle_insert_dlq d entry =
     (let next_id = (case tbl_iter (events_dlq d) of
                    [] \<Rightarrow> 1
                  | es \<Rightarrow> (fst (last es) + 1) mod u64_mod)
      in Inr (next_id, d\<lparr>events_dlq := tbl_insert (events_dlq d) next_id entry\<rparr>))"

definition handle_list_dlq :: "db \<Rightarrow> meta_error + (nat \<times> bytes) list" where
  "handle_list_dlq d = Inr (tbl_iter (events_dlq d))"

end
