(* ===== verification/RefCounts.thy ===== *)
theory RefCounts
  imports MetaDb
begin

text \<open>
  Reference counting of parts: the interface between the manifest handlers and the parts
  table, and the lemmas on the counting loops of \<^verbatim>\<open>actor.rs\<close>.

  The locale \<^theory_text>\<open>refcounts\<close> has the two operations \<^verbatim>\<open>inc_part_refcount\<close> and
  \<^verbatim>\<open>dec_part_refcount\<close> as parameters and states what one call does to the count, the presence
  and the gc-pending mark of every hash.  Its lemmas lift this to whole part lists.
\<close>

locale refcounts =
  fixes ok :: "'t \<Rightarrow> bool"
    and cnt :: "'t \<Rightarrow> 'h \<Rightarrow> nat"
    and present :: "'t \<Rightarrow> 'h \<Rightarrow> bool"
    and pend :: "'t \<Rightarrow> 'h \<Rightarrow> bool"
    and inc :: "'t \<Rightarrow> 'r \<Rightarrow> 'e + 't"
    and dec :: "'t \<Rightarrow> 'r \<Rightarrow> 'h option \<times> 't"
    and hash_of :: "'r \<Rightarrow> 'h"
    and limit :: nat
  assumes inc_ok: "ok t \<Longrightarrow> inc t r = Inr t' \<Longrightarrow> ok t'"
    and inc_cnt: "inc t r = Inr t' \<Longrightarrow> cnt t (hash_of r) < limit \<Longrightarrow>
      cnt t' h = cnt t h + (if h = hash_of r then 1 else 0)"
    and inc_present: "inc t r = Inr t' \<Longrightarrow> present t' h \<longleftrightarrow> present t h \<or> h = hash_of r"
    and inc_pend: "inc t r = Inr t' \<Longrightarrow> pend t' h \<longleftrightarrow> pend t h"
    and inc_succeeds: "(\<exists>t'. inc t r = Inr t') \<longleftrightarrow> \<not> pend t (hash_of r)"
    and dec_ok: "ok t \<Longrightarrow> ok (snd (dec t r))"
    and dec_cnt: "cnt (snd (dec t r)) h = cnt t h - (if h = hash_of r then 1 else 0)"
    and dec_present: "present (snd (dec t r)) h \<longleftrightarrow> present t h"
    and dec_pend: "pend (snd (dec t r)) h \<longleftrightarrow> pend t h"
    and dec_freed: "fst (dec t r) =
      (if present t (hash_of r) \<and> cnt t (hash_of r) \<le> 1 then Some (hash_of r) else None)"
    and absent_cnt: "\<not> present t h \<Longrightarrow> cnt t h = 0"
begin

abbreviation occs :: "'r list \<Rightarrow> 'h \<Rightarrow> nat" where
  "occs rs \<equiv> count_list (map hash_of rs)"

lemma inc_all_ok: "ok t \<Longrightarrow> try_fold inc t rs = Inr t' \<Longrightarrow> ok t'"
  by (induction rs arbitrary: t) (auto split: sum.splits intro: inc_ok)

lemma inc_all_cnt:
  assumes "try_fold inc t rs = Inr t'" and "\<And>h. cnt t h + occs rs h \<le> limit"
  shows "cnt t' h = cnt t h + occs rs h"
  using assms
proof (induction rs arbitrary: t)
  case (Cons r rs)
  then obtain u where u: "inc t r = Inr u" "try_fold inc u rs = Inr t'"
    by (auto split: sum.splits)
  have "cnt t (hash_of r) < limit"
    using Cons.prems(2) [of "hash_of r"] by simp
  note c = inc_cnt [OF u(1) this]
  have "cnt u g + occs rs g \<le> limit" for g
    using Cons.prems(2) [of g] by (auto simp: c split: if_splits)
  from Cons.IH [OF u(2) this] show ?case by (simp add: c)
qed simp

lemma inc_all_present:
  "try_fold inc t rs = Inr t' \<Longrightarrow> present t' h \<longleftrightarrow> present t h \<or> h \<in> hash_of ` set rs"
  by (induction rs arbitrary: t) (auto split: sum.splits simp: inc_present)

lemma inc_all_pend: "try_fold inc t rs = Inr t' \<Longrightarrow> pend t' h \<longleftrightarrow> pend t h"
  by (induction rs arbitrary: t) (auto split: sum.splits simp: inc_pend)

lemma inc_all_succeeds: "(\<exists>t'. try_fold inc t rs = Inr t') \<longleftrightarrow> (\<forall>r\<in>set rs. \<not> pend t (hash_of r))"
proof (induction rs arbitrary: t)
  case (Cons r rs)
  show ?case
  proof (cases "inc t r")
    case (Inl e)
    then show ?thesis using inc_succeeds [of t r] by auto
  next
    case (Inr u)
    then show ?thesis using inc_succeeds [of t r] Cons.IH [of u] by (auto simp: inc_pend)
  qed
qed simp

lemma dec_all_Cons:
  "push_fold dec t (r # rs) =
     ((case fst (dec t r) of Some h \<Rightarrow> h # fst (push_fold dec (snd (dec t r)) rs)
       | None \<Rightarrow> fst (push_fold dec (snd (dec t r)) rs)),
      snd (push_fold dec (snd (dec t r)) rs))"
  by (simp add: case_prod_beta)

lemma dec_all_ok: "ok t \<Longrightarrow> ok (snd (push_fold dec t rs))"
  by (induction rs arbitrary: t) (auto simp: case_prod_beta intro: dec_ok)

lemma dec_all_cnt: "cnt (snd (push_fold dec t rs)) h = cnt t h - occs rs h"
  by (induction rs arbitrary: t) (auto simp: case_prod_beta dec_cnt)

lemma dec_all_present: "present (snd (push_fold dec t rs)) h \<longleftrightarrow> present t h"
  by (induction rs arbitrary: t) (auto simp: case_prod_beta dec_present)

lemma dec_all_pend: "pend (snd (push_fold dec t rs)) h \<longleftrightarrow> pend t h"
  by (induction rs arbitrary: t) (auto simp: case_prod_beta dec_pend)

text \<open>The freed list: exactly the hashes whose last reference went away, each once.\<close>

lemma dec_all_freed:
  assumes "\<And>h. occs rs h \<le> cnt t h"
  shows "distinct (fst (push_fold dec t rs)) \<and>
    set (fst (push_fold dec t rs)) = {h \<in> hash_of ` set rs. cnt t h = occs rs h}"
  using assms
proof (induction rs arbitrary: t)
  case (Cons r rs)
  let ?g = "hash_of r" and ?u = "snd (dec t r)"
  have pos: "0 < cnt t ?g" and pres: "present t ?g"
    using Cons.prems [of ?g] absent_cnt [of t ?g] by auto
  have le: "occs rs h \<le> cnt ?u h" for h
    using Cons.prems [of h] by (auto simp: dec_cnt split: if_splits)
  note IH = Cons.IH [OF le]
  have freed: "fst (dec t r) = (if cnt t ?g \<le> 1 then Some ?g else None)"
    using pres by (simp add: dec_freed)
  define P where "P h \<longleftrightarrow> cnt t h = occs (r # rs) h" for h
  define F where "F = fst (push_fold dec ?u rs)"
  have "cnt ?u h = occs rs h \<longleftrightarrow> P h" for h
    using pos by (auto simp: dec_cnt P_def)
  with IH have D: "distinct F" and S: "set F = {h \<in> hash_of ` set rs. P h}"
    by (simp_all add: F_def)
  have "distinct (fst (push_fold dec t (r # rs))) \<and>
    set (fst (push_fold dec t (r # rs))) = {h \<in> insert ?g (hash_of ` set rs). P h}"
  proof (cases "cnt t ?g \<le> 1")
    case True
    with Cons.prems [of ?g] have one: "cnt t ?g = 1" "occs rs ?g = 0" by auto
    then have "P ?g" "?g \<notin> hash_of ` set rs"
      using count_list_0_iff [of "map hash_of rs" ?g] by (simp_all add: P_def)
    moreover have "fst (push_fold dec t (r # rs)) = ?g # F"
      unfolding dec_all_Cons F_def using True freed by simp
    ultimately show ?thesis using D S by auto
  next
    case False
    have "P ?g \<Longrightarrow> ?g \<in> hash_of ` set rs"
      using False count_list_0_iff [of "map hash_of rs" ?g] by (auto simp: P_def)
    moreover have "fst (push_fold dec t (r # rs)) = F"
      unfolding dec_all_Cons F_def using False freed by simp
    ultimately show ?thesis using D S by auto
  qed
  then show ?case by (simp only: P_def list.set image_insert)
qed simp

end

subsection \<open>The parts table is such a counter\<close>

definition count_of :: "(hash, part_entry) table \<Rightarrow> hash \<Rightarrow> nat" where
  "count_of ps h = (case tbl_get ps h of None \<Rightarrow> 0 | Some e \<Rightarrow> pe_refcount e)"

definition has_row :: "(hash, part_entry) table \<Rightarrow> hash \<Rightarrow> bool" where
  "has_row ps h \<longleftrightarrow> tbl_get ps h \<noteq> None"

definition pending :: "(hash, part_entry) table \<Rightarrow> hash \<Rightarrow> bool" where
  "pending ps h \<longleftrightarrow> (case tbl_get ps h of None \<Rightarrow> False | Some e \<Rightarrow> pe_state e = GcPending)"

lemmas part_row_defs = count_of_def has_row_def pending_def inc_part_refcount_def dec_part_refcount_def

interpretation rc: refcounts tbl_ok count_of has_row pending
  "\<lambda>ps p. inc_part_refcount X ps (pr_hash p) (pr_size p) now"
  "\<lambda>ps p. dec_part_refcount ps (pr_hash p)" pr_hash u32_max
  for X now
proof unfold_locales
  fix t t' :: "(hash, part_entry) table" and r h
  assume "inc_part_refcount X t (pr_hash r) (pr_size r) now = Inr t'" "count_of t (pr_hash r) < u32_max"
  then show "count_of t' h = count_of t h + (if h = pr_hash r then 1 else 0)"
    by (auto simp: part_row_defs saturating_add32_exact split: option.splits if_splits)
qed (auto simp: part_row_defs Let_def split: option.splits if_splits)

lemmas inc_all_laws = rc.inc_all_ok rc.inc_all_cnt rc.inc_all_present rc.inc_all_pend
lemmas dec_all_laws = rc.dec_all_ok rc.dec_all_cnt rc.dec_all_present rc.dec_all_pend rc.dec_all_freed

end
