(* ===== verification/DbInv.thy ===== *)
theory DbInv
  imports RefCounts "HOL-Library.Multiset"
begin

text \<open>
  The invariant of the metadata database and its preservation by every write handler.

  \<^item> \<^theory_text>\<open>db_ok\<close>: every table has strictly increasing keys.
  \<^item> \<^theory_text>\<open>keys_ok\<close>: a manifest is stored under its own encoded key.
  \<^item> \<^theory_text>\<open>refs_exact\<close>: the count in a part row is the number of references to the part from all
    manifests, whatever their state, and a row marked gc-pending has count zero.

  The effect list a handler returns (\<^verbatim>\<open>DeletionEffect::freed_parts\<close>) is characterised
  together with the preservation of \<^theory_text>\<open>refs_exact\<close>.
\<close>

definition occurrences :: "manifest \<Rightarrow> hash \<Rightarrow> nat" where
  "occurrences m h = count_list (map pr_hash (m_parts m)) h"

definition part_hashes :: "manifest \<Rightarrow> hash set" where
  "part_hashes m = pr_hash ` set (m_parts m)"

definition refs :: "db \<Rightarrow> hash \<Rightarrow> nat" where
  "refs d h = sum_list (map (\<lambda>e. occurrences (snd e) h) (tbl_iter (objects d)))"

definition db_ok :: "db \<Rightarrow> bool" where
  "db_ok d \<longleftrightarrow> tbl_ok (buckets d) \<and> tbl_ok (objects d) \<and> tbl_ok (parts d) \<and> tbl_ok (events_dlq d)"

definition keys_ok :: "db \<Rightarrow> bool" where
  "keys_ok d \<longleftrightarrow> (\<forall>kb m. tbl_get (objects d) kb = Some m \<longrightarrow> kb = encode (m_key m) \<and> nul_free_key (m_key m))"

definition refs_exact :: "db \<Rightarrow> bool" where
  "refs_exact d \<longleftrightarrow>
     (\<forall>h. count_of (parts d) h = refs d h) \<and> (\<forall>h. pending (parts d) h \<longrightarrow> refs d h = 0)"

text \<open>The counts of a new manifest's parts do not reach the \<^verbatim>\<open>u32\<close> limit.\<close>

definition room_for :: "db \<Rightarrow> part_ref list \<Rightarrow> bool" where
  "room_for d ps \<longleftrightarrow> (\<forall>h. refs d h + count_list (map pr_hash ps) h \<le> u32_max)"

text \<open>
  The contract of every handler that reports a deletion effect: it keeps the invariant, and
  the list it returns holds exactly the parts that lost their last reference, each once.
\<close>

definition lost_refs :: "db \<Rightarrow> db \<Rightarrow> hash set" where
  "lost_refs d d' = {h. 0 < refs d h \<and> refs d' h = 0}"

definition exact_effect :: "db \<Rightarrow> hash list \<Rightarrow> db \<Rightarrow> bool" where
  "exact_effect d freed d' \<longleftrightarrow>
     db_ok d' \<and> refs_exact d' \<and> distinct freed \<and> set freed = lost_refs d d'"

lemma occurrences_pos_iff: "0 < occurrences m h \<longleftrightarrow> h \<in> part_hashes m"
  by (auto simp: occurrences_def part_hashes_def count_list_pos_iff)

lemma occurrences_0_iff: "occurrences m h = 0 \<longleftrightarrow> h \<notin> part_hashes m"
  using occurrences_pos_iff [of m h] by auto

lemma refs_weight: "refs d h = tbl.weight (\<lambda>m. occurrences m h) (objects d)"
  by (simp add: refs_def tbl.weight_def)

lemma refs_cong: "objects d' = objects d \<Longrightarrow> refs d' = refs d"
  by (simp add: refs_def fun_eq_iff)

lemma refs_parts_update [simp]: "refs (d\<lparr>parts := ps\<rparr>) = refs d"
  by (rule refs_cong) simp

lemma count_of_insert [simp]: "count_of (tbl_insert ps h e) g = (if g = h then pe_refcount e else count_of ps g)"
  by (simp add: count_of_def)

lemma count_of_remove [simp]: "count_of (tbl_remove ps h) g = (if g = h then 0 else count_of ps g)"
  by (simp add: count_of_def)

lemma pending_insert [simp]:
  "pending (tbl_insert ps h e) g \<longleftrightarrow> (if g = h then pe_state e = GcPending else pending ps g)"
  by (simp add: pending_def)

lemma pending_remove [simp]: "pending (tbl_remove ps h) g \<longleftrightarrow> g \<noteq> h \<and> pending ps g"
  by (simp add: pending_def)

lemma refs_insert:
  assumes "tbl_ok (objects d)" and "objects d' = tbl_insert (objects d) k m"
  shows "refs d' h + (case tbl_get (objects d) k of None \<Rightarrow> 0 | Some w \<Rightarrow> occurrences w h) = refs d h + occurrences m h"
  using tbl.weight_insert [OF assms(1), of "\<lambda>m. occurrences m h" k m] by (simp add: refs_weight assms(2))

lemma refs_remove:
  assumes "tbl_ok (objects d)" and "objects d' = tbl_remove (objects d) k"
  shows "refs d' h + (case tbl_get (objects d) k of None \<Rightarrow> 0 | Some w \<Rightarrow> occurrences w h) = refs d h"
  using tbl.weight_remove [OF assms(1), of "\<lambda>m. occurrences m h" k] by (simp add: refs_weight assms(2))

lemma refs_ge: "tbl_ok (objects d) \<Longrightarrow> tbl_get (objects d) k = Some m \<Longrightarrow> occurrences m h \<le> refs d h"
  unfolding refs_weight by (rule tbl.weight_ge [where f = "\<lambda>m. occurrences m h"])

lemma refs_0_iff:
  "tbl_ok (objects d) \<Longrightarrow> refs d h = 0 \<longleftrightarrow> (\<forall>k m. tbl_get (objects d) k = Some m \<longrightarrow> h \<notin> part_hashes m)"
  by (simp add: refs_weight tbl.weight_zero_iff occurrences_0_iff)

lemma part_hashes_lost:
  assumes "\<And>h. refs d' h + occurrences w h = refs d h + f h" and "\<And>h. occurrences w h \<le> refs d h"
  shows "{h \<in> part_hashes w. refs d' h = 0} = lost_refs d d'"
proof -
  have "h \<in> part_hashes w \<and> refs d' h = 0 \<longleftrightarrow> 0 < refs d h \<and> refs d' h = 0" for h
    using assms(1) [of h] assms(2) [of h] occurrences_pos_iff [of w h] by auto
  then show ?thesis by (auto simp: lost_refs_def)
qed

lemma refs_exact_count: "refs_exact d \<Longrightarrow> count_of (parts d) h = refs d h"
  by (simp add: refs_exact_def)

lemma refs_exact_pending: "refs_exact d \<Longrightarrow> pending (parts d) h \<Longrightarrow> refs d h = 0"
  unfolding refs_exact_def by metis

subsection \<open>The initial database\<close>

lemma bootstrap_ok: "db_ok bootstrap_tables" "keys_ok bootstrap_tables" "refs_exact bootstrap_tables"
  by (simp_all add: bootstrap_tables_def db_ok_def keys_ok_def refs_exact_def count_of_def pending_def
      refs_def tbl_iter_def)

subsection \<open>\<^verbatim>\<open>handle_put_manifest\<close>\<close>

lemma put_manifest_cases:
  assumes "handle_put_manifest X now d m = Inr (freed, d')"
  obtains ps where
    "inc_all X (parts d) (m_parts m) now = Inr ps"
    "objects d' = tbl_insert (objects d) (encode (m_key m)) m"
    "buckets d' = buckets d" "events_dlq d' = events_dlq d"
    "(freed, parts d') = (case tbl_get (objects d) (encode (m_key m)) of
        Some w \<Rightarrow> dec_all ps (m_parts w) | None \<Rightarrow> ([], ps))"
  using assms
  by (auto simp: handle_put_manifest_def Let_def split: sum.splits option.splits prod.splits)

lemma put_manifest_ok_iff:
  "(\<exists>r. handle_put_manifest X now d m = Inr r) \<longleftrightarrow> (\<forall>h\<in>part_hashes m. \<not> pending (parts d) h)"
proof -
  have "(\<exists>r. handle_put_manifest X now d m = Inr r) \<longleftrightarrow> (\<exists>ps. inc_all X (parts d) (m_parts m) now = Inr ps)"
    by (cases "inc_all X (parts d) (m_parts m) now")
      (auto simp: handle_put_manifest_def Let_def split: option.splits prod.splits)
  then show ?thesis
    by (simp add: inc_all_def rc.inc_all_succeeds part_hashes_def)
qed

lemma put_manifest_preserves:
  assumes step: "handle_put_manifest X now d m = Inr (freed, d')"
    and ok: "db_ok d" and ex: "refs_exact d" and room: "room_for d (m_parts m)"
  shows "exact_effect d freed d'"
proof -
  obtain ps where inc: "inc_all X (parts d) (m_parts m) now = Inr ps"
    and objs: "objects d' = tbl_insert (objects d) (encode (m_key m)) m"
    and d': "buckets d' = buckets d" "events_dlq d' = events_dlq d"
    and dec: "(freed, parts d') = (case tbl_get (objects d) (encode (m_key m)) of
        Some w \<Rightarrow> dec_all ps (m_parts w) | None \<Rightarrow> ([], ps))"
    by (rule put_manifest_cases [OF step])
  have tok: "tbl_ok (objects d)" "tbl_ok (parts d)" using ok by (auto simp: db_ok_def)
  have ps_ok: "tbl_ok ps" using inc tok by (auto simp: inc_all_def intro: rc.inc_all_ok)
  have ps_cnt: "count_of ps h = refs d h + occurrences m h" for h
    using rc.inc_all_cnt [OF inc [unfolded inc_all_def]] room refs_exact_count [OF ex]
    by (simp add: room_for_def occurrences_def)
  have ps_pend: "pending ps h = pending (parts d) h" for h
    by (rule rc.inc_all_pend [OF inc [unfolded inc_all_def]])
  have no_pend: "pending ps h \<Longrightarrow> refs d h = 0 \<and> occurrences m h = 0" for h
    using put_manifest_ok_iff [of X now d m] step ps_pend refs_exact_pending [OF ex]
    by (auto simp: occurrences_0_iff)
  note ri = refs_insert [OF tok(1) objs]
  show ?thesis
  proof (cases "tbl_get (objects d) (encode (m_key m))")
    case None
    with dec have "freed = []" "parts d' = ps" by auto
    moreover have "refs d' h = refs d h + occurrences m h" for h
      using ri [of h] None by simp
    moreover have "db_ok d'" using ok ps_ok \<open>parts d' = ps\<close> by (simp add: db_ok_def objs d')
    ultimately show ?thesis using None no_pend ps_cnt by (auto simp: refs_exact_def exact_effect_def lost_refs_def)
  next
    case (Some w)
    with dec have freed: "freed = fst (dec_all ps (m_parts w))" and pd: "parts d' = snd (dec_all ps (m_parts w))"
      by (auto simp: prod_eq_iff)
    have new: "refs d' h + occurrences w h = refs d h + occurrences m h" for h
      using ri [of h] Some by simp
    have wle: "occurrences w h \<le> refs d h" for h by (rule refs_ge [OF tok(1) Some])
    have cnt': "count_of (parts d') h = refs d' h" for h
      using rc.dec_all_cnt [of ps "m_parts w" h] ps_cnt [of h] new [of h] wle [of h]
      by (simp add: pd dec_all_def occurrences_def)
    have ref': "refs d' h = 0 \<longleftrightarrow> count_of ps h = occurrences w h" for h
      using new [of h] ps_cnt [of h] by arith
    have "refs_exact d'"
      unfolding refs_exact_def
      using cnt' no_pend new rc.dec_all_pend [of ps "m_parts w"]
      by (metis add_is_0 dec_all_def pd)
    moreover have "db_ok d'"
      using ok ps_ok rc.dec_all_ok [of ps "m_parts w"] by (simp add: db_ok_def objs d' pd dec_all_def)
    moreover have "distinct freed \<and> set freed = {h \<in> part_hashes w. refs d' h = 0}"
      unfolding freed ref' dec_all_def part_hashes_def occurrences_def
      by (rule rc.dec_all_freed) (use ps_cnt wle in \<open>simp add: occurrences_def [symmetric] trans_le_add1\<close>)
    moreover have "{h \<in> part_hashes w. refs d' h = 0} = lost_refs d d'"
      using new wle by (rule part_hashes_lost)
    ultimately show ?thesis by (simp add: exact_effect_def)
  qed
qed

subsection \<open>\<^verbatim>\<open>handle_delete_manifest\<close>\<close>

lemma dec_all_count: "count_of (snd (dec_all ps rs)) h = count_of ps h - count_list (map pr_hash rs) h"
  unfolding dec_all_def by (rule rc.dec_all_cnt)

lemma dec_all_pending: "pending (snd (dec_all ps rs)) h \<longleftrightarrow> pending ps h"
  unfolding dec_all_def by (rule rc.dec_all_pend)

lemma dec_all_tbl_ok: "tbl_ok ps \<Longrightarrow> tbl_ok (snd (dec_all ps rs))"
  unfolding dec_all_def by (rule rc.dec_all_ok)

lemma dec_parts_freed:
  assumes "\<And>h. count_list (map pr_hash rs) h \<le> count_of ps h"
  shows "distinct (fst (dec_all ps rs)) \<and>
    set (fst (dec_all ps rs)) = {h \<in> pr_hash ` set rs. count_of ps h = count_list (map pr_hash rs) h}"
  unfolding dec_all_def using assms by (rule rc.dec_all_freed)

lemma delete_manifest_cases:
  assumes "handle_delete_manifest d k = Inr (freed, d')"
  obtains m where "tbl_get (objects d) (encode k) = Some m"
    "objects d' = tbl_remove (objects d) (encode k)"
    "buckets d' = buckets d" "events_dlq d' = events_dlq d"
    "freed = fst (dec_all (parts d) (m_parts m))" "parts d' = snd (dec_all (parts d) (m_parts m))"
  using assms by (auto simp: handle_delete_manifest_def Let_def split: option.splits prod.splits)

lemma delete_manifest_preserves:
  assumes step: "handle_delete_manifest d k = Inr (freed, d')"
    and ok: "db_ok d" and ex: "refs_exact d"
  shows "exact_effect d freed d'"
proof -
  obtain m where m: "tbl_get (objects d) (encode k) = Some m"
    and objs: "objects d' = tbl_remove (objects d) (encode k)"
    and d': "buckets d' = buckets d" "events_dlq d' = events_dlq d"
    and fr: "freed = fst (dec_all (parts d) (m_parts m))" "parts d' = snd (dec_all (parts d) (m_parts m))"
    by (rule delete_manifest_cases [OF step])
  have tok: "tbl_ok (objects d)" using ok by (simp add: db_ok_def)
  have new: "refs d' h + occurrences m h = refs d h" for h
    using refs_remove [OF tok objs, of h] m by simp
  have cnt': "count_of (parts d') h = refs d' h" for h
    using new [of h] refs_exact_count [OF ex, of h] by (simp add: fr dec_all_count occurrences_def)
  have "refs_exact d'"
    unfolding refs_exact_def
    using cnt' refs_exact_pending [OF ex] new by (metis add_is_0 dec_all_pending fr(2))
  moreover have "distinct freed \<and> set freed = {h \<in> part_hashes m. refs d' h = 0}"
  proof -
    have "count_list (map pr_hash (m_parts m)) h \<le> count_of (parts d) h" for h
      using new [of h] refs_exact_count [OF ex, of h] by (simp add: occurrences_def)
    moreover have "refs d' h = 0 \<longleftrightarrow> count_of (parts d) h = count_list (map pr_hash (m_parts m)) h" for h
      using new [of h] refs_exact_count [OF ex, of h] by (auto simp: occurrences_def)
    ultimately show ?thesis using dec_parts_freed [of "m_parts m" "parts d"] by (simp add: fr part_hashes_def)
  qed
  moreover have "db_ok d'"
    using ok by (simp add: db_ok_def objs d' fr dec_all_tbl_ok)
  moreover have "{h \<in> part_hashes m. refs d' h = 0} = lost_refs d d'"
    by (rule part_hashes_lost [where f = "\<lambda>_. 0"]) (use new in \<open>simp_all flip: new\<close>)
  ultimately show ?thesis by (simp add: exact_effect_def)
qed

subsection \<open>\<^verbatim>\<open>handle_append_part\<close>\<close>

lemma take_part_Some:
  "take_part n ps = Some (old, rest) \<Longrightarrow>
     mset ps = add_mset old (mset rest) \<and> pr_part_number old = n"
  by (induction ps arbitrary: rest) (auto split: if_splits option.splits)

lemma take_part_None: "take_part n ps = None \<longleftrightarrow> n \<notin> pr_part_number ` set ps"
  by (induction ps) (auto split: option.splits)

lemma count_list_mset: "count_list xs x = count (mset xs) x"
  by (induction xs) auto

lemma append_part_cases:
  assumes "handle_append_part X now now2 d k part = Inr (freed, d')"
  obtains m old_refs rest ps ps' where
    "tbl_get (objects d) (encode k) = Some m"
    "mset (m_parts m) = mset old_refs + mset rest"
    "(case take_part (pr_part_number part) (m_parts m) of
        None \<Rightarrow> old_refs = [] \<and> rest = m_parts m | Some (old, r) \<Rightarrow> old_refs = [old] \<and> rest = r)"
    "ps = snd (dec_all (parts d) old_refs)"
    "inc_part_refcount X ps (pr_hash part) (pr_size part) now = Inr ps'"
    "freed = filter (\<lambda>h. h \<noteq> pr_hash part) (fst (dec_all (parts d) old_refs))"
    "parts d' = ps'" "buckets d' = buckets d" "events_dlq d' = events_dlq d"
    "objects d' = tbl_insert (objects d) (encode k)
       (m\<lparr>m_parts := sort_key pr_part_number (rest @ [part]),
          m_size := sum_u64 (map pr_size (sort_key pr_part_number (rest @ [part]))),
          m_last_modified := now2\<rparr>)"
proof -
  obtain m where m: "tbl_get (objects d) (encode k) = Some m"
    using assms by (auto simp: handle_append_part_def Let_def split: option.splits)
  show ?thesis
  proof (cases "take_part (pr_part_number part) (m_parts m)")
    case None
    then obtain ps' where ps': "inc_part_refcount X (parts d) (pr_hash part) (pr_size part) now = Inr ps'"
      using assms m by (auto simp: handle_append_part_def Let_def split: sum.splits)
    show ?thesis
      by (rule that [of m "[]" "m_parts m" "parts d" ps'])
        (use assms m None ps' in \<open>auto simp: handle_append_part_def Let_def dec_all_def\<close>)
  next
    case (Some z)
    obtain old rest where z: "z = (old, rest)" by (cases z)
    define ps where "ps = snd (dec_part_refcount (parts d) (pr_hash old))"
    obtain ps' where ps': "inc_part_refcount X ps (pr_hash part) (pr_size part) now = Inr ps'"
      using assms m Some z
      by (auto simp: handle_append_part_def Let_def ps_def split: sum.splits prod.splits)
    have fst_old: "fst (dec_part_refcount (parts d) (pr_hash old)) = None \<or>
        fst (dec_part_refcount (parts d) (pr_hash old)) = Some (pr_hash old)"
      by (auto simp: dec_part_refcount_def Let_def split: option.splits)
    show ?thesis
      by (rule that [of m "[old]" rest ps ps'])
        (use assms m Some z ps' take_part_Some [of _ "m_parts m" old rest] fst_old in
          \<open>auto simp: handle_append_part_def Let_def dec_all_def ps_def case_prod_beta split: option.splits\<close>)
  qed
qed

lemma append_part_preserves:
  assumes step: "handle_append_part X now now2 d k part = Inr (freed, d')"
    and ok: "db_ok d" and ex: "refs_exact d" and room: "room_for d [part]"
  shows "exact_effect d freed d'"
proof -
  obtain m rs rest ps ps' where m: "tbl_get (objects d) (encode k) = Some m"
    and split: "mset (m_parts m) = mset rs + mset rest"
    and ps: "ps = snd (dec_all (parts d) rs)"
    and inc: "inc_part_refcount X ps (pr_hash part) (pr_size part) now = Inr ps'"
    and freed: "freed = filter (\<lambda>h. h \<noteq> pr_hash part) (fst (dec_all (parts d) rs))"
    and d': "parts d' = ps'" "buckets d' = buckets d" "events_dlq d' = events_dlq d"
    and objs: "objects d' = tbl_insert (objects d) (encode k)
       (m\<lparr>m_parts := sort_key pr_part_number (rest @ [part]),
          m_size := sum_u64 (map pr_size (sort_key pr_part_number (rest @ [part]))),
          m_last_modified := now2\<rparr>)" (is "_ = tbl_insert _ _ ?m'")
    by (rule append_part_cases [OF step])
  have tok: "tbl_ok (objects d)" "tbl_ok (parts d)" using ok by (auto simp: db_ok_def)
  let ?c = "\<lambda>rs h. count_list (map pr_hash rs) h" and ?g = "pr_hash part"
  have occ_m: "occurrences m h = ?c rs h + ?c rest h" for h
    using arg_cong [OF split, of "\<lambda>M. count (image_mset pr_hash M) h"]
    by (simp add: occurrences_def count_list_mset)
  have occ_m': "occurrences ?m' h = ?c rest h + (if h = ?g then 1 else 0)" for h
    by (simp add: occurrences_def count_list_mset)
  have le: "occurrences m h \<le> refs d h" for h by (rule refs_ge [OF tok(1) m])
  have new: "refs d' h + ?c rs h = refs d h + (if h = ?g then 1 else 0)" for h
    using refs_insert [OF tok(1) objs, of h] m occ_m [of h] occ_m' [of h] by simp
  have cnt: "count_of (parts d) h = refs d h" for h by (rule refs_exact_count [OF ex])
  have ps_cnt: "count_of ps h = refs d h - ?c rs h" for h by (simp add: ps dec_all_count cnt)
  have "count_of ps ?g < u32_max"
    using room ps_cnt [of ?g] by (auto simp: room_for_def dest: spec [of _ ?g])
  then have cnt': "count_of (parts d') h = refs d' h" for h
    using rc.inc_cnt [OF inc, of h] ps_cnt [of h] new [of h] occ_m [of h] le [of h]
    by (auto simp: d' split: if_splits)
  have pend: "pending (parts d') h \<longleftrightarrow> pending (parts d) h" for h
    using rc.inc_pend [OF inc, of h] by (simp add: d' ps dec_all_pending)
  have notg: "\<not> pending (parts d) ?g"
    using rc.inc_succeeds [of X ps part now] inc by (auto simp: ps dec_all_pending)
  have "refs_exact d'"
    unfolding refs_exact_def
    using cnt' pend notg refs_exact_pending [OF ex] new by (metis add.right_neutral add_is_0)
  moreover have "db_ok d'"
    using ok rc.inc_ok [OF _ inc] dec_all_tbl_ok [OF tok(2)] by (simp add: db_ok_def d' objs ps)
  moreover have "distinct freed \<and> set freed = lost_refs d d'"
  proof -
    have "?c rs h \<le> count_of (parts d) h" for h
      using occ_m [of h] le [of h] by (simp add: cnt)
    note F = dec_parts_freed [of rs "parts d", OF this]
    have "h \<in> set freed \<longleftrightarrow> h \<in> lost_refs d d'" for h
    proof -
      have "h \<in> pr_hash ` set rs \<longleftrightarrow> 0 < ?c rs h"
        using count_list_pos_iff [of "map pr_hash rs" h] by simp
      then have "h \<in> set freed \<longleftrightarrow> h \<noteq> ?g \<and> 0 < ?c rs h \<and> refs d h = ?c rs h"
        using F cnt [of h] by (simp add: freed) blast
      also have "\<dots> \<longleftrightarrow> 0 < refs d h \<and> refs d' h = 0"
        using new [of h] occ_m [of h] le [of h] by (cases "h = ?g"; simp; linarith)
      finally show ?thesis by (simp add: lost_refs_def)
    qed
    then show ?thesis using F by (auto simp: freed)
  qed
  ultimately show ?thesis by (simp add: exact_effect_def)
qed

subsection \<open>\<^verbatim>\<open>handle_complete_multipart\<close>\<close>

lemma collect_freed_spec:
  "distinct (collect_freed ps nh cons cs) \<and>
   set (collect_freed ps nh cons cs) =
     {h \<in> set cs. h \<notin> set cons \<and> h \<notin> set nh \<and> has_row ps h \<and> count_of ps h = 0}"
proof (induction cs arbitrary: cons)
  case (Cons c cs)
  show ?case
    using Cons.IH [of "c # cons"]
    by (auto simp: has_row_def count_of_def split: option.splits)
qed simp

lemma complete_multipart_cases:
  assumes "handle_complete_multipart X now d ik new = Inr (freed, d')"
  obtains ip oldp ps where
    "tbl_get (objects d) (encode ik) = Some ip" "m_state ip = InProgress"
    "oldp = (case tbl_get (objects d) (encode (m_key new)) of Some w \<Rightarrow> m_parts w | None \<Rightarrow> [])"
    "inc_all X (snd (dec_all (snd (dec_all (parts d) (m_parts ip))) oldp)) (m_parts new) now = Inr ps"
    "freed = collect_freed ps (map pr_hash (m_parts new)) [] (map pr_hash (m_parts ip) @ map pr_hash oldp)"
    "parts d' = ps" "buckets d' = buckets d" "events_dlq d' = events_dlq d"
    "objects d' = tbl_remove (tbl_insert (objects d) (encode (m_key new)) new) (encode ik)"
  using assms
  by (auto simp: handle_complete_multipart_def Let_def split: sum.splits option.splits if_splits)

lemma complete_multipart_preserves:
  assumes step: "handle_complete_multipart X now d ik new = Inr (freed, d')"
    and ok: "db_ok d" and ex: "refs_exact d" and room: "room_for d (m_parts new)"
    and neq: "encode ik \<noteq> encode (m_key new)"
  shows "exact_effect d freed d'"
proof -
  obtain ip oldp ps where ip: "tbl_get (objects d) (encode ik) = Some ip"
    and oldp: "oldp = (case tbl_get (objects d) (encode (m_key new)) of Some w \<Rightarrow> m_parts w | None \<Rightarrow> [])"
    and inc: "inc_all X (snd (dec_all (snd (dec_all (parts d) (m_parts ip))) oldp)) (m_parts new) now = Inr ps"
    and freed: "freed = collect_freed ps (map pr_hash (m_parts new)) [] (map pr_hash (m_parts ip) @ map pr_hash oldp)"
    and d': "parts d' = ps" "buckets d' = buckets d" "events_dlq d' = events_dlq d"
    and objs: "objects d' = tbl_remove (tbl_insert (objects d) (encode (m_key new)) new) (encode ik)"
    by (rule complete_multipart_cases [OF step])
  have tok: "tbl_ok (objects d)" "tbl_ok (parts d)" using ok by (auto simp: db_ok_def)
  define d1 where "d1 = d\<lparr>objects := tbl_insert (objects d) (encode (m_key new)) new\<rparr>"
  let ?old = "\<lambda>h. count_list (map pr_hash oldp) h" and ?new = "occurrences new"
  have r1: "refs d1 h + ?old h = refs d h + ?new h" for h
    using refs_insert [OF tok(1), of d1 "encode (m_key new)" new h]
    by (auto simp: d1_def oldp occurrences_def split: option.splits)
  have r2: "refs d' h + occurrences ip h = refs d1 h" for h
    using refs_remove [of d1 d' "encode ik" h] tok ip neq by (simp add: d1_def objs)
  have le: "occurrences ip h + ?old h \<le> refs d h" for h
  proof -
    define d2 where "d2 = d\<lparr>objects := tbl_remove (objects d) (encode ik)\<rparr>"
    have "refs d2 h + occurrences ip h = refs d h"
      using refs_remove [OF tok(1), of d2 "encode ik" h] ip by (simp add: d2_def)
    moreover have "?old h \<le> refs d2 h"
      using refs_ge [of d2 "encode (m_key new)" _ h] tok neq
      by (auto simp: d2_def oldp occurrences_def split: option.splits)
    ultimately show ?thesis by simp
  qed
  have cnt: "count_of (parts d) h = refs d h" for h by (rule refs_exact_count [OF ex])
  define ps2 where "ps2 = snd (dec_all (snd (dec_all (parts d) (m_parts ip))) oldp)"
  have ps2: "count_of ps2 h + occurrences ip h + ?old h = refs d h" for h
    using le [of h] by (simp add: ps2_def dec_all_count cnt occurrences_def)
  note inc' = inc [folded ps2_def, unfolded inc_all_def]
  have cnt': "count_of ps h = refs d' h" for h
  proof -
    have "count_of ps2 g + count_list (map pr_hash (m_parts new)) g \<le> u32_max" for g
    proof -
      have "refs d g + count_list (map pr_hash (m_parts new)) g \<le> u32_max"
        using room unfolding room_for_def by blast
      with ps2 [of g] show ?thesis by linarith
    qed
    from rc.inc_all_cnt [OF inc' this, of h] ps2 [of h] r1 [of h] r2 [of h]
    show ?thesis by (simp add: occurrences_def)
  qed
  have pend: "pending ps h \<longleftrightarrow> pending (parts d) h" for h
    using rc.inc_all_pend [OF inc', of h] by (simp add: ps2_def dec_all_pending)
  have nopend: "pending ps h \<Longrightarrow> ?new h = 0" for h
    using rc.inc_all_succeeds [of X now ps2 "m_parts new"] inc' rc.inc_all_pend [OF inc', of h]
    by (auto simp: occurrences_0_iff part_hashes_def)
  have row: "has_row ps h" if "0 < refs d h" for h
  proof -
    have "has_row (parts d) h" using that cnt [of h] by (auto simp: count_of_def has_row_def split: option.splits)
    then show ?thesis
      using rc.inc_all_present [OF inc', of h]
      by (simp add: ps2_def dec_all_def rc.dec_all_present)
  qed
  have "refs_exact d'"
    unfolding refs_exact_def d'
    using cnt' pend nopend refs_exact_pending [OF ex] r1 r2 by (metis add_is_0)
  moreover have "db_ok d'"
    using ok rc.inc_all_ok [OF _ inc'] tok by (simp add: db_ok_def d' objs ps2_def dec_all_tbl_ok)
  moreover have "distinct freed \<and> set freed = lost_refs d d'"
  proof -
    have "h \<in> set freed \<longleftrightarrow> h \<in> lost_refs d d'" for h
    proof -
      have "h \<in> set freed \<longleftrightarrow>
          (0 < occurrences ip h \<or> 0 < ?old h) \<and> ?new h = 0 \<and> has_row ps h \<and> refs d' h = 0"
        unfolding freed collect_freed_spec [THEN conjunct2] occurrences_0_iff occurrences_pos_iff
        by (auto simp: cnt' part_hashes_def count_list_pos_iff)
      also have "\<dots> \<longleftrightarrow> 0 < refs d h \<and> refs d' h = 0"
        using row [of h] r1 [of h] r2 [of h] le [of h] by (cases "has_row ps h"; simp; linarith)
      finally show ?thesis by (simp add: lost_refs_def)
    qed
    then show ?thesis by (auto simp: freed collect_freed_spec)
  qed
  ultimately show ?thesis by (simp add: exact_effect_def)
qed

subsection \<open>Garbage-collection steps on the parts table\<close>

lemma mark_gc_pending_preserves:
  assumes step: "handle_mark_gc_pending X d h = Inr (b, d')" and ok: "db_ok d" and ex: "refs_exact d"
  shows "db_ok d' \<and> refs_exact d' \<and> objects d' = objects d \<and> (b \<longleftrightarrow> refs d h = 0) \<and>
    (b \<longrightarrow> pending (parts d') h)"
proof -
  obtain e where e: "tbl_get (parts d) h = Some e"
    using step by (auto simp: handle_mark_gc_pending_def split: option.splits)
  have cnt: "pe_refcount e = refs d h" using refs_exact_count [OF ex, of h] e by (simp add: count_of_def)
  show ?thesis
  proof (cases "refs d h = 0")
    case True
    then have d': "d' = d\<lparr>parts := tbl_insert (parts d) h (e\<lparr>pe_state := GcPending\<rparr>)\<rparr>" and b
      using step e cnt by (auto simp: handle_mark_gc_pending_def)
    then show ?thesis
      using True ok ex cnt by (simp add: db_ok_def refs_exact_def)
  next
    case False
    then have "d' = d" "\<not> b" using step e cnt by (auto simp: handle_mark_gc_pending_def)
    then show ?thesis using False ok ex by simp
  qed
qed

lemma remove_part_preserves:
  assumes step: "handle_remove_part d h = Inr (u, d')" and ok: "db_ok d" and ex: "refs_exact d"
    and zero: "refs d h = 0"
  shows "db_ok d' \<and> refs_exact d' \<and> objects d' = objects d"
  using assms by (auto simp: handle_remove_part_def db_ok_def refs_exact_def)

end
