(* ===== verification/Scan.thy ===== *)
theory Scan
  imports DbInv
begin

text \<open>
  The range scans of \<^verbatim>\<open>src/storage/db/actor.rs\<close> (latest version, object listing, version
  listing, whole-bucket enumeration) and the request and page types of
  \<^verbatim>\<open>src/storage/db/mod.rs\<close>.
\<close>

subsection \<open>Requests and pages (\<^verbatim>\<open>db/mod.rs\<close>)\<close>

datatype list_cursor = AfterKey string | AfterPrefix string

record list_objects_request =
  lq_bucket :: string
  lq_prefix :: string
  lq_delimiter :: "string option"
  lq_cursor :: "list_cursor option"
  lq_limit :: nat

datatype list_item = ItemObject manifest | ItemCommonPrefix string

record list_objects_page =
  lp_items :: "list_item list"
  lp_truncated :: bool
  lp_next_cursor :: "list_cursor option"

record list_object_version_entry =
  ve_manifest :: manifest
  ve_is_latest :: bool

record list_object_versions_page =
  vp_entries :: "list_object_version_entry list"
  vp_truncated :: bool
  vp_next_cursor :: "list_cursor option"

subsection \<open>Scan bounds\<close>

definition initial_scan_start :: "string \<Rightarrow> string \<Rightarrow> bytes" where
  "initial_scan_start b pfx = b @ [nul] @ pfx"

definition after_key :: "string \<Rightarrow> string \<Rightarrow> bytes" where
  "after_key b k = b @ [nul] @ k @ [soh]"

text \<open>
  The loop \<^verbatim>\<open>for i in (0..bytes.len()).rev()\<close> over the reversed prefix: cut at the last byte
  below \<^verbatim>\<open>0xff\<close> and increment it.
\<close>

fun bump_last :: "bytes \<Rightarrow> bytes option" where
  "bump_last [] = None"
| "bump_last (c # earlier) =
     (if c < CHR 0xFF then Some (rev earlier @ [char_of (of_char c + 1 :: nat)])
      else bump_last earlier)"

definition after_prefix :: "string \<Rightarrow> string \<Rightarrow> bytes" where
  "after_prefix b pfx =
     b @ [nul] @
       (if pfx = [] then [soh]
        else case bump_last (rev pfx) of Some s \<Rightarrow> s | None \<Rightarrow> pfx @ [soh])"

definition scan_start :: "list_objects_request \<Rightarrow> bytes" where
  "scan_start req =
     (case lq_cursor req of
        None \<Rightarrow> initial_scan_start (lq_bucket req) (lq_prefix req)
      | Some (AfterKey k) \<Rightarrow> after_key (lq_bucket req) k
      | Some (AfterPrefix p) \<Rightarrow> after_prefix (lq_bucket req) p)"

definition scan_end :: "list_objects_request \<Rightarrow> bytes" where
  "scan_end req = lq_bucket req @ [soh]"

subsection \<open>\<^verbatim>\<open>handle_get_latest_version\<close>\<close>

definition newer :: "manifest option \<Rightarrow> manifest \<Rightarrow> bool" where
  "newer latest m = (case latest of None \<Rightarrow> True | Some l \<Rightarrow> m_last_modified l < m_last_modified m)"

definition latest_step :: "string \<Rightarrow> string \<Rightarrow> manifest option \<Rightarrow> bytes \<times> manifest \<Rightarrow> manifest option" where
  "latest_step b k latest e =
     (let m = snd e
      in if m_state m \<noteq> Committed then latest
         else if mk_bucket (m_key m) \<noteq> b \<or> mk_key (m_key m) \<noteq> k then latest
         else if newer latest m then Some m else latest)"

definition handle_get_latest_version :: "db \<Rightarrow> string \<Rightarrow> string \<Rightarrow> meta_error + manifest option" where
  "handle_get_latest_version d b k =
     Inr (foldl (latest_step b k) None
           (tbl_range (objects d) (b @ [nul] @ k @ [nul]) (b @ [nul] @ k @ [soh])))"

subsection \<open>\<^verbatim>\<open>handle_list_objects\<close>\<close>

text \<open>The first loop: \<^verbatim>\<open>continue\<close> on uncommitted manifests, \<^verbatim>\<open>break\<close> at the first key without the prefix.\<close>

fun latest_scan :: "string \<Rightarrow> (bytes \<times> manifest) list \<Rightarrow> (string, manifest) table \<Rightarrow> (string, manifest) table" where
  "latest_scan pfx [] latest_by_key = latest_by_key"
| "latest_scan pfx ((kb, m) # rest) latest_by_key =
     (if m_state m \<noteq> Committed then latest_scan pfx rest latest_by_key
      else if \<not> prefix pfx (mk_key (m_key m)) then latest_by_key
      else latest_scan pfx rest
             (if newer (tbl_get latest_by_key (mk_key (m_key m))) m
              then tbl_insert latest_by_key (mk_key (m_key m)) m
              else latest_by_key))"

text \<open>\<^verbatim>\<open>str::find\<close>: the byte offset of the first occurrence.\<close>

fun find_sub :: "string \<Rightarrow> string \<Rightarrow> nat option" where
  "find_sub pat [] = (if pat = [] then Some 0 else None)"
| "find_sub pat (c # s) = (if prefix pat (c # s) then Some 0 else map_option Suc (find_sub pat s))"

definition cursor_of_item :: "list_item \<Rightarrow> list_cursor" where
  "cursor_of_item item =
     (case item of ItemObject m \<Rightarrow> AfterKey (mk_key (m_key m)) | ItemCommonPrefix p \<Rightarrow> AfterPrefix p)"

text \<open>The common prefix a key is grouped under, when a delimiter occurs after the request's prefix.\<close>

definition common_prefix_of :: "string \<Rightarrow> string option \<Rightarrow> string \<Rightarrow> string option" where
  "common_prefix_of pfx delimiter k =
     (case delimiter of
        None \<Rightarrow> None
      | Some delim \<Rightarrow>
          (case find_sub delim (drop (length pfx) k) of
             None \<Rightarrow> None
           | Some pos \<Rightarrow> Some (take (length pfx + pos + length delim) k)))"

text \<open>The second loop, over the latest manifest per key in key order.\<close>

fun page_loop ::
  "string \<Rightarrow> string option \<Rightarrow> nat \<Rightarrow> (string \<times> manifest) list \<Rightarrow> string option \<Rightarrow> list_item list \<Rightarrow> list_objects_page" where
  "page_loop pfx delimiter limit [] skip_prefix items =
     \<lparr>lp_items = items, lp_truncated = False, lp_next_cursor = None\<rparr>"
| "page_loop pfx delimiter limit ((k, m) # rest) skip_prefix items =
     (if m_kind m \<noteq> Object then page_loop pfx delimiter limit rest skip_prefix items
      else if (case skip_prefix of Some skip \<Rightarrow> prefix skip k | None \<Rightarrow> False)
      then page_loop pfx delimiter limit rest skip_prefix items
      else if limit \<le> length items
      then \<lparr>lp_items = items, lp_truncated = True,
            lp_next_cursor = (if items = [] then None else Some (cursor_of_item (last items)))\<rparr>
      else case common_prefix_of pfx delimiter k of
             Some cp \<Rightarrow> page_loop pfx delimiter limit rest (Some cp) (items @ [ItemCommonPrefix cp])
           | None \<Rightarrow> page_loop pfx delimiter limit rest None (items @ [ItemObject m]))"

definition latest_by_key :: "db \<Rightarrow> list_objects_request \<Rightarrow> (string, manifest) table" where
  "latest_by_key d req =
     latest_scan (lq_prefix req) (tbl_range (objects d) (scan_start req) (scan_end req)) []"

definition handle_list_objects :: "db \<Rightarrow> list_objects_request \<Rightarrow> meta_error + list_objects_page" where
  "handle_list_objects d req =
     Inr (page_loop (lq_prefix req) (lq_delimiter req) (lq_limit req)
            (tbl_iter (latest_by_key d req)) None [])"

subsection \<open>\<^verbatim>\<open>handle_list_object_versions\<close>\<close>

fun versions_scan ::
  "string \<Rightarrow> (bytes \<times> manifest) list \<Rightarrow> (string, manifest list) table \<Rightarrow> (string, manifest list) table" where
  "versions_scan pfx [] by_key = by_key"
| "versions_scan pfx ((kb, m) # rest) by_key =
     (if m_state m \<noteq> Committed then versions_scan pfx rest by_key
      else if \<not> prefix pfx (mk_key (m_key m)) then by_key
      else versions_scan pfx rest
             (tbl_insert by_key (mk_key (m_key m))
               ((case tbl_get by_key (mk_key (m_key m)) of None \<Rightarrow> [] | Some ms \<Rightarrow> ms) @ [m])))"

text \<open>\<^verbatim>\<open>versions.sort_by(|a, b| b.last_modified.cmp(&a.last_modified))\<close>, a stable sort.\<close>

definition newest_first :: "manifest list \<Rightarrow> manifest list" where
  "newest_first ms = sort_key (\<lambda>m. - m_last_modified m) ms"

text \<open>The inner loop; \<open>True\<close> says that it broke out with \<^verbatim>\<open>truncated\<close>.\<close>

fun emit_versions ::
  "nat \<Rightarrow> nat \<Rightarrow> manifest list \<Rightarrow> list_object_version_entry list \<Rightarrow> bool \<times> list_object_version_entry list" where
  "emit_versions limit idx [] entries = (False, entries)"
| "emit_versions limit idx (m # ms) entries =
     (if limit \<le> length entries then (True, entries)
      else emit_versions limit (Suc idx) ms
             (entries @ [\<lparr>ve_manifest = m, ve_is_latest = (idx = 0)\<rparr>]))"

fun emit_keys ::
  "nat \<Rightarrow> (string \<times> manifest list) list \<Rightarrow> list_object_version_entry list \<Rightarrow> bool \<times> list_object_version_entry list" where
  "emit_keys limit [] entries = (False, entries)"
| "emit_keys limit ((k, versions) # rest) entries =
     (case emit_versions limit 0 (newest_first versions) entries of
        (truncated, entries') \<Rightarrow> (if truncated then (True, entries') else emit_keys limit rest entries'))"

definition handle_list_object_versions ::
  "db \<Rightarrow> list_objects_request \<Rightarrow> meta_error + list_object_versions_page" where
  "handle_list_object_versions d req =
     (let by_key = versions_scan (lq_prefix req) (tbl_range (objects d) (scan_start req) (scan_end req)) [];
          (truncated, entries) = emit_keys (lq_limit req) (tbl_iter by_key) []
      in Inr \<lparr>vp_entries = entries, vp_truncated = truncated,
              vp_next_cursor =
                (if truncated \<and> entries \<noteq> []
                 then Some (AfterKey (mk_key (m_key (ve_manifest (last entries)))))
                 else None)\<rparr>)"

subsection \<open>\<^verbatim>\<open>handle_list_all_manifests_in_bucket\<close>\<close>

definition handle_list_all_manifests_in_bucket :: "db \<Rightarrow> string \<Rightarrow> meta_error + manifest list" where
  "handle_list_all_manifests_in_bucket d b =
     Inr (filter (\<lambda>m. mk_bucket (m_key m) = b)
           (map snd (tbl_range (objects d) (b @ [nul]) (b @ [soh]))))"

end
