(* ===== verification/Demo.thy ===== *)
theory Demo
  imports DbInv
begin

text \<open>
  Small concrete databases for the witnesses: a property with hypotheses is applied to one
  of them, so that the hypotheses are seen to hold somewhere.
\<close>

definition demo_part :: "nat \<Rightarrow> string \<Rightarrow> part_ref" where
  "demo_part n h = \<lparr>pr_part_number = n, pr_hash = h, pr_md5 = h, pr_size = 3\<rparr>"

definition demo_manifest :: "string \<Rightarrow> string \<Rightarrow> string \<Rightarrow> timestamp \<Rightarrow> part_ref list \<Rightarrow> manifest" where
  "demo_manifest b k v t ps =
     \<lparr>m_key = new_key b k v, m_state = Committed, m_kind = Object, m_upload_mode = SinglePut,
      m_parts = ps, m_size = sum_u64 (map pr_size ps), m_content_type = None, m_user_metadata = [],
      m_tags = [], m_additional_checksum = None, m_storage_class = ''STANDARD'',
      m_object_lock = None, m_created_at = t, m_last_modified = t, m_upload_id = None\<rparr>"

text \<open>A bucket \<open>b\<close> with three keys, two of them in a directory and sharing a part.\<close>

definition demo_objects :: "manifest list" where
  "demo_objects =
     [demo_manifest ''b'' ''a/1'' ''null'' 10 [demo_part 1 ''h''],
      demo_manifest ''b'' ''a/2'' ''null'' 20 [demo_part 1 ''h''],
      demo_manifest ''b'' ''c'' ''null'' 30 [demo_part 1 ''g'']]"

definition demo_db :: db where
  "demo_db =
     \<lparr>buckets = [(''b'', bucket_config_new 0 ''eu'')],
      objects = map (\<lambda>m. (encode (m_key m), m)) demo_objects,
      parts = [(''g'', \<lparr>pe_refcount = 1, pe_size = 3, pe_state = Live, pe_created_at = 0\<rparr>),
               (''h'', \<lparr>pe_refcount = 2, pe_size = 3, pe_state = Live, pe_created_at = 0\<rparr>)],
      server_meta = [], events_dlq = []\<rparr>"

lemmas demo_defs = demo_db_def demo_objects_def demo_manifest_def demo_part_def

lemma demo_ok: "db_ok demo_db"
  by (simp add: db_ok_def tbl_ok_def demo_defs encode_def less_char_def)

lemma demo_keys_ok: "keys_ok demo_db"
  by (auto simp: keys_ok_def tbl_get_def demo_defs nul_free_key_def split: if_splits)

lemma demo_refs_exact: "refs_exact demo_db"
  by (auto simp: refs_exact_def refs_def tbl_iter_def occurrences_def demo_defs count_of_def pending_def tbl_get_def)

end
