(* ===== verification/MetaStore.thy ===== *)
theory MetaStore
  imports Scan Demo
begin

text \<open>
  The metadata actor (\<^verbatim>\<open>actor.rs\<close>, \<^verbatim>\<open>run\<close>) and its facade (\<^verbatim>\<open>db/mod.rs\<close>): the messages, the
  replies, one transaction per message, the message loop.

  A call carries what the outside world decides: the storage error it runs into, if any,
  and the readings of the wall clock.  A \<^verbatim>\<open>redb\<close> write transaction that is not committed is
  dropped, so a call that fails leaves the database as it was.

  The second half is the invariant of the store over any sequence of messages.
\<close>

subsection \<open>Messages and replies\<close>

datatype op =
    CreateBucket string bucket_config
  | GetBucket string
  | DeleteBucket string
  | ListBuckets
  | PutManifest manifest
  | GetManifest manifest_key
  | DeleteManifest manifest_key
  | UpdateManifestState manifest_key manifest_state
  | AppendPart manifest_key part_ref
  | GetPart hash
  | MarkPartGcPending hash
  | RemovePart hash
  | ListGcPendingParts
  | ListObjects list_objects_request
  | CompleteMultipartUpload manifest_key manifest
  | GetLatestVersion string string
  | UpdateBucketVersioning string versioning_state
  | ListObjectVersions list_objects_request
  | UpdateBucketCors string "cors_rule list"
  | UpdateManifestTags manifest_key "(string, string) table"
  | UpdateBucketObjectLock string "object_lock_config option"
  | UpdateManifestLock manifest_key "object_lock option"
  | UpdateBucketLifecycle string "lifecycle_rule list"
  | ListAllManifestsInBucket string
  | ListOrphanParts
  | InsertDlqEntry bytes
  | ListDlq
  | Shutdown

datatype reply =
    Done
  | BucketReply "bucket_config option"
  | BucketsReply "(string \<times> bucket_config) list"
  | ManifestReply "manifest option"
  | ManifestsReply "manifest list"
  | FreedParts "hash list"               \<comment> \<open>\<^verbatim>\<open>DeletionEffect { freed_parts }\<close>\<close>
  | PartReply "part_entry option"
  | Marked bool
  | HashesReply "hash list"
  | PageReply list_objects_page
  | VersionsReply list_object_versions_page
  | SeqReply nat
  | DlqReply "(nat \<times> bytes) list"

subsection \<open>Transactions\<close>

record call_env =
  ce_fault :: "meta_error option"
  ce_now :: timestamp
  ce_now2 :: timestamp

definition write_tx ::
  "('a \<Rightarrow> reply) \<Rightarrow> call_env \<Rightarrow> db \<Rightarrow> meta_error + ('a \<times> db) \<Rightarrow> (meta_error + reply) \<times> db" where
  "write_tx wrap c d r =
     (case ce_fault c of
        Some e \<Rightarrow> (Inl e, d)
      | None \<Rightarrow> (case r of Inl e \<Rightarrow> (Inl e, d) | Inr (v, d') \<Rightarrow> (Inr (wrap v), d')))"

definition read_tx :: "('a \<Rightarrow> reply) \<Rightarrow> call_env \<Rightarrow> db \<Rightarrow> meta_error + 'a \<Rightarrow> (meta_error + reply) \<times> db" where
  "read_tx wrap c d r =
     (case ce_fault c of
        Some e \<Rightarrow> (Inl e, d)
      | None \<Rightarrow> (case r of Inl e \<Rightarrow> (Inl e, d) | Inr v \<Rightarrow> (Inr (wrap v), d)))"

text \<open>The \<^verbatim>\<open>match op\<close> of the message loop.\<close>

definition exec_op :: "crates \<Rightarrow> call_env \<Rightarrow> db \<Rightarrow> op \<Rightarrow> (meta_error + reply) \<times> db" where
  "exec_op X c d p =
     (case p of
        CreateBucket name config \<Rightarrow> write_tx (\<lambda>_. Done) c d (handle_create_bucket d name config)
      | GetBucket name \<Rightarrow> read_tx BucketReply c d (handle_get_bucket d name)
      | DeleteBucket name \<Rightarrow> write_tx (\<lambda>_. Done) c d (handle_delete_bucket d name)
      | ListBuckets \<Rightarrow> read_tx BucketsReply c d (handle_list_buckets d)
      | PutManifest m \<Rightarrow> write_tx FreedParts c d (handle_put_manifest X (ce_now c) d m)
      | GetManifest k \<Rightarrow> read_tx ManifestReply c d (handle_get_manifest d k)
      | DeleteManifest k \<Rightarrow> write_tx FreedParts c d (handle_delete_manifest d k)
      | UpdateManifestState k s \<Rightarrow> write_tx (\<lambda>_. Done) c d (handle_update_state (ce_now c) d k s)
      | AppendPart k part \<Rightarrow>
          write_tx FreedParts c d (handle_append_part X (ce_now c) (ce_now2 c) d k part)
      | GetPart h \<Rightarrow> read_tx PartReply c d (handle_get_part d h)
      | MarkPartGcPending h \<Rightarrow> write_tx Marked c d (handle_mark_gc_pending X d h)
      | RemovePart h \<Rightarrow> write_tx (\<lambda>_. Done) c d (handle_remove_part d h)
      | ListGcPendingParts \<Rightarrow> read_tx HashesReply c d (handle_list_gc_pending d)
      | ListObjects req \<Rightarrow> read_tx PageReply c d (handle_list_objects d req)
      | CompleteMultipartUpload ik new \<Rightarrow>
          write_tx FreedParts c d (handle_complete_multipart X (ce_now c) d ik new)
      | GetLatestVersion b k \<Rightarrow> read_tx ManifestReply c d (handle_get_latest_version d b k)
      | UpdateBucketVersioning name s \<Rightarrow> write_tx (\<lambda>_. Done) c d (handle_update_bucket_versioning d name s)
      | ListObjectVersions req \<Rightarrow> read_tx VersionsReply c d (handle_list_object_versions d req)
      | UpdateBucketCors name rules \<Rightarrow> write_tx (\<lambda>_. Done) c d (handle_update_bucket_cors d name rules)
      | UpdateManifestTags k tags \<Rightarrow> write_tx (\<lambda>_. Done) c d (handle_update_manifest_tags d k tags)
      | UpdateBucketObjectLock name cfg \<Rightarrow>
          write_tx (\<lambda>_. Done) c d (handle_update_bucket_object_lock d name cfg)
      | UpdateManifestLock k lock \<Rightarrow> write_tx (\<lambda>_. Done) c d (handle_update_manifest_lock d k lock)
      | UpdateBucketLifecycle name rules \<Rightarrow>
          write_tx (\<lambda>_. Done) c d (handle_update_bucket_lifecycle d name rules)
      | ListAllManifestsInBucket b \<Rightarrow> read_tx ManifestsReply c d (handle_list_all_manifests_in_bucket d b)
      | ListOrphanParts \<Rightarrow> read_tx HashesReply c d (handle_list_orphan_parts d)
      | InsertDlqEntry entry \<Rightarrow> write_tx SeqReply c d (handle_insert_dlq d entry)
      | ListDlq \<Rightarrow> read_tx DlqReply c d (handle_list_dlq d)
      | Shutdown \<Rightarrow> (Inl ActorDied, d))"

text \<open>
  \<^verbatim>\<open>MetaStore::open\<close> on a path: creating the file and bootstrapping the tables, or opening the
  existing ones; then the message loop.  After \<^verbatim>\<open>Shutdown\<close> the receiver is gone and every
  later \<^verbatim>\<open>dispatch\<close> reports \<^verbatim>\<open>ActorDied\<close>.
\<close>

definition open_store :: "meta_error option \<Rightarrow> db option \<Rightarrow> meta_error + db" where
  "open_store fault file =
     (case fault of
        Some e \<Rightarrow> Inl e
      | None \<Rightarrow> Inr (case file of None \<Rightarrow> bootstrap_tables | Some d \<Rightarrow> d))"

fun run :: "crates \<Rightarrow> db \<Rightarrow> (call_env \<times> op) list \<Rightarrow> (meta_error + reply) list \<times> db" where
  "run X d [] = ([], d)"
| "run X d ((c, p) # rest) =
     (if p = Shutdown then (map (\<lambda>_. Inl ActorDied) ((c, p) # rest), d)
      else case exec_op X c d p of
             (r, d') \<Rightarrow> (case run X d' rest of (rs, d'') \<Rightarrow> (r # rs, d'')))"

subsection \<open>Calls that only rewrite one manifest\<close>

text \<open>
  The three handlers that load a manifest, change a field and write it back.  What they
  share: the row must exist, and the new row keeps the key and the parts.
\<close>

locale row_rewrite =
  fixes step :: "db \<Rightarrow> manifest_key \<Rightarrow> meta_error + (unit \<times> db)"
    and change :: "manifest \<Rightarrow> manifest"
  assumes step_eq: "step d k =
      (case tbl_get (objects d) (encode k) of
         None \<Rightarrow> Inl (ManifestNotFound k)
       | Some m \<Rightarrow> Inr ((), d\<lparr>objects := tbl_insert (objects d) (encode k) (change m)\<rparr>))"
    and change_key: "m_key (change m) = m_key m"
    and change_parts: "m_parts (change m) = m_parts m"
begin

lemma step_cases:
  assumes "step d k = Inr (u, d')"
  obtains m where "tbl_get (objects d) (encode k) = Some m"
    "d' = d\<lparr>objects := tbl_insert (objects d) (encode k) (change m)\<rparr>"
  using assms by (auto simp: step_eq split: option.splits)

lemma step_refs:
  assumes "step d k = Inr (u, d')" and "db_ok d"
  shows "refs d' h = refs d h"
proof -
  obtain m where m: "tbl_get (objects d) (encode k) = Some m"
    and d': "d' = d\<lparr>objects := tbl_insert (objects d) (encode k) (change m)\<rparr>"
    by (rule step_cases [OF assms(1)])
  have "occurrences (change m) h = occurrences m h" by (simp add: occurrences_def change_parts)
  then show ?thesis
    using refs_insert [of d d' "encode k" "change m" h] assms(2) m by (simp add: db_ok_def d')
qed

lemma step_preserves:
  assumes "step d k = Inr (u, d')" and "db_ok d" and "refs_exact d" and "keys_ok d"
  shows "db_ok d'" "refs_exact d'" "keys_ok d'"
proof -
  obtain m where m: "tbl_get (objects d) (encode k) = Some m"
    and d': "d' = d\<lparr>objects := tbl_insert (objects d) (encode k) (change m)\<rparr>"
    by (rule step_cases [OF assms(1)])
  show "db_ok d'" using assms(2) by (simp add: db_ok_def d')
  have "parts d' = parts d" by (simp add: d')
  then show "refs_exact d'"
    using assms(3) step_refs [OF assms(1,2)] by (simp add: refs_exact_def)
  show "keys_ok d'" using assms(4) m by (auto simp: keys_ok_def d' change_key split: if_splits)
qed

end

interpretation rr_state: row_rewrite "\<lambda>d k. handle_update_state now d k s"
    "\<lambda>m. m\<lparr>m_state := s, m_last_modified := now\<rparr>" for now s
  by unfold_locales (simp_all add: handle_update_state_def split: option.split)

interpretation rr_tags: row_rewrite "\<lambda>d k. handle_update_manifest_tags d k tags" "\<lambda>m. m\<lparr>m_tags := tags\<rparr>" for tags
  by unfold_locales (simp_all add: handle_update_manifest_tags_def split: option.split)

interpretation rr_lock: row_rewrite "\<lambda>d k. handle_update_manifest_lock d k l" "\<lambda>m. m\<lparr>m_object_lock := l\<rparr>" for l
  by unfold_locales (simp_all add: handle_update_manifest_lock_def split: option.split)

subsection \<open>The store invariant\<close>

definition store_inv :: "db \<Rightarrow> bool" where
  "store_inv d \<longleftrightarrow> db_ok d \<and> keys_ok d \<and> refs_exact d"

text \<open>
  What a caller has to respect: NUL-free names in a new manifest, no count beyond \<^verbatim>\<open>u32\<close>, an
  upload row that is not the row of the object it becomes, and no removal of a part row
  that is still referenced (\<^verbatim>\<open>handle_remove_part\<close> itself does not look).
\<close>

definition op_ok :: "db \<Rightarrow> op \<Rightarrow> bool" where
  "op_ok d p =
     (case p of
        PutManifest m \<Rightarrow> nul_free_key (m_key m) \<and> room_for d (m_parts m)
      | AppendPart k part \<Rightarrow> room_for d [part]
      | CompleteMultipartUpload ik new \<Rightarrow>
          nul_free_key (m_key new) \<and> room_for d (m_parts new) \<and> encode ik \<noteq> encode (m_key new)
      | RemovePart h \<Rightarrow> refs d h = 0
      | _ \<Rightarrow> True)"

lemma write_tx_Inr: "write_tx wrap c d r = (Inr v, d') \<longleftrightarrow> ce_fault c = None \<and> (\<exists>x. r = Inr (x, d') \<and> v = wrap x)"
  by (auto simp: write_tx_def split: option.splits sum.splits prod.splits)

lemma write_tx_Inl: "write_tx wrap c d r = (Inl e, d') \<Longrightarrow> d' = d"
  by (auto simp: write_tx_def split: option.splits sum.splits prod.splits)

lemma read_tx_same: "read_tx wrap c d r = (v, d') \<Longrightarrow> d' = d"
  by (auto simp: read_tx_def split: option.splits sum.splits prod.splits)

text \<open>The calls that leave manifests and part rows alone.\<close>

lemma bucket_handlers_frame [frame_simps]:
  "handle_create_bucket d n cfg = Inr (u, d') \<Longrightarrow> objects d' = objects d \<and> parts d' = parts d \<and>
     events_dlq d' = events_dlq d \<and> (tbl_ok (buckets d) \<longrightarrow> tbl_ok (buckets d'))"
  "handle_delete_bucket d n = Inr (u, d') \<Longrightarrow> objects d' = objects d \<and> parts d' = parts d \<and>
     events_dlq d' = events_dlq d \<and> (tbl_ok (buckets d) \<longrightarrow> tbl_ok (buckets d'))"
  "handle_update_bucket_versioning d n s = Inr (u, d') \<Longrightarrow> objects d' = objects d \<and> parts d' = parts d \<and>
     events_dlq d' = events_dlq d \<and> (tbl_ok (buckets d) \<longrightarrow> tbl_ok (buckets d'))"
  "handle_update_bucket_cors d n rules = Inr (u, d') \<Longrightarrow> objects d' = objects d \<and> parts d' = parts d \<and>
     events_dlq d' = events_dlq d \<and> (tbl_ok (buckets d) \<longrightarrow> tbl_ok (buckets d'))"
  "handle_update_bucket_object_lock d n ol = Inr (u, d') \<Longrightarrow> objects d' = objects d \<and> parts d' = parts d \<and>
     events_dlq d' = events_dlq d \<and> (tbl_ok (buckets d) \<longrightarrow> tbl_ok (buckets d'))"
  "handle_update_bucket_lifecycle d n lc = Inr (u, d') \<Longrightarrow> objects d' = objects d \<and> parts d' = parts d \<and>
     events_dlq d' = events_dlq d \<and> (tbl_ok (buckets d) \<longrightarrow> tbl_ok (buckets d'))"
  by (auto simp: handle_create_bucket_def handle_delete_bucket_def handle_update_bucket_versioning_def
      handle_update_bucket_cors_def handle_update_bucket_object_lock_def handle_update_bucket_lifecycle_def
      split: if_splits option.splits)

lemma insert_dlq_frame [frame_simps]:
  "handle_insert_dlq d e = Inr (n, d') \<Longrightarrow> objects d' = objects d \<and> parts d' = parts d \<and>
     buckets d' = buckets d \<and> (tbl_ok (events_dlq d) \<longrightarrow> tbl_ok (events_dlq d'))"
  by (auto simp: handle_insert_dlq_def Let_def)

lemma store_inv_frame:
  assumes "store_inv d" and "objects d' = objects d" and "parts d' = parts d"
    and "tbl_ok (buckets d')" and "tbl_ok (events_dlq d')"
  shows "store_inv d'"
  using assms refs_cong [of d' d] by (auto simp: store_inv_def db_ok_def keys_ok_def refs_exact_def)

lemma store_inv_D: "store_inv d \<Longrightarrow> db_ok d" "store_inv d \<Longrightarrow> keys_ok d" "store_inv d \<Longrightarrow> refs_exact d"
    "store_inv d \<Longrightarrow> tbl_ok (buckets d)" "store_inv d \<Longrightarrow> tbl_ok (events_dlq d)"
  by (simp_all add: store_inv_def db_ok_def)

text \<open>A manifest is always stored under its own key.\<close>

lemma keys_ok_insert:
  "keys_ok d \<Longrightarrow> nul_free_key (m_key m) \<Longrightarrow> objects d' = tbl_insert (objects d) (encode (m_key m)) m \<Longrightarrow> keys_ok d'"
  by (auto simp: keys_ok_def split: if_splits)

lemma keys_ok_remove: "keys_ok d \<Longrightarrow> objects d' = tbl_remove (objects d) kb \<Longrightarrow> keys_ok d'"
  by (auto simp: keys_ok_def split: if_splits)

lemma delete_manifest_objects:
  "handle_delete_manifest d k = Inr (freed, d') \<Longrightarrow> objects d' = tbl_remove (objects d) (encode k)"
  by (auto simp: handle_delete_manifest_def Let_def split: option.splits prod.splits)

lemma append_part_keys:
  assumes "handle_append_part X now now2 d k part = Inr (freed, d')" and keys: "keys_ok d"
  shows "keys_ok d'"
proof -
  obtain m ps sz where m: "tbl_get (objects d) (encode k) = Some m"
    and o': "objects d' = tbl_insert (objects d) (encode k) (m\<lparr>m_parts := ps, m_size := sz, m_last_modified := now2\<rparr>)"
    by (rule append_part_cases [OF assms(1)])
  have "encode k = encode (m_key m)" "nul_free_key (m_key m)"
    using keys m by (auto simp: keys_ok_def)
  then show ?thesis
    using keys_ok_insert [OF keys, of "m\<lparr>m_parts := ps, m_size := sz, m_last_modified := now2\<rparr>" d'] o' by simp
qed

lemma complete_multipart_keys:
  assumes "handle_complete_multipart X now d ik new = Inr (freed, d')" and "keys_ok d" and "nul_free_key (m_key new)"
  shows "keys_ok d'"
proof -
  have "objects d' = tbl_remove (tbl_insert (objects d) (encode (m_key new)) new) (encode ik)"
    by (rule complete_multipart_cases [OF assms(1)])
  moreover have "keys_ok (d\<lparr>objects := tbl_insert (objects d) (encode (m_key new)) new\<rparr>)"
    by (rule keys_ok_insert [OF assms(2,3)]) simp
  ultimately show ?thesis by (auto intro: keys_ok_remove)
qed

text \<open>The four calls that report a deletion effect.\<close>

lemma effect_call:
  assumes inv: "store_inv d" and ok: "op_ok d p" and call: "exec_op X c d p = (Inr (FreedParts hs), d')"
  shows "exact_effect d hs d' \<and> keys_ok d'"
proof -
  note inv' = store_inv_D [OF inv]
  note pre = inv'(1) inv'(3)
  show ?thesis
  proof (cases p)
    case (PutManifest m)
    then have h: "handle_put_manifest X (ce_now c) d m = Inr (hs, d')"
      using call by (simp add: exec_op_def write_tx_Inr)
    have "objects d' = tbl_insert (objects d) (encode (m_key m)) m"
      using h by (auto elim: put_manifest_cases)
    then have "keys_ok d'" using keys_ok_insert [OF inv'(2)] ok PutManifest by (auto simp: op_ok_def)
    then show ?thesis
      using put_manifest_preserves [OF h pre] ok PutManifest by (simp add: op_ok_def)
  next
    case (DeleteManifest k)
    then have h: "handle_delete_manifest d k = Inr (hs, d')"
      using call by (simp add: exec_op_def write_tx_Inr)
    then show ?thesis
      using delete_manifest_preserves [OF h pre] keys_ok_remove [OF inv'(2) delete_manifest_objects] by blast
  next
    case (AppendPart k part)
    then have h: "handle_append_part X (ce_now c) (ce_now2 c) d k part = Inr (hs, d')"
      using call by (simp add: exec_op_def write_tx_Inr)
    then show ?thesis
      using append_part_preserves [OF h pre] append_part_keys [OF h inv'(2)] ok AppendPart by (simp add: op_ok_def)
  next
    case (CompleteMultipartUpload ik new)
    then have h: "handle_complete_multipart X (ce_now c) d ik new = Inr (hs, d')"
      using call by (simp add: exec_op_def write_tx_Inr)
    then show ?thesis
      using complete_multipart_preserves [OF h pre] complete_multipart_keys [OF h inv'(2)]
        ok CompleteMultipartUpload by (simp add: op_ok_def)
  qed (use call in \<open>auto simp: exec_op_def write_tx_Inr read_tx_def split: option.splits sum.splits\<close>)
qed

lemma rewrite_call:
  assumes inv: "store_inv d" and call: "exec_op X c d p = (Inr r, d')"
    and p: "p = UpdateManifestState k s \<or> p = UpdateManifestTags k tags \<or> p = UpdateManifestLock k l"
  shows "store_inv d'"
proof -
  note pre = store_inv_D(1,3,2) [OF inv]
  from p show ?thesis
  proof (elim disjE)
    assume "p = UpdateManifestState k s"
    then show ?thesis
      using call rr_state.step_preserves [OF _ pre] by (auto simp: exec_op_def write_tx_Inr store_inv_def)
  next
    assume "p = UpdateManifestTags k tags"
    then show ?thesis
      using call rr_tags.step_preserves [OF _ pre] by (auto simp: exec_op_def write_tx_Inr store_inv_def)
  next
    assume "p = UpdateManifestLock k l"
    then show ?thesis
      using call rr_lock.step_preserves [OF _ pre] by (auto simp: exec_op_def write_tx_Inr store_inv_def)
  qed
qed

text \<open>A call that fails changes nothing; neither does a read.\<close>

lemma exec_op_error: "exec_op X c d p = (Inl e, d') \<Longrightarrow> d' = d"
  by (cases p) (auto simp: exec_op_def dest: write_tx_Inl read_tx_same)

lemma exec_op_inv:
  assumes inv: "store_inv d" and ok: "op_ok d p" and call: "exec_op X c d p = (r, d')"
  shows "store_inv d'"
proof (cases r)
  case (Inl e)
  then show ?thesis using exec_op_error call inv by blast
next
  case (Inr v)
  note inv' = store_inv_D [OF inv]
  note call' = call [unfolded Inr]
  have effect: "store_inv d'" if "v = FreedParts hs" for hs
    using effect_call [OF inv ok call' [unfolded that]] by (simp add: store_inv_def exact_effect_def)
  have frame: "store_inv d'" if "objects d' = objects d \<and> parts d' = parts d \<and>
      tbl_ok (buckets d') \<and> tbl_ok (events_dlq d')"
    using that store_inv_frame [OF inv] by blast
  show ?thesis
  proof (cases p)
    case (MarkPartGcPending h)
    then show ?thesis
      using call' mark_gc_pending_preserves [OF _ inv'(1,3)] inv'(2)
      by (fastforce simp: exec_op_def write_tx_Inr store_inv_def keys_ok_def)
  next
    case (RemovePart h)
    then show ?thesis
      using call' remove_part_preserves [OF _ inv'(1,3)] inv'(2) ok
      by (fastforce simp: exec_op_def write_tx_Inr store_inv_def keys_ok_def op_ok_def)
  next
    case (UpdateManifestState k s)
    then show ?thesis using rewrite_call [OF inv call'] by blast
  next
    case (UpdateManifestTags k tags)
    then show ?thesis using rewrite_call [OF inv call'] by blast
  next
    case (UpdateManifestLock k l)
    then show ?thesis using rewrite_call [OF inv call'] by blast
  qed (use call' effect frame inv inv'(4,5) in
      \<open>auto simp: exec_op_def write_tx_Inr dest: read_tx_same dest!: frame_simps\<close>)
qed

subsection \<open>Reachable stores\<close>

inductive store_reach :: "crates \<Rightarrow> db \<Rightarrow> bool" for X where
  store_init: "store_reach X bootstrap_tables"
| store_step: "store_reach X d \<Longrightarrow> op_ok d p \<Longrightarrow> exec_op X c d p = (r, d') \<Longrightarrow> store_reach X d'"

lemma store_reach_inv: "store_reach X d \<Longrightarrow> store_inv d"
proof (induction rule: store_reach.induct)
  case store_init
  show ?case by (simp add: store_inv_def bootstrap_ok)
qed (rule exec_op_inv)

lemma run_reach:
  "store_reach X d \<Longrightarrow> \<forall>d. \<forall>(c, p)\<in>set calls. op_ok d p \<Longrightarrow> store_reach X (snd (run X d calls))"
proof (induction X d calls rule: run.induct)
  case (2 X d c p rest)
  show ?case
  proof (cases "p = Shutdown")
    case False
    have "store_reach X (snd (exec_op X c d p))"
      using 2(2,3) by (auto intro: store_step [of X d p c "fst (exec_op X c d p)"])
    then show ?thesis
      using 2(1) [OF False, of "fst (exec_op X c d p)" "snd (exec_op X c d p)"] 2(3) False
      by (simp add: case_prod_beta)
  qed (use 2 in simp)
qed simp

subsection \<open>Properties\<close>

text \<open>
  C6.  Whatever calls the actor has executed, the count of every part row is the number of
  references from all manifests, a part marked for collection is referenced by none, every
  manifest lies under its own key, and all tables are sorted.
\<close>

theorem reachable_store_consistent:
  assumes "store_reach X d"
  shows "(\<forall>h e. tbl_get (parts d) h = Some e \<longrightarrow> pe_refcount e = refs d h) \<and>
    (\<forall>kb m. tbl_get (objects d) kb = Some m \<longrightarrow> kb = encode (m_key m) \<and>
      (\<forall>h\<in>part_hashes m. \<exists>e. tbl_get (parts d) h = Some e \<and> 0 < pe_refcount e \<and> pe_state e = Live))"
proof -
  note inv = store_inv_D [OF store_reach_inv [OF assms]]
  have cnt: "pe_refcount e = refs d h" if "tbl_get (parts d) h = Some e" for h e
    using refs_exact_count [OF inv(3), of h] that by (simp add: count_of_def)
  have "\<exists>e. tbl_get (parts d) h = Some e \<and> 0 < pe_refcount e \<and> pe_state e = Live"
    if m: "tbl_get (objects d) kb = Some m" "h \<in> part_hashes m" for kb m h
  proof -
    have pos: "0 < refs d h"
      using refs_0_iff [of d h] inv(1) m by (auto simp: db_ok_def)
    then have "\<not> pending (parts d) h" using refs_exact_pending [OF inv(3)] by fastforce
    moreover obtain e where "tbl_get (parts d) h = Some e"
      using pos refs_exact_count [OF inv(3), of h] by (auto simp: count_of_def split: option.splits)
    ultimately show ?thesis
      using pos cnt by (cases "pe_state e") (auto simp: pending_def)
  qed
  then show ?thesis using cnt inv(2) by (auto simp: keys_ok_def)
qed

definition demo_call :: call_env where
  "demo_call = \<lparr>ce_fault = None, ce_now = 0, ce_now2 = 0\<rparr>"

definition demo_put :: db where
  "demo_put = bootstrap_tables\<lparr>
     objects := [(encode (m_key (hd demo_objects)), hd demo_objects)],
     parts := [(''h'', \<lparr>pe_refcount = 1, pe_size = 3, pe_state = Live, pe_created_at = 0\<rparr>)]\<rparr>"

lemmas exec_eval = exec_op_def write_tx_def demo_call_def demo_put_def bootstrap_tables_def demo_defs
  handle_put_manifest_def handle_delete_manifest_def inc_all_def dec_all_def inc_part_refcount_def
  dec_part_refcount_def Let_def saturating_add32_def tbl_get_def tbl_remove_def

lemma demo_put_call: "exec_op X demo_call bootstrap_tables (PutManifest (hd demo_objects)) = (Inr (FreedParts []), demo_put)"
  by (simp add: exec_eval)

lemma demo_put_ok: "op_ok bootstrap_tables (PutManifest (hd demo_objects))"
proof -
  have "refs bootstrap_tables h + count_list (map pr_hash (m_parts (hd demo_objects))) h \<le> 1" for h
    by (simp add: bootstrap_tables_def demo_defs refs_def tbl_iter_def)
  then have "refs bootstrap_tables h + count_list (map pr_hash (m_parts (hd demo_objects))) h \<le> u32_max" for h
    by (rule order.trans) simp
  moreover have "nul_free_key (m_key (hd demo_objects))" by (simp add: demo_defs nul_free_key_def)
  ultimately show ?thesis by (simp add: op_ok_def room_for_def)
qed

lemma demo_reach: "store_reach X demo_put"
  by (rule store_step [OF store_init demo_put_ok demo_put_call])

theorem reachable_store_consistent_witness:
  "\<exists>e. tbl_get (parts demo_put) ''h'' = Some e \<and> pe_refcount e = refs demo_put ''h''"
proof -
  have "tbl_get (parts demo_put) ''h'' =
      Some \<lparr>pe_refcount = 1, pe_size = 3, pe_state = Live, pe_created_at = 0\<rparr>"
    by (simp add: demo_put_def tbl_get_def)
  then show ?thesis
    using reachable_store_consistent [OF demo_reach [of toy_crates], THEN conjunct1] by blast
qed

text \<open>
  C11.  A call that reports a deletion effect reports exactly the parts that lost their
  last reference in this call, each once: nothing still referenced is handed to the
  collector and nothing that became garbage is forgotten.
\<close>

theorem freed_parts_exact:
  assumes "store_reach X d" and "op_ok d p" and "exec_op X c d p = (Inr (FreedParts hs), d')"
  shows "distinct hs \<and> (\<forall>h. h \<in> set hs \<longleftrightarrow> 0 < refs d h \<and> refs d' h = 0)"
  using effect_call [OF store_reach_inv [OF assms(1)] assms(2,3)]
  by (auto simp: exact_effect_def lost_refs_def)

theorem freed_parts_exact_witness:
  "\<exists>hs d'. exec_op toy_crates demo_call demo_put (DeleteManifest (m_key (hd demo_objects))) = (Inr (FreedParts hs), d') \<and>
     hs = [''h''] \<and> 0 < refs demo_put ''h'' \<and> refs d' ''h'' = 0"
proof -
  have call: "exec_op toy_crates demo_call demo_put (DeleteManifest (m_key (hd demo_objects))) =
      (Inr (FreedParts [''h'']), bootstrap_tables\<lparr>parts :=
         [(''h'', \<lparr>pe_refcount = 0, pe_size = 3, pe_state = Live, pe_created_at = 0\<rparr>)]\<rparr>)"
    by (simp add: exec_eval)
  have "op_ok demo_put (DeleteManifest (m_key (hd demo_objects)))" by (simp add: op_ok_def)
  from freed_parts_exact [OF demo_reach this call] show ?thesis
    unfolding call by (metis list.set_intros(1) Pair_inject)
qed

end
