(* ===== verification/World.thy ===== *)
theory World
  imports MetaStore
begin

text \<open>
  What a request handler runs in: the state the server keeps, the answers of the outside
  world, and the control flow of \<^verbatim>\<open>async\<close> Rust code that returns \<^verbatim>\<open>Result\<close>.

  A handler is an action: a function from a world to an outcome and a world.  The outcome is
  \<open>Ok\<close>, \<open>Err\<close> or \<open>Panic\<close>; \<open>bnd\<close> is \<^verbatim>\<open>?\<close> followed by the rest of the function.  Every
  question to the outside (a storage call, a file operation, a clock reading, a fresh
  UUID) is numbered by \<^verbatim>\<open>w_tick\<close>, and the environment answers it by its number: so every
  pattern of storage failures, I/O failures and clock values is covered.
\<close>

subsection \<open>Outcomes and actions\<close>

datatype ('e, 'a) outcome = Ok 'a | Err 'e | Panic

datatype event_type =
    ObjectCreatedPut
  | ObjectCreatedPost
  | ObjectCreatedCopy
  | ObjectCreatedCompleteMultipartUpload
  | ObjectRemovedDelete
  | ObjectRemovedDeleteMarkerCreated

record object_event =
  oe_type :: event_type
  oe_bucket :: string
  oe_key :: string
  oe_size :: nat
  oe_etag :: string
  oe_version_id :: "string option"

text \<open>
  The server's state: the metadata database, the part files by content hash, the events
  handed to \<^verbatim>\<open>emit\<close> of \<^verbatim>\<open>s3/events.rs\<close>, and the counter of outside calls.
\<close>

record world =
  w_db :: db
  w_blobs :: "hash \<Rightarrow> bytes option"
  w_events :: "object_event list"
  w_tick :: nat

type_synonym ('e, 'a) action = "world \<Rightarrow> ('e, 'a) outcome \<times> world"

datatype io_fault = FailBefore string | FailAfter string

record env =
  e_crates :: crates
  e_meta_text :: "meta_error \<Rightarrow> string"     \<comment> \<open>the \<^verbatim>\<open>Display\<close> text that \<^verbatim>\<open>thiserror\<close> derives\<close>
  e_cursor_bytes :: "list_cursor \<Rightarrow> string + bytes"   \<comment> \<open>\<^verbatim>\<open>bincode\<close>: an error text or the bytes\<close>
  e_cursor_of_bytes :: "bytes \<Rightarrow> list_cursor option"
  e_meta_fault :: "nat \<Rightarrow> meta_error option"
  e_io_fault :: "nat \<Rightarrow> io_fault option"
  e_clock :: "nat \<Rightarrow> timestamp"
  e_uuid :: "nat \<Rightarrow> string"

definition ret :: "'a \<Rightarrow> ('e, 'a) action" where
  "ret a w = (Ok a, w)"

definition fail :: "'e \<Rightarrow> ('e, 'a) action" where
  "fail e w = (Err e, w)"

definition panic :: "('e, 'a) action" where
  "panic w = (Panic, w)"

definition bnd :: "('e, 'a) action \<Rightarrow> ('a \<Rightarrow> ('e, 'b) action) \<Rightarrow> ('e, 'b) action" where
  "bnd m f w =
     (case m w of
        (Ok a, w') \<Rightarrow> f a w'
      | (Err e, w') \<Rightarrow> (Err e, w')
      | (Panic, w') \<Rightarrow> (Panic, w'))"

text \<open>\<^verbatim>\<open>match m { Ok(..) => .., Err(..) => .. }\<close>\<close>

definition catch :: "('e, 'a) action \<Rightarrow> ('e + 'a \<Rightarrow> ('f, 'b) action) \<Rightarrow> ('f, 'b) action" where
  "catch m f w =
     (case m w of
        (Ok a, w') \<Rightarrow> f (Inr a) w'
      | (Err e, w') \<Rightarrow> f (Inl e) w'
      | (Panic, w') \<Rightarrow> (Panic, w'))"

text \<open>\<^verbatim>\<open>m.map_err(f)?\<close>\<close>

definition map_err :: "('e \<Rightarrow> 'f) \<Rightarrow> ('e, 'a) action \<Rightarrow> ('f, 'a) action" where
  "map_err f m = catch m (\<lambda>r. case r of Inl e \<Rightarrow> fail (f e) | Inr a \<Rightarrow> ret a)"

text \<open>A pure fallible function, an optional value with \<^verbatim>\<open>ok_or\<close>, an assertion.\<close>

definition lift :: "'e + 'a \<Rightarrow> ('e, 'a) action" where
  "lift r = (case r of Inl e \<Rightarrow> fail e | Inr a \<Rightarrow> ret a)"

definition ok_or :: "'a option \<Rightarrow> 'e \<Rightarrow> ('e, 'a) action" where
  "ok_or v e = (case v of None \<Rightarrow> fail e | Some a \<Rightarrow> ret a)"

definition unwrap :: "'a option \<Rightarrow> ('e, 'a) action" where
  "unwrap v = (case v of None \<Rightarrow> panic | Some a \<Rightarrow> ret a)"

definition fail_if :: "bool \<Rightarrow> 'e \<Rightarrow> ('e, unit) action" where
  "fail_if b e = (if b then fail e else ret ())"

text \<open>\<^verbatim>\<open>for x in xs { s = f(x, s)?; }\<close>\<close>

fun for_each :: "('x \<Rightarrow> 's \<Rightarrow> ('e, 's) action) \<Rightarrow> 'x list \<Rightarrow> 's \<Rightarrow> ('e, 's) action" where
  "for_each f [] s = ret s"
| "for_each f (x # xs) s = bnd (f x s) (for_each f xs)"

lemma bnd_ret [simp]: "bnd (ret a) f = f a"
  by (simp add: bnd_def ret_def fun_eq_iff)

lemma bnd_fail [simp]: "bnd (fail e) f = fail e"
  by (simp add: bnd_def fail_def fun_eq_iff)

lemma bnd_panic [simp]: "bnd panic f = panic"
  by (simp add: bnd_def panic_def fun_eq_iff)

lemma bnd_assoc: "bnd (bnd m f) g = bnd m (\<lambda>a. bnd (f a) g)"
  by (simp add: bnd_def fun_eq_iff split: prod.split outcome.split)

lemma lift_simps [simp]: "lift (Inl e) = fail e" "lift (Inr a) = ret a"
  by (simp_all add: lift_def)

lemma ok_or_simps [simp]: "ok_or None e = fail e" "ok_or (Some a) e = ret a"
  by (simp_all add: ok_or_def)

lemma unwrap_simps [simp]: "unwrap None = panic" "unwrap (Some a) = ret a"
  by (simp_all add: unwrap_def)

lemma fail_if_simps [simp]: "fail_if True e = fail e" "fail_if False e = ret ()"
  by (simp_all add: fail_if_def)

text \<open>The call of \<^verbatim>\<open>emit(&state, event)\<close>, which only hands the event over.\<close>

definition emit :: "object_event \<Rightarrow> ('e, unit) action" where
  "emit ev w = (Ok (), w\<lparr>w_events := w_events w @ [ev]\<rparr>)"

subsection \<open>Clock and identifiers\<close>

definition tick :: "world \<Rightarrow> world" where
  "tick w = w\<lparr>w_tick := Suc (w_tick w)\<rparr>"

definition now_utc :: "env \<Rightarrow> ('e, timestamp) action" where
  "now_utc E w = (Ok (e_clock E (w_tick w)), tick w)"

text \<open>\<^verbatim>\<open>Uuid::new_v4().simple().to_string()\<close>\<close>

definition new_uuid :: "env \<Rightarrow> ('e, string) action" where
  "new_uuid E w = (Ok (e_uuid E (w_tick w)), tick w)"

text \<open>
  \<^verbatim>\<open>OffsetDateTime + Duration\<close> and \<^verbatim>\<open>-\<close>: the crate panics when the result leaves the years
  -9999 to 9999 (in nanoseconds since the epoch).
\<close>

definition ns_per_day :: int where
  "ns_per_day = 86400000000000"

definition datetime_ok :: "int \<Rightarrow> bool" where
  "datetime_ok t \<longleftrightarrow> -377705116800000000000 \<le> t \<and> t \<le> 253402300799999999999"

definition add_days :: "timestamp \<Rightarrow> int \<Rightarrow> timestamp option" where
  "add_days t days = (let t' = t + days * ns_per_day in if datetime_ok t' then Some t' else None)"

subsection \<open>The metadata store, as the handlers call it (\<^verbatim>\<open>db/mod.rs\<close>)\<close>

definition meta_call :: "env \<Rightarrow> op \<Rightarrow> (meta_error, reply) action" where
  "meta_call E p w =
     (case exec_op (e_crates E)
             \<lparr>ce_fault = e_meta_fault E (w_tick w), ce_now = e_clock E (w_tick w),
              ce_now2 = e_clock E (w_tick w)\<rparr> (w_db w) p of
        (r, d') \<Rightarrow> (case r of Inl e \<Rightarrow> Err e | Inr v \<Rightarrow> Ok v, (tick w)\<lparr>w_db := d'\<rparr>))"

definition reply_as :: "(reply \<Rightarrow> 'a) \<Rightarrow> (meta_error, reply) action \<Rightarrow> (meta_error, 'a) action" where
  "reply_as f m = bnd m (\<lambda>r. ret (f r))"

definition bucket_of :: "reply \<Rightarrow> bucket_config option" where
  "bucket_of r = (case r of BucketReply b \<Rightarrow> b | _ \<Rightarrow> None)"

definition buckets_of :: "reply \<Rightarrow> (string \<times> bucket_config) list" where
  "buckets_of r = (case r of BucketsReply bs \<Rightarrow> bs | _ \<Rightarrow> [])"

definition manifest_of :: "reply \<Rightarrow> manifest option" where
  "manifest_of r = (case r of ManifestReply m \<Rightarrow> m | _ \<Rightarrow> None)"

definition manifests_of :: "reply \<Rightarrow> manifest list" where
  "manifests_of r = (case r of ManifestsReply ms \<Rightarrow> ms | _ \<Rightarrow> [])"

definition freed_of :: "reply \<Rightarrow> hash list" where
  "freed_of r = (case r of FreedParts hs \<Rightarrow> hs | _ \<Rightarrow> [])"

definition marked_of :: "reply \<Rightarrow> bool" where
  "marked_of r = (case r of Marked b \<Rightarrow> b | _ \<Rightarrow> False)"

definition hashes_of :: "reply \<Rightarrow> hash list" where
  "hashes_of r = (case r of HashesReply hs \<Rightarrow> hs | _ \<Rightarrow> [])"

definition page_reply :: "reply \<Rightarrow> list_objects_page" where
  "page_reply r = (case r of PageReply p \<Rightarrow> p | _ \<Rightarrow> \<lparr>lp_items = [], lp_truncated = False, lp_next_cursor = None\<rparr>)"

definition versions_reply :: "reply \<Rightarrow> list_object_versions_page" where
  "versions_reply r =
     (case r of VersionsReply p \<Rightarrow> p | _ \<Rightarrow> \<lparr>vp_entries = [], vp_truncated = False, vp_next_cursor = None\<rparr>)"

definition create_bucket :: "env \<Rightarrow> string \<Rightarrow> bucket_config \<Rightarrow> (meta_error, unit) action" where
  "create_bucket E name cfg = reply_as (\<lambda>_. ()) (meta_call E (CreateBucket name cfg))"

definition get_bucket :: "env \<Rightarrow> string \<Rightarrow> (meta_error, bucket_config option) action" where
  "get_bucket E name = reply_as bucket_of (meta_call E (GetBucket name))"

definition delete_bucket :: "env \<Rightarrow> string \<Rightarrow> (meta_error, unit) action" where
  "delete_bucket E name = reply_as (\<lambda>_. ()) (meta_call E (DeleteBucket name))"

definition list_buckets :: "env \<Rightarrow> (meta_error, (string \<times> bucket_config) list) action" where
  "list_buckets E = reply_as buckets_of (meta_call E ListBuckets)"

definition put_manifest :: "env \<Rightarrow> manifest \<Rightarrow> (meta_error, hash list) action" where
  "put_manifest E m = reply_as freed_of (meta_call E (PutManifest m))"

definition get_manifest :: "env \<Rightarrow> manifest_key \<Rightarrow> (meta_error, manifest option) action" where
  "get_manifest E k = reply_as manifest_of (meta_call E (GetManifest k))"

definition delete_manifest :: "env \<Rightarrow> manifest_key \<Rightarrow> (meta_error, hash list) action" where
  "delete_manifest E k = reply_as freed_of (meta_call E (DeleteManifest k))"

definition append_part :: "env \<Rightarrow> manifest_key \<Rightarrow> part_ref \<Rightarrow> (meta_error, hash list) action" where
  "append_part E k part = reply_as freed_of (meta_call E (AppendPart k part))"

definition mark_part_gc_pending :: "env \<Rightarrow> hash \<Rightarrow> (meta_error, bool) action" where
  "mark_part_gc_pending E h = reply_as marked_of (meta_call E (MarkPartGcPending h))"

definition remove_part :: "env \<Rightarrow> hash \<Rightarrow> (meta_error, unit) action" where
  "remove_part E h = reply_as (\<lambda>_. ()) (meta_call E (RemovePart h))"

definition complete_multipart_upload_row :: "env \<Rightarrow> manifest_key \<Rightarrow> manifest \<Rightarrow> (meta_error, hash list) action" where
  "complete_multipart_upload_row E ik new = reply_as freed_of (meta_call E (CompleteMultipartUpload ik new))"

definition get_latest_version :: "env \<Rightarrow> string \<Rightarrow> string \<Rightarrow> (meta_error, manifest option) action" where
  "get_latest_version E b k = reply_as manifest_of (meta_call E (GetLatestVersion b k))"

definition update_bucket_versioning :: "env \<Rightarrow> string \<Rightarrow> versioning_state \<Rightarrow> (meta_error, unit) action" where
  "update_bucket_versioning E name s = reply_as (\<lambda>_. ()) (meta_call E (UpdateBucketVersioning name s))"

definition update_bucket_object_lock :: "env \<Rightarrow> string \<Rightarrow> object_lock_config option \<Rightarrow> (meta_error, unit) action" where
  "update_bucket_object_lock E name cfg = reply_as (\<lambda>_. ()) (meta_call E (UpdateBucketObjectLock name cfg))"

definition update_bucket_lifecycle :: "env \<Rightarrow> string \<Rightarrow> lifecycle_rule list \<Rightarrow> (meta_error, unit) action" where
  "update_bucket_lifecycle E name rules = reply_as (\<lambda>_. ()) (meta_call E (UpdateBucketLifecycle name rules))"

definition update_manifest_lock :: "env \<Rightarrow> manifest_key \<Rightarrow> object_lock option \<Rightarrow> (meta_error, unit) action" where
  "update_manifest_lock E k l = reply_as (\<lambda>_. ()) (meta_call E (UpdateManifestLock k l))"

definition update_manifest_tags :: "env \<Rightarrow> manifest_key \<Rightarrow> (string, string) table \<Rightarrow> (meta_error, unit) action" where
  "update_manifest_tags E k tags = reply_as (\<lambda>_. ()) (meta_call E (UpdateManifestTags k tags))"

definition list_all_manifests_in_bucket :: "env \<Rightarrow> string \<Rightarrow> (meta_error, manifest list) action" where
  "list_all_manifests_in_bucket E b = reply_as manifests_of (meta_call E (ListAllManifestsInBucket b))"

definition list_orphan_parts :: "env \<Rightarrow> (meta_error, hash list) action" where
  "list_orphan_parts E = reply_as hashes_of (meta_call E ListOrphanParts)"

definition update_bucket_cors :: "env \<Rightarrow> string \<Rightarrow> cors_rule list \<Rightarrow> (meta_error, unit) action" where
  "update_bucket_cors E name rules = reply_as (\<lambda>_. ()) (meta_call E (UpdateBucketCors name rules))"

definition seq_of :: "reply \<Rightarrow> nat" where
  "seq_of r = (case r of SeqReply n \<Rightarrow> n | _ \<Rightarrow> 0)"

definition dlq_of :: "reply \<Rightarrow> (nat \<times> bytes) list" where
  "dlq_of r = (case r of DlqReply es \<Rightarrow> es | _ \<Rightarrow> [])"

definition insert_dlq_entry :: "env \<Rightarrow> bytes \<Rightarrow> (meta_error, nat) action" where
  "insert_dlq_entry E entry = reply_as seq_of (meta_call E (InsertDlqEntry entry))"

definition list_dlq :: "env \<Rightarrow> (meta_error, (nat \<times> bytes) list) action" where
  "list_dlq E = reply_as dlq_of (meta_call E ListDlq)"

definition list_objects :: "env \<Rightarrow> list_objects_request \<Rightarrow> (meta_error, list_objects_page) action" where
  "list_objects E req = reply_as page_reply (meta_call E (ListObjects req))"

definition list_object_versions :: "env \<Rightarrow> list_objects_request \<Rightarrow> (meta_error, list_object_versions_page) action" where
  "list_object_versions E req = reply_as versions_reply (meta_call E (ListObjectVersions req))"

subsection \<open>Triples\<close>

text \<open>
  \<open>triple P m Q\<close>: from a world with \<open>P\<close>, whatever the environment answers, the outcome and the
  final world satisfy \<open>Q\<close>.
\<close>

definition triple :: "(world \<Rightarrow> bool) \<Rightarrow> ('e, 'a) action \<Rightarrow> (('e, 'a) outcome \<Rightarrow> world \<Rightarrow> bool) \<Rightarrow> bool" where
  "triple P m Q \<longleftrightarrow> (\<forall>w. P w \<longrightarrow> Q (fst (m w)) (snd (m w)))"

text \<open>The continuation sees \<open>R\<close>; a failure has to satisfy the final postcondition.\<close>

definition upon :: "('a \<Rightarrow> world \<Rightarrow> bool) \<Rightarrow> (('e, 'b) outcome \<Rightarrow> world \<Rightarrow> bool) \<Rightarrow> ('e, 'a) outcome \<Rightarrow> world \<Rightarrow> bool" where
  "upon R Q r w = (case r of Ok a \<Rightarrow> R a w | Err e \<Rightarrow> Q (Err e) w | Panic \<Rightarrow> Q Panic w)"

lemma upon_simps [simp]:
  "upon R Q (Ok a) w = R a w" "upon R Q (Err e) w = Q (Err e) w" "upon R Q Panic w = Q Panic w"
  by (simp_all add: upon_def)

lemma triple_bnd:
  assumes "triple P m (upon R Q)" and "\<And>a. triple (R a) (f a) Q"
  shows "triple P (bnd m f) Q"
  using assms by (fastforce simp: triple_def bnd_def upon_def split: prod.splits outcome.splits)

lemma triple_conseq: "triple P' m Q' \<Longrightarrow> (\<And>w. P w \<Longrightarrow> P' w) \<Longrightarrow> (\<And>r w. Q' r w \<Longrightarrow> Q r w) \<Longrightarrow> triple P m Q"
  by (simp add: triple_def)

lemma triple_ret: "triple (Q (Ok a)) (ret a) Q"
  by (simp add: triple_def ret_def)

lemma triple_fail: "triple (Q (Err e)) (fail e) Q"
  by (simp add: triple_def fail_def)

lemma triple_panic: "triple (Q Panic) panic Q"
  by (simp add: triple_def panic_def)

lemma triple_catch:
  assumes "triple P m (\<lambda>r w. case r of Ok a \<Rightarrow> R (Inr a) w | Err e \<Rightarrow> R (Inl e) w | Panic \<Rightarrow> Q Panic w)"
    and "\<And>r. triple (R r) (f r) Q"
  shows "triple P (catch m f) Q"
  using assms by (fastforce simp: triple_def catch_def split: prod.splits outcome.splits)

text \<open>Actions that keep a predicate on the world, whatever their outcome.\<close>

definition keeps :: "(world \<Rightarrow> bool) \<Rightarrow> ('e, 'a) action \<Rightarrow> bool" where
  "keeps P m \<longleftrightarrow> triple P m (\<lambda>_. P)"

lemma keeps_bnd [intro]: "keeps P m \<Longrightarrow> (\<And>a. keeps P (f a)) \<Longrightarrow> keeps P (bnd m f)"
  unfolding keeps_def by (rule triple_bnd [where R = "\<lambda>_. P"]) (auto simp: triple_def upon_def split: outcome.split)

lemma keeps_catch [intro]: "keeps P m \<Longrightarrow> (\<And>a. keeps P (f a)) \<Longrightarrow> keeps P (catch m f)"
  unfolding keeps_def by (rule triple_catch [where R = "\<lambda>_. P"]) (auto simp: triple_def split: outcome.split)

lemma keeps_pure [simp, intro]:
  "keeps P (ret a)" "keeps P (fail e)" "keeps P panic" "keeps P (lift r)" "keeps P (ok_or v e)" "keeps P (unwrap v)"
  "keeps P (fail_if b e)"
  by (auto simp: keeps_def triple_def ret_def fail_def panic_def lift_def ok_or_def unwrap_def fail_if_def
      split: sum.split option.split)

lemma keeps_map_err [intro]: "keeps P m \<Longrightarrow> keeps P (map_err f m)"
  unfolding map_err_def by (rule keeps_catch) (auto split: sum.split)

lemma keeps_for_each: "(\<And>x s. x \<in> set xs \<Longrightarrow> keeps P (f x s)) \<Longrightarrow> keeps P (for_each f xs s)"
  by (induction xs arbitrary: s) auto

lemma keeps_reply_as [intro]: "keeps P m \<Longrightarrow> keeps P (reply_as f m)"
  by (simp add: reply_as_def keeps_bnd)

lemma keeps_time [simp, intro]:
  "(\<And>w. P (tick w) = P w) \<Longrightarrow> keeps P (now_utc E)"
  "(\<And>w. P (tick w) = P w) \<Longrightarrow> keeps P (new_uuid E)"
  by (auto simp: keeps_def triple_def now_utc_def new_uuid_def)

end
