(* ===== verification/Http.thy ===== *)
theory Http
  imports World
begin

text \<open>
  \<^verbatim>\<open>src/http/error.rs\<close>, the response half of \<^verbatim>\<open>src/s3/xml.rs\<close>, and the header accessors of
  the handlers: S3 errors with their statuses and codes, header maps, responses.
\<close>

subsection \<open>Error codes\<close>

datatype s3_error_code =
    AccessDenied
  | SignatureDoesNotMatch
  | InvalidAccessKeyId
  | RequestTimeTooSkewed
  | AuthorizationHeaderMalformed
  | MissingSecurityHeader
  | InvalidRequest
  | NotImplemented
  | InternalError
  | NoSuchBucket
  | BucketAlreadyExists
  | BucketAlreadyOwnedByYou
  | S3BucketNotEmpty
  | NoSuchKey
  | NoSuchUpload
  | InvalidArgument
  | BadDigest
  | PreconditionFailed
  | NotModified
  | InvalidBucketName
  | NoSuchCorsConfiguration
  | NoSuchLifecycleConfiguration
  | AccessForbidden

fun status :: "s3_error_code \<Rightarrow> nat" where
  "status AccessDenied = 403"
| "status SignatureDoesNotMatch = 403"
| "status InvalidAccessKeyId = 403"
| "status RequestTimeTooSkewed = 403"
| "status AuthorizationHeaderMalformed = 403"
| "status MissingSecurityHeader = 403"
| "status InvalidRequest = 400"
| "status InvalidArgument = 400"
| "status BadDigest = 400"
| "status InvalidBucketName = 400"
| "status NotImplemented = 501"
| "status InternalError = 500"
| "status NoSuchBucket = 404"
| "status NoSuchKey = 404"
| "status NoSuchUpload = 404"
| "status BucketAlreadyExists = 409"
| "status BucketAlreadyOwnedByYou = 409"
| "status S3BucketNotEmpty = 409"
| "status PreconditionFailed = 412"
| "status NotModified = 304"
| "status NoSuchCorsConfiguration = 404"
| "status NoSuchLifecycleConfiguration = 404"
| "status AccessForbidden = 403"

fun code_str :: "s3_error_code \<Rightarrow> string" where
  "code_str AccessDenied = ''AccessDenied''"
| "code_str SignatureDoesNotMatch = ''SignatureDoesNotMatch''"
| "code_str InvalidAccessKeyId = ''InvalidAccessKeyId''"
| "code_str RequestTimeTooSkewed = ''RequestTimeTooSkewed''"
| "code_str AuthorizationHeaderMalformed = ''AuthorizationHeaderMalformed''"
| "code_str MissingSecurityHeader = ''MissingSecurityHeader''"
| "code_str InvalidRequest = ''InvalidRequest''"
| "code_str NotImplemented = ''NotImplemented''"
| "code_str InternalError = ''InternalError''"
| "code_str NoSuchBucket = ''NoSuchBucket''"
| "code_str BucketAlreadyExists = ''BucketAlreadyExists''"
| "code_str BucketAlreadyOwnedByYou = ''BucketAlreadyOwnedByYou''"
| "code_str S3BucketNotEmpty = ''BucketNotEmpty''"
| "code_str NoSuchKey = ''NoSuchKey''"
| "code_str NoSuchUpload = ''NoSuchUpload''"
| "code_str InvalidArgument = ''InvalidArgument''"
| "code_str BadDigest = ''BadDigest''"
| "code_str PreconditionFailed = ''PreconditionFailed''"
| "code_str NotModified = ''NotModified''"
| "code_str InvalidBucketName = ''InvalidBucketName''"
| "code_str NoSuchCorsConfiguration = ''NoSuchCORSConfiguration''"
| "code_str NoSuchLifecycleConfiguration = ''NoSuchLifecycleConfiguration''"
| "code_str AccessForbidden = ''AccessForbidden''"

subsection \<open>Errors\<close>

record request_id =
  ri_request_id :: string
  ri_host_id :: string

record s3_error =
  se_code :: s3_error_code
  se_message :: string
  se_resource :: "string option"
  se_request_id :: "request_id option"

definition s3_error_new :: "s3_error_code \<Rightarrow> string \<Rightarrow> s3_error" where
  "s3_error_new c msg = \<lparr>se_code = c, se_message = msg, se_resource = None, se_request_id = None\<rparr>"

definition with_resource :: "s3_error \<Rightarrow> string \<Rightarrow> s3_error" where
  "with_resource e r = e\<lparr>se_resource := Some r\<rparr>"

definition with_request_id :: "s3_error \<Rightarrow> request_id \<Rightarrow> s3_error" where
  "with_request_id e i = e\<lparr>se_request_id := Some i\<rparr>"

type_synonym 'a handler = "(s3_error, 'a) action"

text \<open>\<^verbatim>\<open>format!("/{bucket}")\<close> and \<^verbatim>\<open>format!("/{bucket}/{key}")\<close>\<close>

definition bucket_path :: "string \<Rightarrow> string" where
  "bucket_path b = ''/'' @ b"

definition object_path :: "string \<Rightarrow> string \<Rightarrow> string" where
  "object_path b k = ''/'' @ b @ ''/'' @ k"

subsection \<open>Header maps\<close>

text \<open>
  A header map is a list of names (lower case) and raw values in iteration order; a name
  may occur more than once, and \<^verbatim>\<open>get\<close> returns its first value.
\<close>

type_synonym header_map = "(string \<times> bytes) list"

definition header_get :: "header_map \<Rightarrow> string \<Rightarrow> bytes option" where
  "header_get hs name = map_of hs name"

text \<open>\<^verbatim>\<open>headers.get(name).and_then(|v| v.to_str().ok())\<close>\<close>

definition header_str :: "crates \<Rightarrow> header_map \<Rightarrow> string \<Rightarrow> string option" where
  "header_str X hs name = (case header_get hs name of None \<Rightarrow> None | Some v \<Rightarrow> header_to_str X v)"

definition strip_prefix :: "string \<Rightarrow> string \<Rightarrow> string option" where
  "strip_prefix p s = (if prefix p s then Some (drop (length p) s) else None)"

definition extract_user_metadata :: "crates \<Rightarrow> header_map \<Rightarrow> (string, string) table" where
  "extract_user_metadata X hs =
     foldl (\<lambda>out e.
         case strip_prefix ''x-amz-meta-'' (fst e) of
           None \<Rightarrow> out
         | Some name \<Rightarrow>
             (case header_to_str X (snd e) of None \<Rightarrow> out | Some v \<Rightarrow> tbl_insert out name v))
       [] hs"

subsection \<open>Responses\<close>

datatype body =
    NoBody
  | BodyBytes bytes
  | BodyXml string
  | BodyError string string string string string  \<comment> \<open>code, message, resource, request id, host id\<close>

record response =
  rs_status :: nat
  rs_headers :: "(string \<times> string) list"
  rs_body :: body

definition empty_response :: "nat \<Rightarrow> response" where
  "empty_response st = \<lparr>rs_status = st, rs_headers = [], rs_body = NoBody\<rparr>"

text \<open>\<^verbatim>\<open>HeaderMap::insert\<close> on a response: replace all values of the name.\<close>

definition insert_header :: "string \<Rightarrow> string \<Rightarrow> response \<Rightarrow> response" where
  "insert_header n v r = r\<lparr>rs_headers := filter (\<lambda>e. fst e \<noteq> n) (rs_headers r) @ [(n, v)]\<rparr>"

text \<open>\<^verbatim>\<open>set_header\<close>: an invalid name or value is dropped.\<close>

definition set_header :: "crates \<Rightarrow> string \<Rightarrow> string \<Rightarrow> response \<Rightarrow> response" where
  "set_header X n v r = (if header_name_ok X n \<and> header_value_ok X v then insert_header n v r else r)"

text \<open>\<^verbatim>\<open>impl IntoResponse for S3Error\<close>\<close>

definition error_response :: "crates \<Rightarrow> s3_error \<Rightarrow> response" where
  "error_response X e =
     (let (rid, hid) = (case se_request_id e of
                          Some r \<Rightarrow> (ri_request_id r, ri_host_id r) | None \<Rightarrow> ([], []));
          resp = \<lparr>rs_status = status (se_code e), rs_headers = [],
                  rs_body = BodyError (code_str (se_code e)) (se_message e)
                    (case se_resource e of Some r \<Rightarrow> r | None \<Rightarrow> []) rid hid\<rparr>;
          resp = insert_header ''content-type'' ''application/xml'' resp;
          resp = (if header_value_ok X rid then insert_header ''x-amz-request-id'' rid resp else resp)
      in if header_value_ok X hid then insert_header ''x-amz-id-2'' hid resp else resp)"

text \<open>\<^verbatim>\<open>impl IntoResponse for XmlBody<T>\<close>\<close>

definition xml_response :: "crates \<Rightarrow> xml_doc \<Rightarrow> response" where
  "xml_response X doc =
     (case render_xml X doc of
        Inr text \<Rightarrow>
          insert_header ''content-type'' ''application/xml''
            \<lparr>rs_status = 200, rs_headers = [], rs_body = BodyXml text\<rparr>
      | Inl e \<Rightarrow> error_response X (s3_error_new InternalError e))"

subsection \<open>Facts\<close>

lemma code_str_inj: "code_str c = code_str c' \<longleftrightarrow> c = c'"
  by (cases c; cases c'; simp)

lemma with_resource_sel [simp]:
  "se_code (with_resource e r) = se_code e" "se_message (with_resource e r) = se_message e"
  by (simp_all add: with_resource_def)

lemma s3_error_new_sel [simp]:
  "se_code (s3_error_new c m) = c" "se_message (s3_error_new c m) = m"
  by (simp_all add: s3_error_new_def)

lemma status_error: "300 \<le> status c"
  by (cases c) auto

lemma insert_header_sel [simp]:
  "rs_status (insert_header n v r) = rs_status r" "rs_body (insert_header n v r) = rs_body r"
  by (simp_all add: insert_header_def)

lemma set_header_sel [simp]:
  "rs_status (set_header X n v r) = rs_status r" "rs_body (set_header X n v r) = rs_body r"
  by (simp_all add: set_header_def)

lemma error_response_status [simp]: "rs_status (error_response X e) = status (se_code e)"
  by (simp add: error_response_def Let_def split: prod.split)

end
