(* ===== verification/Text.thy ===== *)
theory Text
  imports Http
begin

text \<open>
  The functions of Rust's standard library on strings that the handlers use (\<^verbatim>\<open>split\<close>,
  \<^verbatim>\<open>split_once\<close>, \<^verbatim>\<open>trim\<close>, \<^verbatim>\<open>parse::<u64>\<close>, \<^verbatim>\<open>String::from_utf8_lossy\<close>), and the percent
  decoders of \<^verbatim>\<open>copy.rs\<close> and \<^verbatim>\<open>tagging.rs\<close>.  All of them work on bytes.
\<close>

subsection \<open>Splitting\<close>

text \<open>\<^verbatim>\<open>s.split(c)\<close> for a one-byte \<open>c\<close>: never empty.\<close>

fun split_on :: "char \<Rightarrow> string \<Rightarrow> string list" where
  "split_on c [] = [[]]"
| "split_on c (d # s) =
     (if d = c then [] # split_on c s
      else case split_on c s of [] \<Rightarrow> [[d]] | p # ps \<Rightarrow> (d # p) # ps)"

fun split_once :: "char \<Rightarrow> string \<Rightarrow> (string \<times> string) option" where
  "split_once c [] = None"
| "split_once c (d # s) =
     (if d = c then Some ([], s) else map_option (\<lambda>(a, b). (d # a, b)) (split_once c s))"

definition rsplit_once :: "char \<Rightarrow> string \<Rightarrow> (string \<times> string) option" where
  "rsplit_once c s = map_option (\<lambda>(a, b). (rev b, rev a)) (split_once c (rev s))"

definition strip_suffix :: "string \<Rightarrow> string \<Rightarrow> string option" where
  "strip_suffix p s = (if suffix p s then Some (take (length s - length p) s) else None)"

subsection \<open>Trimming\<close>

text \<open>The UTF-8 forms of the characters with the \<^verbatim>\<open>White_Space\<close> property.\<close>

definition whitespace :: "string list" where
  "whitespace =
     [[CHR 0x09], [CHR 0x0A], [CHR 0x0B], [CHR 0x0C], [CHR 0x0D], [CHR 0x20],
      [CHR 0xC2, CHR 0x85], [CHR 0xC2, CHR 0xA0], [CHR 0xE1, CHR 0x9A, CHR 0x80],
      [CHR 0xE2, CHR 0x80, CHR 0x80], [CHR 0xE2, CHR 0x80, CHR 0x81], [CHR 0xE2, CHR 0x80, CHR 0x82],
      [CHR 0xE2, CHR 0x80, CHR 0x83], [CHR 0xE2, CHR 0x80, CHR 0x84], [CHR 0xE2, CHR 0x80, CHR 0x85],
      [CHR 0xE2, CHR 0x80, CHR 0x86], [CHR 0xE2, CHR 0x80, CHR 0x87], [CHR 0xE2, CHR 0x80, CHR 0x88],
      [CHR 0xE2, CHR 0x80, CHR 0x89], [CHR 0xE2, CHR 0x80, CHR 0x8A], [CHR 0xE2, CHR 0x80, CHR 0xA8],
      [CHR 0xE2, CHR 0x80, CHR 0xA9], [CHR 0xE2, CHR 0x80, CHR 0xAF], [CHR 0xE2, CHR 0x81, CHR 0x9F],
      [CHR 0xE3, CHR 0x80, CHR 0x80]]"

lemma whitespace_nonempty: "[] \<notin> set whitespace"
  by (simp add: whitespace_def)

function trim_start :: "string list \<Rightarrow> string \<Rightarrow> string" where
  "trim_start ws s =
     (case find (\<lambda>p. p \<noteq> [] \<and> prefix p s) ws of
        None \<Rightarrow> s
      | Some p \<Rightarrow> trim_start ws (drop (length p) s))"
  by pat_completeness auto

termination
  by (relation "measure (\<lambda>(ws, s). length s)") (auto simp: find_Some_iff prefix_def)

declare trim_start.simps [simp del]

definition trim :: "string \<Rightarrow> string" where
  "trim s = rev (trim_start (map rev whitespace) (rev (trim_start whitespace s)))"

subsection \<open>Numbers\<close>

definition is_digit :: "char \<Rightarrow> bool" where
  "is_digit c \<longleftrightarrow> 48 \<le> (of_char c :: nat) \<and> (of_char c :: nat) \<le> 57"

definition digit_value :: "char \<Rightarrow> nat" where
  "digit_value c = of_char c - 48"

definition digits_value :: "string \<Rightarrow> nat" where
  "digits_value s = foldl (\<lambda>n c. n * 10 + digit_value c) 0 s"

text \<open>\<^verbatim>\<open>str::parse\<close> for an unsigned type: an optional \<open>+\<close>, at least one digit, no overflow.\<close>

definition parse_unsigned :: "nat \<Rightarrow> string \<Rightarrow> nat option" where
  "parse_unsigned bound s =
     (let ds = (case s of c # rest \<Rightarrow> (if c = CHR ''+'' then rest else s) | [] \<Rightarrow> [])
      in if ds = [] \<or> \<not> list_all is_digit ds \<or> bound \<le> digits_value ds then None
         else Some (digits_value ds))"

definition parse_u64 :: "string \<Rightarrow> nat option" where
  "parse_u64 = parse_unsigned u64_mod"

definition parse_u32 :: "string \<Rightarrow> nat option" where
  "parse_u32 = parse_unsigned 4294967296"

subsection \<open>\<^verbatim>\<open>String::from_utf8_lossy\<close>\<close>

definition in_range :: "nat \<Rightarrow> nat \<Rightarrow> char \<Rightarrow> bool" where
  "in_range lo hi c \<longleftrightarrow> lo \<le> (of_char c :: nat) \<and> (of_char c :: nat) \<le> hi"

text \<open>
  The byte ranges a lead byte asks for in the bytes that follow it, or \<open>None\<close> when it cannot
  start a character.
\<close>

definition continuations :: "char \<Rightarrow> (nat \<times> nat) list option" where
  "continuations c =
     (if in_range 0x00 0x7F c then Some []
      else if in_range 0xC2 0xDF c then Some [(0x80, 0xBF)]
      else if in_range 0xE0 0xE0 c then Some [(0xA0, 0xBF), (0x80, 0xBF)]
      else if in_range 0xED 0xED c then Some [(0x80, 0x9F), (0x80, 0xBF)]
      else if in_range 0xE1 0xEF c then Some [(0x80, 0xBF), (0x80, 0xBF)]
      else if in_range 0xF0 0xF0 c then Some [(0x90, 0xBF), (0x80, 0xBF), (0x80, 0xBF)]
      else if in_range 0xF1 0xF3 c then Some [(0x80, 0xBF), (0x80, 0xBF), (0x80, 0xBF)]
      else if in_range 0xF4 0xF4 c then Some [(0x80, 0x8F), (0x80, 0xBF), (0x80, 0xBF)]
      else None)"

text \<open>How many of the wanted continuation bytes are there.\<close>

fun matched :: "(nat \<times> nat) list \<Rightarrow> string \<Rightarrow> nat" where
  "matched ((lo, hi) # rs) (c # s) = (if in_range lo hi c then Suc (matched rs s) else 0)"
| "matched _ _ = 0"

definition replacement :: string where
  "replacement = [CHR 0xEF, CHR 0xBF, CHR 0xBD]"

text \<open>An ill-formed sequence is replaced by U+FFFD, its longest well-formed start at a time.\<close>

fun utf8_lossy :: "bytes \<Rightarrow> string" where
  "utf8_lossy [] = []"
| "utf8_lossy (c # s) =
     (case continuations c of
        None \<Rightarrow> replacement @ utf8_lossy s
      | Some rs \<Rightarrow>
          (let n = matched rs s
           in if n = length rs then c # take n s @ utf8_lossy (drop n s)
              else replacement @ utf8_lossy (drop n s)))"

declare utf8_lossy.simps [simp del]

fun valid_utf8 :: "bytes \<Rightarrow> bool" where
  "valid_utf8 [] = True"
| "valid_utf8 (c # s) =
     (case continuations c of
        None \<Rightarrow> False
      | Some rs \<Rightarrow> matched rs s = length rs \<and> valid_utf8 (drop (length rs) s))"

declare valid_utf8.simps [simp del]

subsection \<open>Percent decoding\<close>

definition hex_nibble :: "char \<Rightarrow> nat option" where
  "hex_nibble b =
     (if in_range 48 57 b then Some (of_char b - 48)
      else if in_range 97 102 b then Some (of_char b - 97 + 10)
      else if in_range 65 70 b then Some (of_char b - 65 + 10)
      else None)"

text \<open>\<^verbatim>\<open>copy.rs\<close>: \<open>%XX\<close> is a byte, anything else is kept.\<close>

fun decode_percent_bytes :: "bytes \<Rightarrow> bytes" where
  "decode_percent_bytes [] = []"
| "decode_percent_bytes (c # s) =
     (if c \<noteq> CHR ''%'' then c # decode_percent_bytes s
      else case s of
        h # l # rest \<Rightarrow>
          (case (hex_nibble h, hex_nibble l) of
             (Some a, Some b) \<Rightarrow> char_of (a * 16 + b :: nat) # decode_percent_bytes rest
           | _ \<Rightarrow> c # decode_percent_bytes s)
      | _ \<Rightarrow> c # decode_percent_bytes s)"

declare decode_percent_bytes.simps [simp del]

definition percent_decode :: "string \<Rightarrow> string" where
  "percent_decode s = utf8_lossy (decode_percent_bytes s)"

text \<open>\<^verbatim>\<open>tagging.rs\<close>: the form variant, where \<open>+\<close> is a space.\<close>

fun decode_form_bytes :: "bytes \<Rightarrow> bytes" where
  "decode_form_bytes [] = []"
| "decode_form_bytes (c # s) =
     (if c = CHR ''+'' then CHR '' '' # decode_form_bytes s
      else if c \<noteq> CHR ''%'' then c # decode_form_bytes s
      else case s of
        h # l # rest \<Rightarrow>
          (case (hex_nibble h, hex_nibble l) of
             (Some a, Some b) \<Rightarrow> char_of (a * 16 + b :: nat) # decode_form_bytes rest
           | _ \<Rightarrow> c # decode_form_bytes s)
      | _ \<Rightarrow> c # decode_form_bytes s)"

declare decode_form_bytes.simps [simp del]

definition form_decode :: "string \<Rightarrow> string" where
  "form_decode s = utf8_lossy (decode_form_bytes s)"

subsection \<open>Facts\<close>

lemma split_on_nonempty [simp]: "split_on c s \<noteq> []"
  by (induction s) (auto split: list.split)

text \<open>Splitting loses nothing: the pieces joined by the separator are the string.\<close>

fun join_with :: "char \<Rightarrow> string list \<Rightarrow> string" where
  "join_with c [] = []"
| "join_with c [p] = p"
| "join_with c (p # q # ps) = p @ c # join_with c (q # ps)"

lemma join_split_on: "join_with c (split_on c s) = s"
proof (induction s)
  case (Cons d s)
  then show ?case by (cases "split_on c s"; cases "tl (split_on c s)") auto
qed simp

lemma split_on_pieces: "p \<in> set (split_on c s) \<Longrightarrow> c \<notin> set p"
proof (induction s arbitrary: p)
  case (Cons d s)
  then show ?case by (cases "split_on c s") (auto split: if_splits)
qed simp

lemma split_once_Some_iff: "split_once c s = Some (a, b) \<longleftrightarrow> s = a @ c # b \<and> c \<notin> set a"
proof (induction s arbitrary: a)
  case (Cons d s)
  then show ?case by (cases a) auto
qed simp

lemma split_once_None_iff: "split_once c s = None \<longleftrightarrow> c \<notin> set s"
  by (induction s) auto

lemma utf8_lossy_valid: "valid_utf8 s \<Longrightarrow> utf8_lossy s = s"
proof (induction s rule: valid_utf8.induct)
  case (2 c s)
  then show ?case
    by (auto simp: valid_utf8.simps utf8_lossy.simps Let_def split: option.splits)
qed (simp add: utf8_lossy.simps)

lemma matched_le: "matched rs s \<le> length rs"
  by (induction rs s rule: matched.induct) auto

lemma matched_append: "matched rs s = length rs \<Longrightarrow> matched rs (take (length rs) s @ t) = length rs"
  by (induction rs s rule: matched.induct) (auto split: if_splits)

lemma matched_length: "matched rs s = length rs \<Longrightarrow> length rs \<le> length s"
  by (induction rs s rule: matched.induct) (auto split: if_splits)

text \<open>Whatever the input, the lossy conversion yields well-formed UTF-8.\<close>

lemma valid_utf8_replacement: "valid_utf8 (replacement @ s) = valid_utf8 s"
  by (simp add: replacement_def valid_utf8.simps continuations_def in_range_def)

lemma utf8_lossy_is_valid: "valid_utf8 (utf8_lossy s)"
proof (induction s rule: utf8_lossy.induct)
  case 1
  show ?case by (simp add: utf8_lossy.simps valid_utf8.simps)
next
  case (2 c s)
  show ?case
  proof (cases "continuations c")
    case None
    then show ?thesis using 2 by (simp add: utf8_lossy.simps valid_utf8_replacement)
  next
    case (Some rs)
    show ?thesis
    proof (cases "matched rs s = length rs")
      case True
      note l = matched_length [OF True]
      have "utf8_lossy (c # s) = c # take (length rs) s @ utf8_lossy (drop (length rs) s)"
        using Some True by (simp add: utf8_lossy.simps Let_def)
      moreover have "valid_utf8 (utf8_lossy (drop (length rs) s))" using 2(2) [OF Some refl] True by simp
      ultimately show ?thesis
        using Some matched_append [OF True] l by (simp add: valid_utf8.simps(2) [of c])
    next
      case False
      then show ?thesis using 2(3) [OF Some refl] Some by (simp add: utf8_lossy.simps Let_def valid_utf8_replacement)
    qed
  qed
qed

text \<open>The encoding that decoding inverts: every byte as \<open>%\<close> and two hex digits.\<close>

definition hex_digit :: "nat \<Rightarrow> char" where
  "hex_digit n = (if n < 10 then char_of (48 + n) else char_of (55 + n))"

definition percent_encode :: "bytes \<Rightarrow> string" where
  "percent_encode s =
     concat (map (\<lambda>c. [CHR ''%'', hex_digit (of_char c div 16), hex_digit (of_char c mod 16)]) s)"

lemma hex_nibble_digit: "n < 16 \<Longrightarrow> hex_nibble (hex_digit n) = Some n"
  by (simp add: hex_nibble_def hex_digit_def in_range_def of_char_of take_bit_eq_mod)

lemma byte_nibbles:
  "(of_char c :: nat) div 16 < 16" "(of_char c :: nat) mod 16 < 16"
  "(of_char c :: nat) div 16 * 16 + of_char c mod 16 = of_char c"
proof -
  have "of_char c < (256 :: nat)" by (rule nat_of_char_less_256)
  then show "(of_char c :: nat) div 16 < 16" by (rule less_mult_imp_div_less [of _ 16 16, simplified])
qed simp_all

lemma decode_encode_bytes: "decode_percent_bytes (percent_encode s) = s"
proof (induction s)
  case Nil
  show ?case by (simp add: percent_encode_def decode_percent_bytes.simps)
next
  case (Cons c s)
  show ?case
    using Cons byte_nibbles [of c] by (simp add: percent_encode_def decode_percent_bytes.simps hex_nibble_digit)
qed

lemma decode_form_encode_bytes: "decode_form_bytes (percent_encode s) = s"
proof (induction s)
  case Nil
  show ?case by (simp add: percent_encode_def decode_form_bytes.simps)
next
  case (Cons c s)
  show ?case
    using Cons byte_nibbles [of c] by (simp add: percent_encode_def decode_form_bytes.simps hex_nibble_digit)
qed

end
