(* ===== verification/PartStore.thy ===== *)
theory PartStore
  imports Http
begin

text \<open>
  \<^verbatim>\<open>src/storage/parts.rs\<close>: the content-addressed store of part files, and the inline
  garbage collection of freed parts that every handler runs (\<^verbatim>\<open>gc_freed_parts\<close> in
  \<^verbatim>\<open>object.rs\<close>, \<^verbatim>\<open>multipart.rs\<close> and \<^verbatim>\<open>copy.rs\<close>).

  The files are a partial map from content hash to bytes: \<^verbatim>\<open>path_for\<close> names a file by the
  hex form of its hash, which determines the hash (\<open>path_for_inj\<close>).
\<close>

record part_write_result =
  pw_hash :: hash
  pw_md5 :: bytes
  pw_size :: nat

subsection \<open>Paths\<close>

definition join :: "string \<Rightarrow> string \<Rightarrow> string" where
  "join dir name = dir @ ''/'' @ name"

text \<open>\<^verbatim>\<open>&hex[..2]\<close> and \<^verbatim>\<open>&hex[2..4]\<close>; a hash is 32 bytes, so that its hex form is long enough.\<close>

definition path_for :: "crates \<Rightarrow> string \<Rightarrow> hash \<Rightarrow> string" where
  "path_for X parts_dir h =
     (let hex = hex_encode X h
      in join (join (join parts_dir (take 2 hex)) (take 2 (drop 2 hex))) hex)"

subsection \<open>Writing\<close>

text \<open>
  The read loop: chunks up to the first empty read are written to the temporary file, fed to
  the hashers and counted.  The hashers are incremental: after all updates they have seen
  the concatenation.
\<close>

fun copy_chunks :: "bytes list \<Rightarrow> bytes \<times> nat \<Rightarrow> bytes \<times> nat" where
  "copy_chunks [] (seen, sz) = (seen, sz)"
| "copy_chunks (chunk # rest) (seen, sz) =
     (if chunk = [] then (seen, sz)
      else copy_chunks rest (seen @ chunk, (sz + length chunk) mod u64_mod))"

text \<open>
  \<open>FailBefore\<close> is an I/O error up to and including the rename, \<open>FailAfter\<close> one in setting the
  permissions of the renamed file.
\<close>

definition write_stream :: "env \<Rightarrow> bytes list \<Rightarrow> (string, part_write_result) action" where
  "write_stream E chunks w =
     (let (data, sz) = copy_chunks chunks ([], 0);
          h = blake3 (e_crates E) data;
          result = \<lparr>pw_hash = h, pw_md5 = md5 (e_crates E) data, pw_size = sz\<rparr>;
          renamed = (tick w)\<lparr>w_blobs := (w_blobs w)(h := Some data)\<rparr>
      in case e_io_fault E (w_tick w) of
           Some (FailBefore e) \<Rightarrow> (Err e, tick w)
         | Some (FailAfter e) \<Rightarrow>
             (if w_blobs w h \<noteq> None then (Ok result, tick w) else (Err e, renamed))
         | None \<Rightarrow> (Ok result, if w_blobs w h \<noteq> None then tick w else renamed))"

text \<open>Reading a buffer through \<^verbatim>\<open>[0u8; 64 * 1024]\<close>.\<close>

fun chunked :: "nat \<Rightarrow> bytes \<Rightarrow> bytes list" where
  "chunked n bs = (if n = 0 \<or> bs = [] then [[]] else take n bs # chunked n (drop n bs))"

declare chunked.simps [simp del]

definition write_bytes :: "env \<Rightarrow> bytes \<Rightarrow> (string, part_write_result) action" where
  "write_bytes E data = write_stream E (chunked 65536 data)"

subsection \<open>Reading and deleting\<close>

text \<open>
  \<^verbatim>\<open>open_read\<close> followed by \<^verbatim>\<open>read_to_end\<close>: opening fails on a missing file or an I/O error
  (\<open>FailBefore\<close>), reading on a later one (\<open>FailAfter\<close>).
\<close>

datatype read_error = OpenFailed string | ReadFailed string

definition read_part :: "env \<Rightarrow> hash \<Rightarrow> (read_error, bytes) action" where
  "read_part E h w =
     (case (e_io_fault E (w_tick w), w_blobs w h) of
        (Some (FailBefore e), _) \<Rightarrow> (Err (OpenFailed e), tick w)
      | (_, None) \<Rightarrow> (Err (OpenFailed ''No such file or directory (os error 2)''), tick w)
      | (Some (FailAfter e), Some _) \<Rightarrow> (Err (ReadFailed e), tick w)
      | (None, Some data) \<Rightarrow> (Ok data, tick w))"

definition part_exists :: "env \<Rightarrow> hash \<Rightarrow> ('e, bool) action" where
  "part_exists E h w =
     (Ok (e_io_fault E (w_tick w) = None \<and> w_blobs w h \<noteq> None), tick w)"

definition delete_part :: "env \<Rightarrow> hash \<Rightarrow> (string, unit) action" where
  "delete_part E h w =
     (case e_io_fault E (w_tick w) of
        Some (FailBefore e) \<Rightarrow> (Err e, tick w)
      | Some (FailAfter e) \<Rightarrow> (Err e, tick w)
      | None \<Rightarrow> (Ok (), (tick w)\<lparr>w_blobs := (w_blobs w)(h := None)\<rparr>))"

subsection \<open>Inline collection\<close>

text \<open>
  \<^verbatim>\<open>gc_freed_parts\<close>: mark, unlink, drop the row; the row is dropped even when the unlink
  failed, and no failure is reported to the caller.
\<close>

definition gc_one :: "env \<Rightarrow> hash \<Rightarrow> unit \<Rightarrow> ('e, unit) action" where
  "gc_one E h _ =
     catch (mark_part_gc_pending E h) (\<lambda>r.
       case r of
         Inr True \<Rightarrow>
           catch (delete_part E h) (\<lambda>_.
           catch (remove_part E h) (\<lambda>_. ret ()))
       | Inr False \<Rightarrow> ret ()
       | Inl _ \<Rightarrow> ret ())"

definition gc_freed_parts :: "env \<Rightarrow> hash list \<Rightarrow> ('e, unit) action" where
  "gc_freed_parts E freed = for_each (gc_one E) freed ()"

subsection \<open>Facts\<close>

lemma path_for_inj:
  assumes "inj (hex_encode X)" and "length (hex_encode X h) = 64" and "length (hex_encode X h') = 64"
  shows "path_for X d h = path_for X d h' \<longleftrightarrow> h = h'"
  using assms by (auto simp: path_for_def join_def Let_def append_eq_append_conv inj_eq)

lemma copy_chunks_chunked:
  "0 < n \<Longrightarrow> sz < u64_mod \<Longrightarrow>
     copy_chunks (chunked n bs) (seen, sz) = (seen @ bs, (sz + length bs) mod u64_mod)"
proof (induction n bs arbitrary: seen sz rule: chunked.induct)
  case (1 n bs)
  show ?case
  proof (cases "bs = []")
    case False
    have "((sz + length (take n bs)) mod u64_mod + length (drop n bs)) mod u64_mod =
        (sz + length (take n bs) + length (drop n bs)) mod u64_mod"
      by (rule mod_add_left_eq)
    also have "sz + length (take n bs) + length (drop n bs) = sz + length bs"
      using arg_cong [OF append_take_drop_id [of n bs], of length] by simp
    finally show ?thesis
      using 1 False by (subst chunked.simps) simp
  qed (use 1 in \<open>simp add: chunked.simps\<close>)
qed

lemma write_bytes_eq:
  "write_bytes E data w =
     (let h = blake3 (e_crates E) data;
          result = \<lparr>pw_hash = h, pw_md5 = md5 (e_crates E) data, pw_size = length data mod u64_mod\<rparr>;
          renamed = (tick w)\<lparr>w_blobs := (w_blobs w)(h := Some data)\<rparr>
      in case e_io_fault E (w_tick w) of
           Some (FailBefore e) \<Rightarrow> (Err e, tick w)
         | Some (FailAfter e) \<Rightarrow>
             (if w_blobs w h \<noteq> None then (Ok result, tick w) else (Err e, renamed))
         | None \<Rightarrow> (Ok result, if w_blobs w h \<noteq> None then tick w else renamed))"
  by (simp add: write_bytes_def write_stream_def copy_chunks_chunked)

end
