(* ===== verification/WorldInv.thy ===== *)
theory WorldInv
  imports PartStore
begin

text \<open>
  The invariant that ties the metadata to the part files, and the rules by which the
  handlers keep it: every referenced part has its file, and every file holds the bytes its
  name is the hash of.
\<close>

definition blobs_ok :: "crates \<Rightarrow> (hash \<Rightarrow> bytes option) \<Rightarrow> bool" where
  "blobs_ok X fs \<longleftrightarrow> (\<forall>h data. fs h = Some data \<longrightarrow> blake3 X data = h)"

definition world_inv :: "env \<Rightarrow> world \<Rightarrow> bool" where
  "world_inv E w \<longleftrightarrow>
     store_inv (w_db w) \<and> blobs_ok (e_crates E) (w_blobs w) \<and>
     (\<forall>h. 0 < refs (w_db w) h \<longrightarrow> w_blobs w h \<noteq> None)"

lemma world_inv_tick [simp]: "world_inv E (tick w) = world_inv E w"
  by (simp add: world_inv_def tick_def)

lemma tick_sel [simp]:
  "w_db (tick w) = w_db w" "w_blobs (tick w) = w_blobs w" "w_events (tick w) = w_events w"
  by (simp_all add: tick_def)

subsection \<open>Which parts a call can start to reference\<close>

definition op_hashes :: "op \<Rightarrow> hash set" where
  "op_hashes p =
     (case p of
        PutManifest m \<Rightarrow> part_hashes m
      | AppendPart k part \<Rightarrow> {pr_hash part}
      | CompleteMultipartUpload ik new \<Rightarrow> part_hashes new
      | _ \<Rightarrow> {})"

definition mentions :: "db \<Rightarrow> hash \<Rightarrow> bool" where
  "mentions d h \<longleftrightarrow> (\<exists>kb m. tbl_get (objects d) kb = Some m \<and> h \<in> part_hashes m)"

lemma mentions_refs: "db_ok d \<Longrightarrow> mentions d h \<longleftrightarrow> 0 < refs d h"
  using refs_0_iff [of d h] by (auto simp: mentions_def db_ok_def)

lemma mentions_cong: "objects d' = objects d \<Longrightarrow> mentions d' h = mentions d h"
  by (simp add: mentions_def)

lemma mentions_insert:
  "objects d' = tbl_insert (objects d) kb m \<Longrightarrow> mentions d' h \<Longrightarrow> h \<in> part_hashes m \<or> mentions d h"
  by (auto simp: mentions_def split: if_splits)

lemma mentions_rewrite:
  "tbl_get (objects d) kb = Some m \<Longrightarrow> part_hashes m' = part_hashes m \<Longrightarrow>
     objects d' = tbl_insert (objects d) kb m' \<Longrightarrow> mentions d' h \<Longrightarrow> mentions d h"
  using mentions_insert [of d' d kb m' h] by (auto simp: mentions_def)

lemma mentions_append:
  assumes "handle_append_part X now now2 d k part = Inr (freed, d')" and "mentions d' h"
  shows "h = pr_hash part \<or> mentions d h"
proof -
  obtain m rs rest where m: "tbl_get (objects d) (encode k) = Some m"
    and split: "mset (m_parts m) = mset rs + mset rest"
    and objs: "objects d' = tbl_insert (objects d) (encode k)
       (m\<lparr>m_parts := sort_key pr_part_number (rest @ [part]),
          m_size := sum_u64 (map pr_size (sort_key pr_part_number (rest @ [part]))),
          m_last_modified := now2\<rparr>)"
    by (rule append_part_cases [OF assms(1)])
  have "set rest \<subseteq> set (m_parts m)"
    using arg_cong [OF split, of set_mset] by auto
  then show ?thesis
    using mentions_insert [OF objs assms(2)] m by (auto simp: part_hashes_def mentions_def)
qed

lemma mentions_complete:
  assumes "handle_complete_multipart X now d ik new = Inr (freed, d')" and "mentions d' h"
  shows "h \<in> part_hashes new \<or> mentions d h"
proof -
  have "objects d' = tbl_remove (tbl_insert (objects d) (encode (m_key new)) new) (encode ik)"
    by (rule complete_multipart_cases [OF assms(1)])
  then show ?thesis using assms(2) by (auto simp: mentions_def split: if_splits)
qed

lemma exec_op_mentions:
  assumes call: "exec_op X c d p = (r, d')" and h: "mentions d' h"
  shows "h \<in> op_hashes p \<or> mentions d h"
proof (cases r)
  case (Inl e)
  then show ?thesis using exec_op_error call h by blast
next
  case (Inr v)
  note call' = call [unfolded Inr]
  have same: ?thesis if "objects d' = objects d"
    using mentions_cong [OF that] h by blast
  have rewritten: "mentions d h"
    if "tbl_get (objects d) kb = Some m" "m_parts m' = m_parts m" "d' = d\<lparr>objects := tbl_insert (objects d) kb m'\<rparr>"
    for kb m m'
    using mentions_rewrite [of d kb m m' d' h] that h by (simp add: part_hashes_def)
  show ?thesis
  proof (cases p)
    case (PutManifest m)
    then have "objects d' = tbl_insert (objects d) (encode (m_key m)) m"
      using call' by (auto simp: exec_op_def write_tx_Inr elim: put_manifest_cases)
    then show ?thesis using mentions_insert h PutManifest by (fastforce simp: op_hashes_def)
  next
    case (DeleteManifest k)
    then have "objects d' = tbl_remove (objects d) (encode k)"
      using call' by (auto simp: exec_op_def write_tx_Inr dest: delete_manifest_objects)
    then show ?thesis using h by (auto simp: mentions_def split: if_splits)
  next
    case (AppendPart k part)
    then show ?thesis
      using call' h mentions_append by (fastforce simp: exec_op_def write_tx_Inr op_hashes_def)
  next
    case (CompleteMultipartUpload ik new)
    then show ?thesis
      using call' h mentions_complete by (fastforce simp: exec_op_def write_tx_Inr op_hashes_def)
  next
    case (UpdateManifestState k s)
    then obtain m where m: "tbl_get (objects d) (encode k) = Some m"
      and d': "d' = d\<lparr>objects := tbl_insert (objects d) (encode k) (m\<lparr>m_state := s, m_last_modified := ce_now c\<rparr>)\<rparr>"
      using call' by (auto simp: exec_op_def write_tx_Inr elim!: rr_state.step_cases)
    then show ?thesis using rewritten [OF m _ d'] by simp
  next
    case (UpdateManifestTags k tags)
    then obtain m where m: "tbl_get (objects d) (encode k) = Some m"
      and d': "d' = d\<lparr>objects := tbl_insert (objects d) (encode k) (m\<lparr>m_tags := tags\<rparr>)\<rparr>"
      using call' by (auto simp: exec_op_def write_tx_Inr elim!: rr_tags.step_cases)
    then show ?thesis using rewritten [OF m _ d'] by simp
  next
    case (UpdateManifestLock k l)
    then obtain m where m: "tbl_get (objects d) (encode k) = Some m"
      and d': "d' = d\<lparr>objects := tbl_insert (objects d) (encode k) (m\<lparr>m_object_lock := l\<rparr>)\<rparr>"
      using call' by (auto simp: exec_op_def write_tx_Inr elim!: rr_lock.step_cases)
    then show ?thesis using rewritten [OF m _ d'] by simp
  next
    case (MarkPartGcPending g)
    then show ?thesis
      using call' same by (auto simp: exec_op_def write_tx_Inr handle_mark_gc_pending_def split: option.splits if_splits)
  next
    case (RemovePart g)
    then show ?thesis using call' same by (auto simp: exec_op_def write_tx_Inr handle_remove_part_def)
  qed (use call' same in \<open>auto simp: exec_op_def write_tx_Inr dest: read_tx_same dest!: frame_simps\<close>)
qed

subsection \<open>Calls of the metadata store\<close>

lemma meta_call_cases:
  obtains c where "snd (meta_call E p w) = (tick w)\<lparr>w_db := snd (exec_op (e_crates E) c (w_db w) p)\<rparr>"
    "fst (meta_call E p w) = (case fst (exec_op (e_crates E) c (w_db w) p) of Inl e \<Rightarrow> Err e | Inr v \<Rightarrow> Ok v)"
  by (rule that [of "\<lparr>ce_fault = e_meta_fault E (w_tick w), ce_now = e_clock E (w_tick w),
              ce_now2 = e_clock E (w_tick w)\<rparr>"]) (simp_all add: meta_call_def split_def)

lemma meta_call_inv:
  assumes inv: "world_inv E w" and ok: "op_ok (w_db w) p" and files: "\<forall>h\<in>op_hashes p. w_blobs w h \<noteq> None"
  shows "world_inv E (snd (meta_call E p w))"
proof -
  obtain c where w': "snd (meta_call E p w) = (tick w)\<lparr>w_db := snd (exec_op (e_crates E) c (w_db w) p)\<rparr>"
    by (rule meta_call_cases)
  let ?d' = "snd (exec_op (e_crates E) c (w_db w) p)"
  have d: "store_inv (w_db w)" using inv by (simp add: world_inv_def)
  have d': "store_inv ?d'"
    using exec_op_inv [OF d ok, of "e_crates E" c "fst (exec_op (e_crates E) c (w_db w) p)" ?d'] by simp
  have "w_blobs w h \<noteq> None" if "0 < refs ?d' h" for h
  proof -
    have "mentions ?d' h" using that mentions_refs store_inv_D(1) [OF d'] by blast
    then have "h \<in> op_hashes p \<or> mentions (w_db w) h"
      using exec_op_mentions [of "e_crates E" c "w_db w" p _ ?d' h] by (metis prod.collapse)
    then show ?thesis
      using files inv mentions_refs [OF store_inv_D(1) [OF d]] by (auto simp: world_inv_def)
  qed
  then show ?thesis using inv d' by (simp add: w' world_inv_def)
qed

text \<open>Calls that reference nothing new and have no precondition.\<close>

lemma keeps_meta_call:
  assumes "\<And>d. op_ok d p" and "op_hashes p = {}"
  shows "keeps (world_inv E) (meta_call E p)"
  using assms meta_call_inv by (auto simp: keeps_def triple_def)

lemma keeps_reads [simp, intro]:
  "keeps (world_inv E) (create_bucket E b cfg)"
  "keeps (world_inv E) (get_bucket E b)"
  "keeps (world_inv E) (delete_bucket E b)"
  "keeps (world_inv E) (list_buckets E)"
  "keeps (world_inv E) (get_manifest E k)"
  "keeps (world_inv E) (delete_manifest E k)"
  "keeps (world_inv E) (mark_part_gc_pending E h)"
  "keeps (world_inv E) (get_latest_version E b ky)"
  "keeps (world_inv E) (update_bucket_versioning E b vs)"
  "keeps (world_inv E) (update_bucket_object_lock E b ol)"
  "keeps (world_inv E) (update_bucket_lifecycle E b lc)"
  "keeps (world_inv E) (update_bucket_cors E b cors)"
  "keeps (world_inv E) (insert_dlq_entry E entry)"
  "keeps (world_inv E) (list_dlq E)"
  "keeps (world_inv E) (update_manifest_lock E k l)"
  "keeps (world_inv E) (update_manifest_tags E k tags)"
  "keeps (world_inv E) (list_all_manifests_in_bucket E b)"
  "keeps (world_inv E) (list_orphan_parts E)"
  "keeps (world_inv E) (list_objects E req)"
  "keeps (world_inv E) (list_object_versions E req)"
  by (auto simp: create_bucket_def get_bucket_def delete_bucket_def list_buckets_def get_manifest_def
      delete_manifest_def mark_part_gc_pending_def get_latest_version_def update_bucket_versioning_def
      update_bucket_object_lock_def update_bucket_cors_def insert_dlq_entry_def list_dlq_def update_bucket_lifecycle_def update_manifest_lock_def update_manifest_tags_def
      list_all_manifests_in_bucket_def list_orphan_parts_def list_objects_def list_object_versions_def
      op_ok_def op_hashes_def intro!: keeps_reply_as keeps_meta_call)

lemma keeps_emit [simp, intro]: "keeps (world_inv E) (emit ev)"
  by (simp add: keeps_def triple_def emit_def world_inv_def)

lemma keeps_clock [simp, intro]: "keeps (world_inv E) (now_utc E)" "keeps (world_inv E) (new_uuid E)"
  by auto

subsection \<open>File operations and the inline collector\<close>

lemma write_bytes_triple:
  "triple (\<lambda>w. world_inv E w \<and> P (w_db w)) (write_bytes E data)
     (\<lambda>r w. world_inv E w \<and> P (w_db w) \<and>
        (case r of Ok res \<Rightarrow> w_blobs w (pw_hash res) \<noteq> None \<and> pw_hash res = blake3 (e_crates E) data \<and>
                     pw_md5 res = md5 (e_crates E) data \<and> pw_size res = length data mod u64_mod
         | _ \<Rightarrow> True))"
  by (auto simp: triple_def write_bytes_eq Let_def world_inv_def blobs_ok_def
      split: option.split io_fault.split)

lemma read_part_keeps [simp, intro]: "keeps (world_inv E) (read_part E h)"
  by (auto simp: keeps_def triple_def read_part_def split: option.split io_fault.split)

lemma read_part_same: "w_db (snd (read_part E h w)) = w_db w" "w_blobs (snd (read_part E h w)) = w_blobs w"
  by (auto simp: read_part_def split: option.split io_fault.split)

lemma delete_part_triple:
  "triple (\<lambda>w. world_inv E w \<and> refs (w_db w) h = 0) (delete_part E h)
     (\<lambda>_ w. world_inv E w \<and> refs (w_db w) h = 0)"
  by (auto simp: triple_def delete_part_def world_inv_def blobs_ok_def split: option.split io_fault.split)

text \<open>Marking succeeds only on an unreferenced part.\<close>

lemma exec_mark:
  assumes inv: "store_inv d" and call: "exec_op X c d (MarkPartGcPending h) = (Inr (Marked True), d')"
  shows "refs d' h = 0 \<and> pending (parts d') h"
proof -
  have "handle_mark_gc_pending X d h = Inr (True, d')" using call by (auto simp: exec_op_def write_tx_Inr)
  from mark_gc_pending_preserves [OF this store_inv_D(1,3) [OF inv]]
  show ?thesis using refs_cong [of d' d] by auto
qed

lemma mark_triple:
  "triple (world_inv E) (mark_part_gc_pending E h)
     (\<lambda>r w. world_inv E w \<and> (r = Ok True \<longrightarrow> refs (w_db w) h = 0))"
proof -
  have "refs (w_db w') h = 0"
    if inv: "world_inv E w" and call: "mark_part_gc_pending E h w = (Ok True, w')" for w w'
  proof -
    obtain c where c: "snd (meta_call E (MarkPartGcPending h) w) =
        (tick w)\<lparr>w_db := snd (exec_op (e_crates E) c (w_db w) (MarkPartGcPending h))\<rparr>"
      "fst (meta_call E (MarkPartGcPending h) w) =
        (case fst (exec_op (e_crates E) c (w_db w) (MarkPartGcPending h)) of Inl e \<Rightarrow> Err e | Inr v \<Rightarrow> Ok v)"
      by (rule meta_call_cases)
    obtain v where v: "meta_call E (MarkPartGcPending h) w = (Ok v, w')" "marked_of v"
      using call by (auto simp: mark_part_gc_pending_def reply_as_def bnd_def ret_def split: prod.splits outcome.splits)
    then have "exec_op (e_crates E) c (w_db w) (MarkPartGcPending h) = (Inr (Marked True), w_db w')"
      using c by (auto simp: marked_of_def split: sum.splits reply.splits prod.splits intro: prod_eqI)
    then show ?thesis using exec_mark inv by (auto simp: world_inv_def)
  qed
  then have "refs (w_db (snd (mark_part_gc_pending E h w))) h = 0"
    if "world_inv E w" "fst (mark_part_gc_pending E h w) = Ok True" for w
    using that by (metis prod.collapse)
  then show ?thesis
    using keeps_reads(7) [of E h] by (simp add: keeps_def triple_def)
qed

lemma remove_part_triple:
  "triple (\<lambda>w. world_inv E w \<and> refs (w_db w) h = 0) (remove_part E h) (\<lambda>_. world_inv E)"
proof -
  have "triple (\<lambda>w. world_inv E w \<and> refs (w_db w) h = 0) (meta_call E (RemovePart h)) (\<lambda>_. world_inv E)"
    using meta_call_inv [of E _ "RemovePart h"] by (simp add: triple_def op_ok_def op_hashes_def)
  note call = this
  show ?thesis
    unfolding remove_part_def reply_as_def
    by (rule triple_bnd [where R = "\<lambda>_. world_inv E"])
      (use call in \<open>auto simp: triple_def ret_def upon_def split: outcome.split\<close>)
qed

lemma gc_one_keeps: "keeps (world_inv E) (gc_one E h u)"
  unfolding keeps_def gc_one_def
proof (rule triple_catch [where R = "\<lambda>r w. world_inv E w \<and> (r = Inr True \<longrightarrow> refs (w_db w) h = 0)"])
  show "triple (world_inv E) (mark_part_gc_pending E h)
      (\<lambda>r w. case r of Ok a \<Rightarrow> world_inv E w \<and> (Inr a = Inr True \<longrightarrow> refs (w_db w) h = 0)
        | Err e \<Rightarrow> world_inv E w \<and> (Inl e = Inr True \<longrightarrow> refs (w_db w) h = 0) | Panic \<Rightarrow> world_inv E w)"
    using mark_triple [of E h] by (auto simp: triple_def split: outcome.split)
next
  fix r :: "meta_error + bool"
  let ?P = "\<lambda>w. world_inv E w \<and> refs (w_db w) h = 0"
  have rm: "triple ?P (catch (remove_part E h) (\<lambda>_. ret ())) (\<lambda>_. world_inv E)"
    by (rule triple_catch [where R = "\<lambda>_. world_inv E"])
      (use remove_part_triple [of E h] in \<open>auto simp: triple_def ret_def split: outcome.split\<close>)
  have "triple ?P (catch (delete_part E h) (\<lambda>_. catch (remove_part E h) (\<lambda>_. ret ()))) (\<lambda>_. world_inv E)"
    by (rule triple_catch [where R = "\<lambda>_. ?P", OF _ rm])
      (use delete_part_triple [of E h] in \<open>auto simp: triple_def split: outcome.split\<close>)
  then show "triple (\<lambda>w. world_inv E w \<and> (r = Inr True \<longrightarrow> refs (w_db w) h = 0))
      (case r of Inr True \<Rightarrow> catch (delete_part E h) (\<lambda>_. catch (remove_part E h) (\<lambda>_. ret ()))
        | Inr False \<Rightarrow> ret () | Inl _ \<Rightarrow> ret ()) (\<lambda>_. world_inv E)"
    by (auto simp: triple_def ret_def split: sum.split bool.split)
qed

lemma gc_freed_parts_keeps [simp, intro]: "keeps (world_inv E) (gc_freed_parts E freed)"
  unfolding gc_freed_parts_def by (rule keeps_for_each) (rule gc_one_keeps)

end
