(* ===== verification/Bucket.thy ===== *)
theory Bucket
  imports Text WorldInv
begin

text \<open>
  \<^verbatim>\<open>src/s3/bucket.rs\<close>: the bucket handlers.  \<open>map_meta_err\<close> is the error conversion that
  every handler module uses.
\<close>

subsection \<open>Errors\<close>

definition map_meta_err :: "env \<Rightarrow> meta_error \<Rightarrow> s3_error" where
  "map_meta_err E e = s3_error_new InternalError (''meta: '' @ e_meta_text E e)"

text \<open>\<^verbatim>\<open>.await.map_err(map_meta_err)?\<close>\<close>

definition meta :: "env \<Rightarrow> (meta_error, 'a) action \<Rightarrow> 'a handler" where
  "meta E m = map_err (map_meta_err E) m"

definition no_such_bucket :: "string \<Rightarrow> s3_error" where
  "no_such_bucket b = with_resource (s3_error_new NoSuchBucket ''bucket does not exist'') (bucket_path b)"

subsection \<open>Listing and lifecycle of buckets\<close>

definition handler_list_buckets :: "env \<Rightarrow> response handler" where
  "handler_list_buckets E =
     bnd (meta E (list_buckets E)) (\<lambda>listed.
     ret (xml_response (e_crates E)
       (ListAllMyBucketsDoc
         \<lparr>lab_owner = \<lparr>ow_id = ''s3lite'', ow_display_name = ''s3lite''\<rparr>,
          lab_buckets = map (\<lambda>(name, cfg).
            \<lparr>be_name = name, be_creation_date = format_rfc3339 (e_crates E) (bc_created_at cfg)\<rparr>) listed\<rparr>)))"

definition lower :: "char \<Rightarrow> char" where
  "lower c = (if in_range 65 90 c then char_of (of_char c + 32 :: nat) else c)"

definition eq_ignore_ascii_case :: "string \<Rightarrow> string \<Rightarrow> bool" where
  "eq_ignore_ascii_case a b \<longleftrightarrow> List.map lower a = List.map lower b"

definition handler_create_bucket :: "env \<Rightarrow> string \<Rightarrow> string \<Rightarrow> header_map \<Rightarrow> response handler" where
  "handler_create_bucket E region bucket hs =
     (let lock_enabled = (case header_str (e_crates E) hs ''x-amz-bucket-object-lock-enabled'' of
                            Some v \<Rightarrow> eq_ignore_ascii_case v ''true'' | None \<Rightarrow> False)
      in bnd (now_utc E) (\<lambda>now.
         catch (create_bucket E bucket
                 \<lparr>bc_created_at = now,
                  bc_versioning = (if lock_enabled then Enabled else Off),
                  bc_region = region, bc_cors_rules = [],
                  bc_object_lock = (if lock_enabled
                                    then Some \<lparr>olc_enabled = True, olc_default_retention = None\<rparr> else None),
                  bc_lifecycle_rules = []\<rparr>) (\<lambda>r.
           case r of
             Inr () \<Rightarrow>
               ret (if header_value_ok (e_crates E) (bucket_path bucket)
                    then insert_header ''location'' (bucket_path bucket) (empty_response 200)
                    else empty_response 200)
           | Inl (BucketExists _) \<Rightarrow>
               fail (with_resource (s3_error_new BucketAlreadyOwnedByYou ''bucket already exists'')
                      (bucket_path bucket))
           | Inl e \<Rightarrow> fail (map_meta_err E e))))"

definition handler_delete_bucket :: "env \<Rightarrow> string \<Rightarrow> response handler" where
  "handler_delete_bucket E bucket =
     catch (delete_bucket E bucket) (\<lambda>r.
       case r of
         Inr () \<Rightarrow> ret (empty_response 204)
       | Inl (BucketNotFound _) \<Rightarrow> fail (no_such_bucket bucket)
       | Inl (BucketNotEmpty _) \<Rightarrow>
           fail (with_resource (s3_error_new S3BucketNotEmpty ''bucket is not empty'') (bucket_path bucket))
       | Inl e \<Rightarrow> fail (map_meta_err E e))"

definition head_bucket :: "env \<Rightarrow> string \<Rightarrow> response handler" where
  "head_bucket E bucket =
     bnd (meta E (get_bucket E bucket)) (\<lambda>r.
       case r of Some _ \<Rightarrow> ret (empty_response 200) | None \<Rightarrow> fail (no_such_bucket bucket))"

definition get_bucket_location :: "env \<Rightarrow> string \<Rightarrow> response handler" where
  "get_bucket_location E bucket =
     bnd (meta E (get_bucket E bucket)) (\<lambda>r.
     bnd (ok_or r (no_such_bucket bucket)) (\<lambda>cfg.
     ret (xml_response (e_crates E) (LocationConstraintDoc (bc_region cfg)))))"

subsection \<open>Versioning\<close>

definition put_bucket_versioning :: "env \<Rightarrow> string \<Rightarrow> bytes \<Rightarrow> response handler" where
  "put_bucket_versioning E bucket body =
     (case parse_versioning_xml (e_crates E) body of
        Inl e \<Rightarrow>
          fail (with_resource (s3_error_new InvalidRequest
                  (''malformed VersioningConfiguration body: '' @ e)) (bucket_path bucket))
      | Inr cfg \<Rightarrow>
          bnd (case vc_status cfg of
                 Some s \<Rightarrow>
                   (if s = ''Enabled'' then ret Enabled
                    else if s = ''Suspended'' then ret Suspended
                    else fail (with_resource (s3_error_new InvalidArgument
                           (''invalid versioning Status '' @ [CHR 0x27] @ s @ [CHR 0x27])) (bucket_path bucket)))
               | None \<Rightarrow>
                   fail (with_resource (s3_error_new InvalidRequest
                           ''VersioningConfiguration must include a Status'') (bucket_path bucket))) (\<lambda>new_state.
          catch (update_bucket_versioning E bucket new_state) (\<lambda>r.
            case r of
              Inr () \<Rightarrow> ret (empty_response 200)
            | Inl (BucketNotFound _) \<Rightarrow> fail (no_such_bucket bucket)
            | Inl e \<Rightarrow> fail (map_meta_err E e))))"

definition get_bucket_versioning :: "env \<Rightarrow> string \<Rightarrow> response handler" where
  "get_bucket_versioning E bucket =
     bnd (meta E (get_bucket E bucket)) (\<lambda>r.
     bnd (ok_or r (no_such_bucket bucket)) (\<lambda>cfg.
     ret (xml_response (e_crates E) (VersioningDoc
       \<lparr>vc_status = (case bc_versioning cfg of
          Off \<Rightarrow> None | Enabled \<Rightarrow> Some ''Enabled'' | Suspended \<Rightarrow> Some ''Suspended'')\<rparr>))))"

subsection \<open>Lifecycle configuration\<close>

definition rule_of_xml :: "lifecycle_rule_xml \<Rightarrow> lifecycle_rule" where
  "rule_of_xml r =
     \<lparr>lr_id = lx_id r,
      lr_status = (if lx_status r = ''Enabled'' then RuleEnabled else RuleDisabled),
      lr_filter_prefix = (case lx_filter r of Some p \<Rightarrow> p | None \<Rightarrow> None),
      lr_expiration = map_option (\<lambda>n. \<lparr>le_days = n\<rparr>) (lx_expiration r),
      lr_noncurrent_version_expiration = map_option (\<lambda>n. \<lparr>nve_noncurrent_days = n\<rparr>) (lx_noncurrent r),
      lr_abort_incomplete_multipart_upload = map_option (\<lambda>n. \<lparr>aim_days_after_initiation = n\<rparr>) (lx_abort r)\<rparr>"

definition xml_of_rule :: "lifecycle_rule \<Rightarrow> lifecycle_rule_xml" where
  "xml_of_rule r =
     \<lparr>lx_id = lr_id r,
      lx_status = (case lr_status r of RuleEnabled \<Rightarrow> ''Enabled'' | RuleDisabled \<Rightarrow> ''Disabled''),
      lx_filter = map_option Some (lr_filter_prefix r),
      lx_expiration = map_option le_days (lr_expiration r),
      lx_noncurrent = map_option nve_noncurrent_days (lr_noncurrent_version_expiration r),
      lx_abort = map_option aim_days_after_initiation (lr_abort_incomplete_multipart_upload r)\<rparr>"

definition update_lifecycle_or_404 :: "env \<Rightarrow> string \<Rightarrow> lifecycle_rule list \<Rightarrow> nat \<Rightarrow> response handler" where
  "update_lifecycle_or_404 E bucket rules ok_status =
     catch (update_bucket_lifecycle E bucket rules) (\<lambda>r.
       case r of
         Inr () \<Rightarrow> ret (empty_response ok_status)
       | Inl (BucketNotFound _) \<Rightarrow> fail (no_such_bucket bucket)
       | Inl e \<Rightarrow> fail (map_meta_err E e))"

definition put_bucket_lifecycle :: "env \<Rightarrow> string \<Rightarrow> bytes \<Rightarrow> response handler" where
  "put_bucket_lifecycle E bucket body =
     (case parse_lifecycle_xml (e_crates E) body of
        Inl e \<Rightarrow>
          fail (with_resource (s3_error_new InvalidRequest
                  (''malformed LifecycleConfiguration body: '' @ e)) (bucket_path bucket))
      | Inr parsed \<Rightarrow> update_lifecycle_or_404 E bucket (List.map rule_of_xml (lx_rules parsed)) 200)"

definition get_bucket_lifecycle :: "env \<Rightarrow> string \<Rightarrow> response handler" where
  "get_bucket_lifecycle E bucket =
     bnd (meta E (get_bucket E bucket)) (\<lambda>r.
     bnd (ok_or r (no_such_bucket bucket)) (\<lambda>cfg.
     if bc_lifecycle_rules cfg = []
     then fail (with_resource (s3_error_new NoSuchLifecycleConfiguration
                  ''no lifecycle configuration found'') (bucket_path bucket))
     else ret (xml_response (e_crates E)
            (LifecycleDoc \<lparr>lx_rules = List.map xml_of_rule (bc_lifecycle_rules cfg)\<rparr>))))"

definition delete_bucket_lifecycle :: "env \<Rightarrow> string \<Rightarrow> response handler" where
  "delete_bucket_lifecycle E bucket = update_lifecycle_or_404 E bucket [] 204"

subsection \<open>Facts\<close>

text \<open>A stored lifecycle rule survives the trip through its XML form.\<close>

lemma one_field_records:
  "\<lparr>le_days = le_days x\<rparr> = x" "\<lparr>nve_noncurrent_days = nve_noncurrent_days y\<rparr> = y"
  "\<lparr>aim_days_after_initiation = aim_days_after_initiation z\<rparr> = z"
  by simp_all

lemma rule_of_xml_of_rule [simp]: "rule_of_xml (xml_of_rule r) = r"
  by (cases r) (auto simp: rule_of_xml_def xml_of_rule_def option.map_comp comp_def one_field_records
      option.map_ident split: lifecycle_status.split option.split)

lemma keeps_meta [intro]: "keeps P m \<Longrightarrow> keeps P (meta E m)"
  by (simp add: meta_def keeps_map_err)

lemmas keeps_rules = keeps_bnd keeps_catch keeps_map_err keeps_reply_as keeps_meta

lemma map_meta_err_code [simp]: "se_code (map_meta_err E e) = InternalError"
  by (simp add: map_meta_err_def)

end
