(* ===== verification/Tagging.thy ===== *)
theory Tagging
  imports Bucket
begin

text \<open>
  \<^verbatim>\<open>src/s3/tagging.rs\<close>: reading, replacing and clearing the tags of an object, and the
  \<^verbatim>\<open>x-amz-tagging\<close> header.
\<close>

definition object_manifest :: "manifest \<Rightarrow> bool" where
  "object_manifest m \<longleftrightarrow> m_state m = Committed \<and> m_kind m = Object"

text \<open>\<^verbatim>\<open>option.filter(p)\<close>\<close>

definition filter_option :: "('a \<Rightarrow> bool) \<Rightarrow> 'a option \<Rightarrow> 'a option" where
  "filter_option p v = (case v of Some a \<Rightarrow> (if p a then Some a else None) | None \<Rightarrow> None)"

definition load_target :: "env \<Rightarrow> string \<Rightarrow> string \<Rightarrow> string option \<Rightarrow> manifest handler" where
  "load_target E bucket key version_id =
     bnd (case version_id of
            Some vid \<Rightarrow> meta E (get_manifest E (new_key bucket key vid))
          | None \<Rightarrow> meta E (get_latest_version E bucket key)) (\<lambda>result.
     ok_or (filter_option object_manifest result)
       (with_resource (s3_error_new NoSuchKey ''key does not exist'') (object_path bucket key)))"

definition get_object_tagging :: "env \<Rightarrow> string \<Rightarrow> string \<Rightarrow> string option \<Rightarrow> response handler" where
  "get_object_tagging E bucket key version_id =
     bnd (load_target E bucket key version_id) (\<lambda>m.
     ret (xml_response (e_crates E)
       (TaggingDoc \<lparr>tag_set = map (\<lambda>(k, v). \<lparr>tg_key = k, tg_value = v\<rparr>) (tbl_iter (m_tags m))\<rparr>)))"

definition put_object_tagging :: "env \<Rightarrow> string \<Rightarrow> string \<Rightarrow> string option \<Rightarrow> bytes \<Rightarrow> response handler" where
  "put_object_tagging E bucket key version_id body =
     bnd (load_target E bucket key version_id) (\<lambda>m.
     case parse_tagging_xml (e_crates E) body of
       Inl e \<Rightarrow>
         fail (with_resource (s3_error_new InvalidRequest (''malformed Tagging body: '' @ e))
                (object_path bucket key))
     | Inr parsed \<Rightarrow>
         bnd (meta E (update_manifest_tags E (m_key m)
                (tbl_collect (map (\<lambda>t. (tg_key t, tg_value t)) (tag_set parsed))))) (\<lambda>_.
         ret (empty_response 200)))"

definition delete_object_tagging :: "env \<Rightarrow> string \<Rightarrow> string \<Rightarrow> string option \<Rightarrow> response handler" where
  "delete_object_tagging E bucket key version_id =
     bnd (load_target E bucket key version_id) (\<lambda>m.
     bnd (meta E (update_manifest_tags E (m_key m) [])) (\<lambda>_.
     ret (empty_response 204)))"

subsection \<open>The header form\<close>

definition tag_pair :: "string \<Rightarrow> string \<times> string" where
  "tag_pair p = (case split_once (CHR ''='') p of Some (k, v) \<Rightarrow> (form_decode k, form_decode v) | None \<Rightarrow> (form_decode p, form_decode []))"

definition insert_tag :: "(string, string) table \<Rightarrow> string \<Rightarrow> (string, string) table" where
  "insert_tag out p =
     (case tag_pair p of (key, value) \<Rightarrow> if key = [] then out else tbl_insert out key value)"

definition parse_x_amz_tagging :: "crates \<Rightarrow> header_map \<Rightarrow> s3_error + (string, string) table" where
  "parse_x_amz_tagging X hs =
     (case header_get hs ''x-amz-tagging'' of
        None \<Rightarrow> Inr []
      | Some v \<Rightarrow>
          (case header_to_str X v of
             None \<Rightarrow> Inl (s3_error_new InvalidRequest ''invalid x-amz-tagging header'')
           | Some raw \<Rightarrow>
               (if raw = [] then Inr []
                else Inr (foldl insert_tag [] (split_on (CHR ''&'') raw)))))"

subsection \<open>Facts\<close>

lemma insert_tag_ok: "tbl_ok t \<Longrightarrow> tbl_get t [] = None \<Longrightarrow> tbl_ok (insert_tag t p) \<and> tbl_get (insert_tag t p) [] = None"
  by (auto simp: insert_tag_def split: prod.split)

lemma fold_insert_tag_ok:
  "tbl_ok t \<Longrightarrow> tbl_get t [] = None \<Longrightarrow>
     tbl_ok (foldl insert_tag t ps) \<and> tbl_get (foldl insert_tag t ps) [] = None"
  by (induction ps arbitrary: t) (simp_all add: insert_tag_ok)

lemma parse_x_amz_tagging_ok:
  "parse_x_amz_tagging X hs = Inr tags \<Longrightarrow> tbl_ok tags \<and> tbl_get tags [] = None"
  using fold_insert_tag_ok [of "[]"] by (auto simp: parse_x_amz_tagging_def split: option.splits if_splits)

lemma keeps_load_target [simp, intro]: "keeps (world_inv E) (load_target E b k v)"
  unfolding load_target_def by (auto intro!: keeps_rules split: option.split)

end
