(* ===== verification/Lock.thy ===== *)
theory Lock
  imports Tagging
begin

text \<open>
  \<^verbatim>\<open>src/s3/lock.rs\<close>: Object Lock.  The bucket configuration, retention and legal hold of an
  object version, the lock headers of a PUT, and the default lock of a bucket.
\<close>

subsection \<open>Modes\<close>

definition quoted :: "string \<Rightarrow> string" where
  "quoted s = [CHR 0x27] @ s @ [CHR 0x27]"

definition parse_mode :: "string option \<Rightarrow> s3_error + lock_mode" where
  "parse_mode value =
     (case value of
        None \<Rightarrow> Inl (s3_error_new InvalidRequest ''lock Mode is required'')
      | Some s \<Rightarrow>
          (if s = ''COMPLIANCE'' then Inr Compliance
           else if s = ''GOVERNANCE''
           then Inl (s3_error_new InvalidArgument ''GOVERNANCE mode is not supported (Compliance only)'')
           else Inl (s3_error_new InvalidArgument (''invalid lock Mode '' @ quoted s))))"

definition mode_to_str :: "lock_mode \<Rightarrow> string" where
  "mode_to_str m = (case m of Compliance \<Rightarrow> ''COMPLIANCE'')"

subsection \<open>Locks for a new object\<close>

definition parse_lock_headers :: "crates \<Rightarrow> header_map \<Rightarrow> s3_error + object_lock option" where
  "parse_lock_headers X hs =
     (let mode = header_str X hs ''x-amz-object-lock-mode'';
          until = header_str X hs ''x-amz-object-lock-retain-until-date'';
          hold = header_str X hs ''x-amz-object-lock-legal-hold''
      in if mode = None \<and> until = None \<and> hold = None then Inr None
         else
           (case (case (mode, until) of
                    (Some m, Some d) \<Rightarrow>
                      (case parse_mode (Some m) of
                         Inl e \<Rightarrow> Inl e
                       | Inr md \<Rightarrow>
                           (case parse_rfc3339 X d of
                              None \<Rightarrow> Inl (s3_error_new InvalidRequest
                                       ''x-amz-object-lock-retain-until-date must be ISO 8601'')
                            | Some t \<Rightarrow> Inr (Some \<lparr>ret_mode = md, retain_until = t\<rparr>)))
                  | (None, None) \<Rightarrow> Inr None
                  | _ \<Rightarrow> Inl (s3_error_new InvalidRequest
                           ''x-amz-object-lock-mode and x-amz-object-lock-retain-until-date must be set together'')) of
              Inl e \<Rightarrow> Inl e
            | Inr retention \<Rightarrow>
                (case hold of
                   None \<Rightarrow> Inr (Some \<lparr>ol_retention = retention, ol_legal_hold = False\<rparr>)
                 | Some s \<Rightarrow>
                     (if s = ''ON'' then Inr (Some \<lparr>ol_retention = retention, ol_legal_hold = True\<rparr>)
                      else if s = ''OFF'' then Inr (Some \<lparr>ol_retention = retention, ol_legal_hold = False\<rparr>)
                      else Inl (s3_error_new InvalidArgument
                             (''invalid x-amz-object-lock-legal-hold '' @ quoted s))))))"

text \<open>
  \<^verbatim>\<open>default_lock_for_bucket\<close>; the addition to the current time panics outside the range of
  \<^verbatim>\<open>OffsetDateTime\<close>.
\<close>

definition default_lock_for_bucket :: "env \<Rightarrow> object_lock_config option \<Rightarrow> ('e, object_lock option) action" where
  "default_lock_for_bucket E cfg =
     (case cfg of
        None \<Rightarrow> ret None
      | Some lock_cfg \<Rightarrow>
          (if \<not> olc_enabled lock_cfg then ret None
           else case olc_default_retention lock_cfg of
             None \<Rightarrow> ret None
           | Some dr \<Rightarrow>
               bnd (now_utc E) (\<lambda>now.
               bnd (case dr_days dr of
                      Some days \<Rightarrow> bnd (unwrap (add_days now (int days))) (\<lambda>t. ret (Some t))
                    | None \<Rightarrow>
                        (case dr_years dr of
                           Some years \<Rightarrow> bnd (unwrap (add_days now (int years * 365))) (\<lambda>t. ret (Some t))
                         | None \<Rightarrow> ret None)) (\<lambda>until.
               ret (map_option (\<lambda>t.
                 \<lparr>ol_retention = Some \<lparr>ret_mode = dr_mode dr, retain_until = t\<rparr>, ol_legal_hold = False\<rparr>) until)))))"

subsection \<open>Bucket configuration\<close>

definition put_bucket_object_lock_config :: "env \<Rightarrow> string \<Rightarrow> bytes \<Rightarrow> response handler" where
  "put_bucket_object_lock_config E bucket body =
     (case parse_object_lock_xml (e_crates E) body of
        Inl e \<Rightarrow>
          fail (with_resource (s3_error_new InvalidRequest
                  (''malformed ObjectLockConfiguration body: '' @ e)) (bucket_path bucket))
      | Inr xml \<Rightarrow>
          bnd (meta E (get_bucket E bucket)) (\<lambda>b.
          bnd (ok_or b (no_such_bucket bucket)) (\<lambda>existing.
          let was_enabled = (case bc_object_lock existing of Some c \<Rightarrow> olc_enabled c | None \<Rightarrow> False);
              now_enabled = (olx_enabled xml = Some ''Enabled'')
          in if now_enabled \<and> \<not> was_enabled
             then fail (with_resource (s3_error_new InvalidRequest
                    ''Object Lock must be enabled at bucket creation (x-amz-bucket-object-lock-enabled)'')
                    (bucket_path bucket))
             else
               bnd (case olx_rule xml of
                      Some (Some d) \<Rightarrow>
                        bnd (lift (parse_mode (drx_mode d))) (\<lambda>md.
                        ret (Some \<lparr>dr_mode = md, dr_days = drx_days d, dr_years = drx_years d\<rparr>))
                    | _ \<Rightarrow> ret None) (\<lambda>default_retention.
               bnd (meta E (update_bucket_object_lock E bucket
                      (Some \<lparr>olc_enabled = was_enabled \<or> now_enabled,
                             olc_default_retention = default_retention\<rparr>))) (\<lambda>_.
               ret (empty_response 200))))))"

definition get_bucket_object_lock_config :: "env \<Rightarrow> string \<Rightarrow> response handler" where
  "get_bucket_object_lock_config E bucket =
     bnd (meta E (get_bucket E bucket)) (\<lambda>b.
     bnd (ok_or b (no_such_bucket bucket)) (\<lambda>cfg.
     let lock_cfg = (case bc_object_lock cfg of Some c \<Rightarrow> c | None \<Rightarrow> default_object_lock_config)
     in ret (xml_response (e_crates E) (ObjectLockDoc
          \<lparr>olx_enabled = (if olc_enabled lock_cfg then Some ''Enabled'' else None),
           olx_rule = map_option (\<lambda>d. Some
             \<lparr>drx_mode = Some (mode_to_str (dr_mode d)), drx_days = dr_days d, drx_years = dr_years d\<rparr>)
             (olc_default_retention lock_cfg)\<rparr>))))"

subsection \<open>Retention and legal hold\<close>

text \<open>\<^verbatim>\<open>require_object_with_version\<close> is the same code as \<^verbatim>\<open>load_target\<close> of \<^verbatim>\<open>tagging.rs\<close>.\<close>

definition require_object_with_version :: "env \<Rightarrow> string \<Rightarrow> string \<Rightarrow> string option \<Rightarrow> manifest handler" where
  "require_object_with_version E bucket key version_id =
     bnd (case version_id of
            Some vid \<Rightarrow> meta E (get_manifest E (new_key bucket key vid))
          | None \<Rightarrow> meta E (get_latest_version E bucket key)) (\<lambda>result.
     ok_or (filter_option (\<lambda>m. m_state m = Committed \<and> m_kind m = Object) result)
       (with_resource (s3_error_new NoSuchKey ''key does not exist'') (object_path bucket key)))"

definition put_object_retention :: "env \<Rightarrow> string \<Rightarrow> string \<Rightarrow> string option \<Rightarrow> bytes \<Rightarrow> response handler" where
  "put_object_retention E bucket key version_id body =
     (case parse_retention_xml (e_crates E) body of
        Inl e \<Rightarrow>
          fail (with_resource (s3_error_new InvalidRequest (''malformed Retention body: '' @ e))
                 (object_path bucket key))
      | Inr xml \<Rightarrow>
          bnd (lift (parse_mode (Some (rx_mode xml)))) (\<lambda>md.
          bnd (ok_or (parse_rfc3339 (e_crates E) (rx_retain_until_date xml))
                (with_resource (s3_error_new InvalidRequest ''RetainUntilDate must be ISO 8601'')
                   (object_path bucket key))) (\<lambda>until.
          bnd (require_object_with_version E bucket key version_id) (\<lambda>m.
          if (case m_object_lock m of
                Some l \<Rightarrow> (case ol_retention l of Some r \<Rightarrow> until < retain_until r | None \<Rightarrow> False)
              | None \<Rightarrow> False)
          then fail (with_resource (s3_error_new AccessForbidden
                 ''Compliance retention period cannot be shortened'') (object_path bucket key))
          else
            bnd (meta E (update_manifest_lock E (m_key m)
                   (Some \<lparr>ol_retention = Some \<lparr>ret_mode = md, retain_until = until\<rparr>,
                          ol_legal_hold = (case m_object_lock m of Some l \<Rightarrow> ol_legal_hold l | None \<Rightarrow> False)\<rparr>))) (\<lambda>_.
            ret (empty_response 200))))))"

definition get_object_retention :: "env \<Rightarrow> string \<Rightarrow> string \<Rightarrow> string option \<Rightarrow> response handler" where
  "get_object_retention E bucket key version_id =
     bnd (require_object_with_version E bucket key version_id) (\<lambda>m.
     let none = with_resource (s3_error_new InvalidRequest ''no retention configured for this object'')
                  (object_path bucket key)
     in bnd (ok_or (m_object_lock m) none) (\<lambda>lock.
        bnd (ok_or (ol_retention lock) none) (\<lambda>r.
        ret (xml_response (e_crates E) (RetentionDoc
          \<lparr>rx_mode = mode_to_str (ret_mode r),
           rx_retain_until_date = format_rfc3339 (e_crates E) (retain_until r)\<rparr>)))))"

definition put_object_legal_hold :: "env \<Rightarrow> string \<Rightarrow> string \<Rightarrow> string option \<Rightarrow> bytes \<Rightarrow> response handler" where
  "put_object_legal_hold E bucket key version_id body =
     (case parse_legal_hold_xml (e_crates E) body of
        Inl e \<Rightarrow>
          fail (with_resource (s3_error_new InvalidRequest (''malformed LegalHold body: '' @ e))
                 (object_path bucket key))
      | Inr xml \<Rightarrow>
          bnd (if lhx_status xml = ''ON'' then ret True
               else if lhx_status xml = ''OFF'' then ret False
               else fail (with_resource (s3_error_new InvalidArgument
                      (''invalid LegalHold Status '' @ quoted (lhx_status xml))) (object_path bucket key))) (\<lambda>on.
          bnd (require_object_with_version E bucket key version_id) (\<lambda>m.
          bnd (meta E (update_manifest_lock E (m_key m)
                 (Some \<lparr>ol_retention = (case m_object_lock m of Some l \<Rightarrow> ol_retention l | None \<Rightarrow> None),
                        ol_legal_hold = on\<rparr>))) (\<lambda>_.
          ret (empty_response 200)))))"

definition get_object_legal_hold :: "env \<Rightarrow> string \<Rightarrow> string \<Rightarrow> string option \<Rightarrow> response handler" where
  "get_object_legal_hold E bucket key version_id =
     bnd (require_object_with_version E bucket key version_id) (\<lambda>m.
     ret (xml_response (e_crates E) (LegalHoldDoc
       \<lparr>lhx_status = (case m_object_lock m of
          Some l \<Rightarrow> (if ol_legal_hold l then ''ON'' else ''OFF'') | None \<Rightarrow> ''OFF'')\<rparr>)))"

end
