(* ===== verification/Checksum.thy ===== *)
theory Checksum
  imports Text
begin

text \<open>
  \<^verbatim>\<open>src/s3/checksum.rs\<close>: the additional checksums of a request.  The algorithms themselves
  are third-party code (theory \<^theory_text>\<open>Crates\<close>).
\<close>

fun header_name_for :: "checksum_algorithm \<Rightarrow> string" where
  "header_name_for Crc32 = ''x-amz-checksum-crc32''"
| "header_name_for Crc32c = ''x-amz-checksum-crc32c''"
| "header_name_for Sha1 = ''x-amz-checksum-sha1''"
| "header_name_for Sha256 = ''x-amz-checksum-sha256''"

definition header_bindings :: "(checksum_algorithm \<times> string) list" where
  "header_bindings =
     [(Crc32, ''x-amz-checksum-crc32''), (Crc32c, ''x-amz-checksum-crc32c''),
      (Sha1, ''x-amz-checksum-sha1''), (Sha256, ''x-amz-checksum-sha256'')]"

fun expected_len :: "checksum_algorithm \<Rightarrow> nat" where
  "expected_len Crc32 = 4"
| "expected_len Crc32c = 4"
| "expected_len Sha1 = 20"
| "expected_len Sha256 = 32"

fun checksum_compute :: "crates \<Rightarrow> checksum_algorithm \<Rightarrow> bytes \<Rightarrow> bytes" where
  "checksum_compute X Crc32 d = crc32_be X d"
| "checksum_compute X Crc32c d = crc32c_be X d"
| "checksum_compute X Sha1 d = sha1 X d"
| "checksum_compute X Sha256 d = sha256 X d"

text \<open>The loop over the header bindings; \<open>found\<close> is the algorithm and raw value seen so far.\<close>

fun find_checksum ::
  "crates \<Rightarrow> header_map \<Rightarrow> (checksum_algorithm \<times> string) list \<Rightarrow> (checksum_algorithm \<times> string) option \<Rightarrow>
   s3_error + (checksum_algorithm \<times> string) option" where
  "find_checksum X hs [] found = Inr found"
| "find_checksum X hs ((algo, name) # rest) found =
     (case header_get hs name of
        None \<Rightarrow> find_checksum X hs rest found
      | Some v \<Rightarrow>
          (case header_to_str X v of
             None \<Rightarrow> Inl (s3_error_new InvalidRequest (''invalid '' @ name @ '' header''))
           | Some s \<Rightarrow>
               (if found \<noteq> None
                then Inl (s3_error_new InvalidRequest ''more than one x-amz-checksum-* header supplied'')
                else find_checksum X hs rest (Some (algo, s)))))"

definition parse_request_checksum :: "crates \<Rightarrow> header_map \<Rightarrow> s3_error + additional_checksum option" where
  "parse_request_checksum X hs =
     (case find_checksum X hs header_bindings None of
        Inl e \<Rightarrow> Inl e
      | Inr None \<Rightarrow> Inr None
      | Inr (Some (algo, raw)) \<Rightarrow>
          (case base64_decode X raw of
             None \<Rightarrow>
               Inl (s3_error_new InvalidRequest (header_name_for algo @ '' checksum is not valid base64''))
           | Some bs \<Rightarrow>
               (if length bs \<noteq> expected_len algo
                then Inl (s3_error_new InvalidRequest
                       (header_name_for algo @ '' checksum must be '' @ show_nat (expected_len algo) @ '' bytes''))
                else Inr (Some \<lparr>ac_algorithm = algo, ac_value = bs\<rparr>))))"

definition checksum_verify :: "crates \<Rightarrow> additional_checksum \<Rightarrow> bytes \<Rightarrow> s3_error + unit" where
  "checksum_verify X expected data =
     (if checksum_compute X (ac_algorithm expected) data \<noteq> ac_value expected
      then Inl (s3_error_new BadDigest (header_name_for (ac_algorithm expected) @ '' checksum mismatch''))
      else Inr ())"

definition encode_value :: "crates \<Rightarrow> bytes \<Rightarrow> string" where
  "encode_value X v = base64_encode X v"

subsection \<open>Facts\<close>

lemma header_bindings_names: "(a, n) \<in> set header_bindings \<Longrightarrow> n = header_name_for a"
  by (auto simp: header_bindings_def)

lemma header_name_for_inj: "header_name_for a = header_name_for b \<longleftrightarrow> a = b"
  by (cases a; cases b; simp)

lemma find_checksum_found:
  "find_checksum X hs bs found = Inr r \<Longrightarrow> found \<noteq> None \<Longrightarrow>
     r = found \<and> (\<forall>(a, n)\<in>set bs. header_get hs n = None)"
  by (induction X hs bs found rule: find_checksum.induct) (auto split: option.splits)

lemma find_checksum_Inr:
  "find_checksum X hs bs None = Inr r \<Longrightarrow>
     (case r of
        None \<Rightarrow> \<forall>(a, n)\<in>set bs. header_get hs n = None
      | Some (a, s) \<Rightarrow> \<exists>n v. (a, n) \<in> set bs \<and> header_get hs n = Some v \<and> header_to_str X v = Some s \<and>
          (\<forall>(a', n')\<in>set bs. (a', n') \<noteq> (a, n) \<longrightarrow> header_get hs n' = None))"
proof (induction bs)
  case (Cons b bs)
  obtain a n where b: "b = (a, n)" by (cases b)
  show ?case
  proof (cases "header_get hs n")
    case None
    then show ?thesis using Cons by (auto simp: b split: option.splits)
  next
    case (Some v)
    then obtain s where s: "header_to_str X v = Some s" "find_checksum X hs bs (Some (a, s)) = Inr r"
      using Cons.prems by (auto simp: b split: option.splits)
    from find_checksum_found [OF s(2)] Some s show ?thesis by (fastforce simp: b)
  qed
qed auto

text \<open>
  A parsed checksum comes from the one checksum header of the request, has the length of its
  algorithm, and every other checksum header is absent.
\<close>

lemma parse_request_checksum_Some:
  assumes "parse_request_checksum X hs = Inr (Some ac)"
  shows "length (ac_value ac) = expected_len (ac_algorithm ac)"
    and "\<exists>v s. header_get hs (header_name_for (ac_algorithm ac)) = Some v \<and> header_to_str X v = Some s \<and>
      base64_decode X s = Some (ac_value ac)"
    and "\<And>a. a \<noteq> ac_algorithm ac \<Longrightarrow> header_get hs (header_name_for a) = None"
proof -
  obtain algo raw where f: "find_checksum X hs header_bindings None = Inr (Some (algo, raw))"
    and d: "base64_decode X raw = Some (ac_value ac)" "length (ac_value ac) = expected_len algo"
    and a: "ac_algorithm ac = algo"
    using assms by (auto simp: parse_request_checksum_def split: sum.splits option.splits if_splits)
  show "length (ac_value ac) = expected_len (ac_algorithm ac)" using a d by simp
  obtain n v where n: "(algo, n) \<in> set header_bindings" "header_get hs n = Some v" "header_to_str X v = Some raw"
    and others: "\<forall>(a', n')\<in>set header_bindings. (a', n') \<noteq> (algo, n) \<longrightarrow> header_get hs n' = None"
    using find_checksum_Inr [OF f] by auto
  note n' = header_bindings_names [OF n(1)]
  show "\<exists>v s. header_get hs (header_name_for (ac_algorithm ac)) = Some v \<and> header_to_str X v = Some s \<and>
      base64_decode X s = Some (ac_value ac)"
    using n d(1) by (auto simp: a n')
  show "header_get hs (header_name_for a') = None" if "a' \<noteq> ac_algorithm ac" for a'
  proof -
    have "(a', header_name_for a') \<in> set header_bindings" by (cases a') (auto simp: header_bindings_def)
    then show ?thesis using others that by (auto simp: a)
  qed
qed

end
