(* ===== verification/Object.thy ===== *)
theory Object
  imports Lock Checksum
begin

text \<open>
  \<^verbatim>\<open>src/s3/object.rs\<close>: PUT, GET, HEAD and DELETE of objects, with their preconditions, the
  range header and the version rules.
\<close>

definition null_version_id :: string where
  "null_version_id = ''null''"

definition next_version_id :: "env \<Rightarrow> versioning_state \<Rightarrow> ('e, string) action" where
  "next_version_id E vs =
     (case vs of Enabled \<Rightarrow> new_uuid E | Off \<Rightarrow> ret null_version_id | Suspended \<Rightarrow> ret null_version_id)"

definition require_bucket :: "env \<Rightarrow> string \<Rightarrow> bucket_config handler" where
  "require_bucket E bucket =
     bnd (meta E (get_bucket E bucket)) (\<lambda>b.
     ok_or b (with_resource (s3_error_new NoSuchBucket ''bucket does not exist'') (bucket_path bucket)))"

definition no_such_key :: "string \<Rightarrow> string \<Rightarrow> s3_error" where
  "no_such_key bucket key =
     with_resource (s3_error_new NoSuchKey ''key does not exist'') (object_path bucket key)"

definition locked_error :: "string \<Rightarrow> string \<Rightarrow> s3_error" where
  "locked_error bucket key =
     with_resource (s3_error_new AccessForbidden ''object is locked by retention or legal hold'')
       (object_path bucket key)"

subsection \<open>Request headers\<close>

definition parse_content_md5 :: "crates \<Rightarrow> header_map \<Rightarrow> s3_error + bytes option" where
  "parse_content_md5 X hs =
     (case header_get hs ''content-md5'' of
        None \<Rightarrow> Inr None
      | Some v \<Rightarrow>
          (case header_to_str X v of
             None \<Rightarrow> Inl (s3_error_new InvalidRequest ''invalid Content-MD5 header'')
           | Some s \<Rightarrow>
               (case base64_decode X s of
                  None \<Rightarrow> Inl (s3_error_new InvalidRequest ''Content-MD5 not valid base64'')
                | Some bs \<Rightarrow>
                    (if length bs = 16 then Inr (Some bs)
                     else Inl (s3_error_new InvalidRequest ''Content-MD5 must be 16 bytes'')))))"

definition bad_range :: "string \<Rightarrow> s3_error + 'a" where
  "bad_range msg = Inl (s3_error_new InvalidArgument msg)"

text \<open>The two sides of the range specification, before the final check against the size.\<close>

definition range_bounds :: "nat \<Rightarrow> string \<Rightarrow> string \<Rightarrow> s3_error + (nat \<times> nat) option" where
  "range_bounds object_size start_str end_str =
     (let last_index = object_size - 1
      in if start_str \<noteq> [] \<and> end_str \<noteq> [] then
           (case parse_u64 start_str of
              None \<Rightarrow> bad_range ''bad Range start''
            | Some s \<Rightarrow>
                (case parse_u64 end_str of
                   None \<Rightarrow> bad_range ''bad Range end''
                 | Some e \<Rightarrow> Inr (Some (s, min e last_index))))
         else if start_str \<noteq> [] then
           (case parse_u64 start_str of
              None \<Rightarrow> bad_range ''bad Range start''
            | Some s \<Rightarrow> Inr (Some (s, last_index)))
         else if end_str \<noteq> [] then
           (case parse_u64 end_str of
              None \<Rightarrow> bad_range ''bad suffix Range''
            | Some sfx \<Rightarrow>
                (if sfx = 0 \<or> object_size = 0 then Inr None
                 else Inr (Some (object_size - sfx, last_index))))
         else bad_range ''Range must have at least one bound'')"

definition parse_range_header :: "crates \<Rightarrow> header_map \<Rightarrow> nat \<Rightarrow> s3_error + (nat \<times> nat) option" where
  "parse_range_header X hs object_size =
     (case header_get hs ''range'' of
        None \<Rightarrow> Inr None
      | Some v \<Rightarrow>
          (case header_to_str X v of
             None \<Rightarrow> bad_range ''invalid Range header''
           | Some v' \<Rightarrow>
               (case strip_prefix ''bytes='' v' of
                  None \<Rightarrow> bad_range ''Range must use bytes unit''
                | Some spec \<Rightarrow>
                    (if CHR '','' \<in> set spec then bad_range ''multi-range requests are not supported''
                     else case split_once (CHR ''-'') spec of
                       None \<Rightarrow> bad_range (''Range must contain '' @ quoted ''-'')
                     | Some (start_str, end_str) \<Rightarrow>
                         (case range_bounds object_size start_str end_str of
                            Inl e \<Rightarrow> Inl e
                          | Inr None \<Rightarrow> Inr None
                          | Inr (Some (start, e)) \<Rightarrow>
                              (if object_size = 0 \<or> object_size - 1 < start \<or> e < start then Inr None
                               else Inr (Some (start, e))))))))"

subsection \<open>Preconditions\<close>

definition etag_matches :: "string \<Rightarrow> string \<Rightarrow> bool" where
  "etag_matches raw tag =
     (let trimmed = trim raw
      in trimmed = ''*'' \<or> list_ex (\<lambda>p. trim p = tag) (split_on (CHR '','') trimmed))"

definition precondition_failed :: "string \<Rightarrow> string \<Rightarrow> string \<Rightarrow> s3_error" where
  "precondition_failed bucket key msg =
     with_resource (s3_error_new PreconditionFailed msg) (object_path bucket key)"

text \<open>\<^verbatim>\<open>existing.as_ref().is_some_and(|m| etag_matches(raw, &m.etag()))\<close>\<close>

definition etag_of_existing_matches :: "crates \<Rightarrow> string \<Rightarrow> manifest option \<Rightarrow> bool handler" where
  "etag_of_existing_matches X raw existing =
     (case existing of
        None \<Rightarrow> ret False
      | Some m \<Rightarrow> bnd (unwrap (etag X m)) (\<lambda>t. ret (etag_matches raw t)))"

definition check_put_preconditions :: "env \<Rightarrow> string \<Rightarrow> string \<Rightarrow> header_map \<Rightarrow> unit handler" where
  "check_put_preconditions E bucket key hs =
     (let X = e_crates E;
          if_match = header_str X hs ''if-match'';
          if_none_match = header_str X hs ''if-none-match''
      in if if_match = None \<and> if_none_match = None then ret ()
         else
           bnd (meta E (get_manifest E (new_key bucket key null_version_id))) (\<lambda>found.
           let existing = filter_option (\<lambda>m. m_state m = Committed \<and> m_kind m = Object) found
           in bnd (case if_match of
                     None \<Rightarrow> ret ()
                   | Some im \<Rightarrow>
                       bnd (etag_of_existing_matches X im existing) (\<lambda>pass.
                       fail_if (\<not> pass) (precondition_failed bucket key ''If-Match failed''))) (\<lambda>_.
              case if_none_match of
                None \<Rightarrow> ret ()
              | Some inm \<Rightarrow>
                  bnd (etag_of_existing_matches X inm existing) (\<lambda>blocks.
                  fail_if blocks (precondition_failed bucket key ''If-None-Match failed'')))))"

definition parse_http_date :: "crates \<Rightarrow> string \<Rightarrow> timestamp option" where
  "parse_http_date X s =
     (case parse_imf_fixdate X s of Some t \<Rightarrow> Some t | None \<Rightarrow> parse_rfc3339 X s)"

definition header_date :: "crates \<Rightarrow> header_map \<Rightarrow> string \<Rightarrow> timestamp option" where
  "header_date X hs name = (case header_str X hs name of None \<Rightarrow> None | Some s \<Rightarrow> parse_http_date X s)"

definition evaluate_preconditions ::
  "crates \<Rightarrow> header_map \<Rightarrow> string \<Rightarrow> timestamp \<Rightarrow> string \<Rightarrow> string \<Rightarrow> response option" where
  "evaluate_preconditions X hs tag last_modified bucket key =
     (if (case header_str X hs ''if-match'' of Some im \<Rightarrow> \<not> etag_matches im tag | None \<Rightarrow> False)
      then Some (error_response X (precondition_failed bucket key ''If-Match failed''))
      else if (case header_str X hs ''if-none-match'' of Some inm \<Rightarrow> etag_matches inm tag | None \<Rightarrow> False)
      then Some (empty_response 304)
      else if (case header_date X hs ''if-unmodified-since'' of Some t \<Rightarrow> t < last_modified | None \<Rightarrow> False)
      then Some (error_response X (precondition_failed bucket key ''If-Unmodified-Since failed''))
      else if (case header_date X hs ''if-modified-since'' of Some t \<Rightarrow> last_modified \<le> t | None \<Rightarrow> False)
      then Some (empty_response 304)
      else None)"

subsection \<open>PUT\<close>

definition at_object :: "string \<Rightarrow> string \<Rightarrow> s3_error + 'a \<Rightarrow> s3_error + 'a" where
  "at_object bucket key r =
     (case r of Inl e \<Rightarrow> Inl (with_resource e (object_path bucket key)) | Inr a \<Rightarrow> Inr a)"

definition part_write_err :: "string \<Rightarrow> s3_error" where
  "part_write_err e = s3_error_new InternalError (''part write: '' @ e)"

definition set_version_header :: "crates \<Rightarrow> versioning_state \<Rightarrow> string \<Rightarrow> response \<Rightarrow> response" where
  "set_version_header X vs vid r = (if vs = Enabled then set_header X ''x-amz-version-id'' vid r else r)"

definition set_checksum_header :: "crates \<Rightarrow> additional_checksum option \<Rightarrow> response \<Rightarrow> response" where
  "set_checksum_header X ac r =
     (case ac of
        None \<Rightarrow> r
      | Some c \<Rightarrow> set_header X (header_name_for (ac_algorithm c)) (encode_value X (ac_value c)) r)"

definition put_object :: "env \<Rightarrow> string \<Rightarrow> string \<Rightarrow> header_map \<Rightarrow> bytes \<Rightarrow> response handler" where
  "put_object E bucket key hs body =
     (let X = e_crates E in
      bnd (require_bucket E bucket) (\<lambda>cfg.
      bnd (check_put_preconditions E bucket key hs) (\<lambda>_.
      bnd (lift (parse_content_md5 X hs)) (\<lambda>expected.
      bnd (fail_if (case expected of Some x \<Rightarrow> x \<noteq> md5 X body | None \<Rightarrow> False)
             (with_resource (s3_error_new BadDigest ''Content-MD5 header did not match computed digest'')
                (object_path bucket key))) (\<lambda>_.
      bnd (lift (at_object bucket key (parse_request_checksum X hs))) (\<lambda>ac.
      bnd (case ac of Some c \<Rightarrow> lift (at_object bucket key (checksum_verify X c body)) | None \<Rightarrow> ret ()) (\<lambda>_.
      bnd (map_err part_write_err (write_bytes E body)) (\<lambda>part.
      bnd (next_version_id E (bc_versioning cfg)) (\<lambda>version_id.
      bnd (lift (at_object bucket key (parse_x_amz_tagging X hs))) (\<lambda>tags.
      bnd (lift (at_object bucket key (parse_lock_headers X hs))) (\<lambda>header_lock.
      bnd (case header_lock of
             Some l \<Rightarrow> ret (Some l)
           | None \<Rightarrow> default_lock_for_bucket E (bc_object_lock cfg)) (\<lambda>lock.
      bnd (now_utc E) (\<lambda>now.
      let m = \<lparr>m_key = new_key bucket key version_id, m_state = Committed, m_kind = Object,
               m_upload_mode = SinglePut,
               m_parts = [\<lparr>pr_part_number = 1, pr_hash = pw_hash part, pr_md5 = pw_md5 part, pr_size = pw_size part\<rparr>],
               m_size = pw_size part, m_content_type = header_str X hs ''content-type'',
               m_user_metadata = extract_user_metadata X hs, m_tags = tags,
               m_additional_checksum = ac, m_storage_class = ''STANDARD'', m_object_lock = lock,
               m_created_at = now, m_last_modified = now, m_upload_id = None\<rparr>
      in bnd (unwrap (etag X m)) (\<lambda>tag.
         bnd (meta E (put_manifest E m)) (\<lambda>freed.
         bnd (gc_freed_parts E freed) (\<lambda>_.
         bnd (emit \<lparr>oe_type = ObjectCreatedPut, oe_bucket = bucket, oe_key = key, oe_size = m_size m,
                    oe_etag = tag,
                    oe_version_id = (if bc_versioning cfg = Enabled then Some version_id else None)\<rparr>) (\<lambda>_.
         ret (set_checksum_header X ac
               (set_version_header X (bc_versioning cfg) version_id
                 (set_header X ''etag'' tag (empty_response 200)))))))))))))))))))))"

subsection \<open>GET and HEAD\<close>

definition read_err :: "read_error \<Rightarrow> s3_error" where
  "read_err e =
     (case e of
        OpenFailed t \<Rightarrow> s3_error_new InternalError (''part open: '' @ t)
      | ReadFailed t \<Rightarrow> s3_error_new InternalError (''part read: '' @ t))"

text \<open>\<^verbatim>\<open>&buf[lo..hi]\<close>: out of bounds panics.\<close>

definition slice :: "nat \<Rightarrow> nat \<Rightarrow> bytes \<Rightarrow> bytes option" where
  "slice lo hi buf = (if lo \<le> hi \<and> hi \<le> length buf then Some (take (hi - lo) (drop lo buf)) else None)"

definition read_all_parts :: "env \<Rightarrow> part_ref list \<Rightarrow> bytes handler" where
  "read_all_parts E ps =
     for_each (\<lambda>p buf. bnd (map_err read_err (read_part E (pr_hash p))) (\<lambda>data. ret (buf @ data))) ps []"

definition format_http_date :: "crates \<Rightarrow> timestamp \<Rightarrow> string" where
  "format_http_date X t = format_imf_fixdate X t"

definition find_version :: "env \<Rightarrow> string \<Rightarrow> string \<Rightarrow> string option \<Rightarrow> manifest handler" where
  "find_version E bucket key version_id =
     (case version_id of
        Some vid \<Rightarrow>
          bnd (meta E (get_manifest E (new_key bucket key vid))) (\<lambda>m.
          ok_or (filter_option (\<lambda>m. m_state m = Committed) m) (no_such_key bucket key))
      | None \<Rightarrow>
          bnd (meta E (get_latest_version E bucket key)) (\<lambda>m.
          ok_or m (no_such_key bucket key)))"

text \<open>The headers of a full or partial response, in the order they are set.\<close>

definition object_headers :: "crates \<Rightarrow> manifest \<Rightarrow> string \<Rightarrow> (nat \<times> nat) option \<Rightarrow> response \<Rightarrow> response" where
  "object_headers X m tag rng resp =
     (let r = set_header X ''etag'' tag resp;
          r = set_header X ''last-modified'' (format_http_date X (m_last_modified m)) r;
          r = set_header X ''x-amz-version-id'' (mk_version_id (m_key m)) r;
          r = set_header X ''content-type''
                (case m_content_type m of Some ct \<Rightarrow> ct | None \<Rightarrow> ''binary/octet-stream'') r;
          r = (case rng of
                 Some (s, e) \<Rightarrow>
                   set_header X ''content-length'' (show_nat (e - s + 1))
                     (set_header X ''content-range''
                       (''bytes '' @ show_nat s @ ''-'' @ show_nat e @ ''/'' @ show_nat (m_size m)) r)
               | None \<Rightarrow> set_header X ''content-length'' (show_nat (m_size m)) r);
          r = set_header X ''accept-ranges'' ''bytes'' r;
          r = set_header X ''x-amz-storage-class'' (m_storage_class m) r;
          r = (if rng = None then set_checksum_header X (m_additional_checksum m) r else r)
      in foldl (\<lambda>r e. set_header X (''x-amz-meta-'' @ fst e) (snd e) r) r (tbl_iter (m_user_metadata m)))"

definition get_or_head_object ::
  "env \<Rightarrow> string \<Rightarrow> string \<Rightarrow> string option \<Rightarrow> header_map \<Rightarrow> bool \<Rightarrow> response handler" where
  "get_or_head_object E bucket key version_id hs headers_only =
     (let X = e_crates E in
      bnd (require_bucket E bucket) (\<lambda>_.
      bnd (find_version E bucket key version_id) (\<lambda>m.
      bnd (if m_kind m = Tombstone
           then (if version_id = None then fail (no_such_key bucket key)
                 else fail (with_resource (s3_error_new InvalidRequest ''the specified version is a delete marker'')
                        (object_path bucket key)))
           else ret ()) (\<lambda>_.
      bnd (unwrap (etag X m)) (\<lambda>tag.
      case evaluate_preconditions X hs tag (m_last_modified m) bucket key of
        Some short_circuit \<Rightarrow> ret short_circuit
      | None \<Rightarrow>
          bnd (lift (parse_range_header X hs (m_size m))) (\<lambda>rng.
          bnd (if headers_only then ret []
               else bnd (read_all_parts E (m_parts m)) (\<lambda>buf.
                    case rng of
                      Some (s, e) \<Rightarrow> unwrap (slice s (e + 1) buf)
                    | None \<Rightarrow> ret buf)) (\<lambda>body.
          ret (object_headers X m tag rng
                \<lparr>rs_status = (if rng \<noteq> None then 206 else 200), rs_headers = [], rs_body = BodyBytes body\<rparr>))))))))"

subsection \<open>DELETE\<close>

definition tombstone :: "string \<Rightarrow> string \<Rightarrow> string \<Rightarrow> timestamp \<Rightarrow> manifest" where
  "tombstone bucket key version_id now =
     \<lparr>m_key = new_key bucket key version_id, m_state = Committed, m_kind = Tombstone,
      m_upload_mode = SinglePut, m_parts = [], m_size = 0, m_content_type = None,
      m_user_metadata = [], m_tags = [], m_additional_checksum = None,
      m_storage_class = ''STANDARD'', m_object_lock = None,
      m_created_at = now, m_last_modified = now, m_upload_id = None\<rparr>"

text \<open>
  \<^verbatim>\<open>lock.forbids_delete(OffsetDateTime::now_utc())\<close> behind the \<^verbatim>\<open>if let\<close> chain: the clock is
  read only when there is a lock.
\<close>

definition locked_now :: "env \<Rightarrow> manifest option \<Rightarrow> ('e, bool) action" where
  "locked_now E mo =
     (case mo of
        None \<Rightarrow> ret False
      | Some m \<Rightarrow>
          (case m_object_lock m of
             None \<Rightarrow> ret False
           | Some l \<Rightarrow> bnd (now_utc E) (\<lambda>now. ret (forbids_delete l now))))"

definition delete_specific_version :: "env \<Rightarrow> string \<Rightarrow> string \<Rightarrow> string \<Rightarrow> response handler" where
  "delete_specific_version E bucket key version_id =
     (let X = e_crates E; target = new_key bucket key version_id in
      bnd (meta E (get_manifest E target)) (\<lambda>maybe.
      let is_delete_marker = (map_option m_kind maybe = Some Tombstone) in
      bnd (locked_now E maybe) (\<lambda>locked.
      bnd (fail_if locked (locked_error bucket key)) (\<lambda>_.
      catch (delete_manifest E target) (\<lambda>r.
        case r of
          Inr freed \<Rightarrow>
            bnd (gc_freed_parts E freed) (\<lambda>_.
            ret (let resp = set_header X ''x-amz-version-id'' version_id (empty_response 204)
                 in if is_delete_marker then set_header X ''x-amz-delete-marker'' ''true'' resp else resp))
        | Inl (ManifestNotFound _) \<Rightarrow>
            ret (set_header X ''x-amz-version-id'' version_id (empty_response 204))
        | Inl e \<Rightarrow> fail (map_meta_err E e))))))"

definition removed_event :: "event_type \<Rightarrow> string \<Rightarrow> string \<Rightarrow> string option \<Rightarrow> object_event" where
  "removed_event t bucket key vid =
     \<lparr>oe_type = t, oe_bucket = bucket, oe_key = key, oe_size = 0, oe_etag = [], oe_version_id = vid\<rparr>"

definition delete_object :: "env \<Rightarrow> string \<Rightarrow> string \<Rightarrow> string option \<Rightarrow> response handler" where
  "delete_object E bucket key version_id =
     (let X = e_crates E in
      bnd (require_bucket E bucket) (\<lambda>cfg.
      case version_id of
        Some vid \<Rightarrow> delete_specific_version E bucket key vid
      | None \<Rightarrow>
          bnd (if bc_versioning cfg = Off
               then bnd (meta E (get_manifest E (new_key bucket key null_version_id))) (locked_now E)
               else ret False) (\<lambda>locked.
          bnd (fail_if locked (locked_error bucket key)) (\<lambda>_.
          if bc_versioning cfg = Off then
            catch (delete_manifest E (new_key bucket key null_version_id)) (\<lambda>r.
              case r of
                Inr freed \<Rightarrow>
                  bnd (gc_freed_parts E freed) (\<lambda>_.
                  bnd (emit (removed_event ObjectRemovedDelete bucket key None)) (\<lambda>_.
                  ret (empty_response 204)))
              | Inl (ManifestNotFound _) \<Rightarrow> ret (empty_response 204)
              | Inl e \<Rightarrow> fail (map_meta_err E e))
          else
            bnd (next_version_id E (bc_versioning cfg)) (\<lambda>vid.
            bnd (now_utc E) (\<lambda>now.
            bnd (meta E (put_manifest E (tombstone bucket key vid now))) (\<lambda>freed.
            bnd (gc_freed_parts E freed) (\<lambda>_.
            bnd (emit (removed_event ObjectRemovedDeleteMarkerCreated bucket key
                   (if bc_versioning cfg = Enabled then Some vid else None))) (\<lambda>_.
            ret (set_version_header X (bc_versioning cfg) vid
                  (set_header X ''x-amz-delete-marker'' ''true'' (empty_response 204))))))))))))"

end
