(* ===== verification/Multipart.thy ===== *)
theory Multipart
  imports Object
begin

text \<open>
  \<^verbatim>\<open>src/s3/multipart.rs\<close>: starting an upload, uploading, listing and selecting parts,
  completing and aborting.
\<close>

definition invalid :: "string \<Rightarrow> s3_error" where
  "invalid msg = s3_error_new InvalidArgument msg"

definition no_such_upload :: "string \<Rightarrow> string \<Rightarrow> string \<Rightarrow> s3_error" where
  "no_such_upload bucket key upload_id =
     with_resource (s3_error_new NoSuchUpload (''upload id '' @ upload_id @ '' not found'')) (object_path bucket key)"

definition map_upload_meta_err :: "env \<Rightarrow> string \<Rightarrow> string \<Rightarrow> string \<Rightarrow> meta_error \<Rightarrow> s3_error" where
  "map_upload_meta_err E bucket key upload_id e =
     (case e of ManifestNotFound _ \<Rightarrow> no_such_upload bucket key upload_id | other \<Rightarrow> map_meta_err E other)"

definition part_etag :: "crates \<Rightarrow> bytes \<Rightarrow> string" where
  "part_etag X m = dquote @ hex_encode X m @ dquote"

subsection \<open>Starting an upload\<close>

definition create_multipart_upload :: "env \<Rightarrow> string \<Rightarrow> string \<Rightarrow> header_map \<Rightarrow> response handler" where
  "create_multipart_upload E bucket key hs =
     (let X = e_crates E in
      bnd (require_bucket E bucket) (\<lambda>_.
      bnd (new_uuid E) (\<lambda>upload_id.
      bnd (now_utc E) (\<lambda>now.
      let m = \<lparr>m_key = new_key bucket key upload_id, m_state = InProgress, m_kind = Object,
               m_upload_mode = Multipart, m_parts = [], m_size = 0,
               m_content_type = header_str X hs ''content-type'',
               m_user_metadata = extract_user_metadata X hs, m_tags = [],
               m_additional_checksum = None, m_storage_class = ''STANDARD'', m_object_lock = None,
               m_created_at = now, m_last_modified = now, m_upload_id = Some upload_id\<rparr>
      in bnd (meta E (put_manifest E m)) (\<lambda>freed.
         bnd (gc_freed_parts E freed) (\<lambda>_.
         ret (xml_response X (InitiateMultipartDoc
               \<lparr>im_bucket = bucket, im_key = key, im_upload_id = upload_id\<rparr>))))))))"

subsection \<open>Uploading a part\<close>

definition part_content_md5 :: "crates \<Rightarrow> header_map \<Rightarrow> s3_error + bytes option" where
  "part_content_md5 X hs =
     (case header_get hs ''content-md5'' of
        None \<Rightarrow> Inr None
      | Some v \<Rightarrow>
          (case header_to_str X v of
             None \<Rightarrow> Inl (invalid ''invalid Content-MD5 header'')
           | Some s \<Rightarrow>
               (case base64_decode X s of
                  None \<Rightarrow> Inl (invalid ''Content-MD5 not valid base64'')
                | Some bs \<Rightarrow>
                    (if length bs = 16 then Inr (Some bs) else Inl (invalid ''Content-MD5 must be 16 bytes'')))))"

definition part_number_ok :: "nat \<Rightarrow> bool" where
  "part_number_ok n \<longleftrightarrow> \<not> (n = 0 \<or> 10000 < n)"

definition upload_part :: "env \<Rightarrow> string \<Rightarrow> string \<Rightarrow> string \<Rightarrow> nat \<Rightarrow> header_map \<Rightarrow> bytes \<Rightarrow> response handler" where
  "upload_part E bucket key upload_id part_number hs body =
     (let X = e_crates E in
      bnd (fail_if (\<not> part_number_ok part_number)
            (with_resource (invalid ''part-number must be between 1 and 10000'') (object_path bucket key))) (\<lambda>_.
      bnd (lift (part_content_md5 X hs)) (\<lambda>expected.
      bnd (fail_if (case expected of Some x \<Rightarrow> x \<noteq> md5 X body | None \<Rightarrow> False)
            (with_resource (s3_error_new BadDigest ''Content-MD5 mismatch'') (object_path bucket key))) (\<lambda>_.
      bnd (map_err part_write_err (write_bytes E body)) (\<lambda>part.
      bnd (map_err (map_upload_meta_err E bucket key upload_id)
            (append_part E (new_key bucket key upload_id)
              \<lparr>pr_part_number = part_number, pr_hash = pw_hash part, pr_md5 = pw_md5 part, pr_size = pw_size part\<rparr>)) (\<lambda>freed.
      bnd (gc_freed_parts E freed) (\<lambda>_.
      ret (set_header X ''etag'' (part_etag X (pw_md5 part)) (empty_response 200)))))))))"

subsection \<open>Completing an upload\<close>

text \<open>The check that part numbers rise: \<open>last_n\<close> starts at zero.\<close>

fun parts_ascending :: "nat \<Rightarrow> complete_part list \<Rightarrow> bool" where
  "parts_ascending last_n [] = True"
| "parts_ascending last_n (p # ps) =
     (if cp_part_number p \<le> last_n then False else parts_ascending (cp_part_number p) ps)"

text \<open>
  The loop that selects the stored parts the request lists: each must exist and its quoted
  MD5 must be the request's ETag.
\<close>

fun select_parts ::
  "crates \<Rightarrow> string \<Rightarrow> string \<Rightarrow> part_ref list \<Rightarrow> complete_part list \<Rightarrow> part_ref list \<Rightarrow> s3_error + part_ref list" where
  "select_parts X bucket key stored [] selected = Inr selected"
| "select_parts X bucket key stored (p # ps) selected =
     (case List.find (\<lambda>s. pr_part_number s = cp_part_number p) stored of
        None \<Rightarrow>
          Inl (with_resource (s3_error_new InvalidArgument
                (''part '' @ show_nat (cp_part_number p) @ '' not found in upload'')) (object_path bucket key))
      | Some s \<Rightarrow>
          (if trim (cp_etag p) \<noteq> part_etag X (pr_md5 s)
           then Inl (with_resource (s3_error_new InvalidArgument
                  (''ETag mismatch on part '' @ show_nat (cp_part_number p))) (object_path bucket key))
           else select_parts X bucket key stored ps (selected @ [s])))"

definition committed_upload :: "string \<Rightarrow> string \<Rightarrow> manifest \<Rightarrow> part_ref list \<Rightarrow> timestamp \<Rightarrow> manifest" where
  "committed_upload bucket key up selected now =
     \<lparr>m_key = new_key bucket key null_version_id, m_state = Committed, m_kind = Object,
      m_upload_mode = Multipart, m_parts = selected, m_size = sum_u64 (map pr_size selected),
      m_content_type = m_content_type up, m_user_metadata = m_user_metadata up, m_tags = m_tags up,
      m_additional_checksum = m_additional_checksum up, m_storage_class = m_storage_class up,
      m_object_lock = m_object_lock up, m_created_at = m_created_at up, m_last_modified = now,
      m_upload_id = None\<rparr>"

definition find_upload :: "env \<Rightarrow> string \<Rightarrow> string \<Rightarrow> string \<Rightarrow> manifest handler" where
  "find_upload E bucket key upload_id =
     bnd (meta E (get_manifest E (new_key bucket key upload_id))) (\<lambda>m.
     ok_or (filter_option (\<lambda>m. m_state m = InProgress) m) (no_such_upload bucket key upload_id))"

definition complete_multipart_upload :: "env \<Rightarrow> string \<Rightarrow> string \<Rightarrow> string \<Rightarrow> bytes \<Rightarrow> response handler" where
  "complete_multipart_upload E bucket key upload_id body =
     (let X = e_crates E in
      case parse_complete_xml X body of
        Inl e \<Rightarrow> fail (invalid (''malformed CompleteMultipartUpload body: '' @ e))
      | Inr request \<Rightarrow>
          bnd (fail_if (cm_parts request = [])
                (invalid ''CompleteMultipartUpload must list at least one part'')) (\<lambda>_.
          bnd (fail_if (\<not> parts_ascending 0 (cm_parts request))
                (invalid ''CompleteMultipartUpload parts must be sorted by part number'')) (\<lambda>_.
          bnd (find_upload E bucket key upload_id) (\<lambda>up.
          bnd (lift (select_parts X bucket key (m_parts up) (cm_parts request) [])) (\<lambda>selected.
          bnd (now_utc E) (\<lambda>now.
          let committed = committed_upload bucket key up selected now
          in bnd (unwrap (etag X committed)) (\<lambda>tag.
             bnd (meta E (complete_multipart_upload_row E (new_key bucket key upload_id) committed)) (\<lambda>freed.
             bnd (gc_freed_parts E freed) (\<lambda>_.
             bnd (emit \<lparr>oe_type = ObjectCreatedCompleteMultipartUpload, oe_bucket = bucket, oe_key = key,
                        oe_size = m_size committed, oe_etag = tag, oe_version_id = None\<rparr>) (\<lambda>_.
             ret (xml_response X (CompleteMultipartDoc
                   \<lparr>cmr_location = object_path bucket key, cmr_bucket = bucket, cmr_key = key, cmr_etag = tag\<rparr>))))))))))))"

subsection \<open>Aborting and listing\<close>

definition abort_multipart_upload :: "env \<Rightarrow> string \<Rightarrow> string \<Rightarrow> string \<Rightarrow> response handler" where
  "abort_multipart_upload E bucket key upload_id =
     bnd (find_upload E bucket key upload_id) (\<lambda>_.
     bnd (meta E (delete_manifest E (new_key bucket key upload_id))) (\<lambda>freed.
     bnd (gc_freed_parts E freed) (\<lambda>_.
     ret (empty_response 204))))"

definition list_parts :: "env \<Rightarrow> string \<Rightarrow> string \<Rightarrow> string \<Rightarrow> response handler" where
  "list_parts E bucket key upload_id =
     (let X = e_crates E in
      bnd (find_upload E bucket key upload_id) (\<lambda>m.
      ret (xml_response X (ListPartsDoc
        \<lparr>lpr_bucket = bucket, lpr_key = key, lpr_upload_id = upload_id, lpr_max_parts = 1000,
         lpr_is_truncated = False,
         lpr_parts = map (\<lambda>p. \<lparr>lpp_part_number = pr_part_number p, lpp_etag = part_etag X (pr_md5 p),
                                lpp_size = pr_size p,
                                lpp_last_modified = format_rfc3339 X (m_last_modified m)\<rparr>) (m_parts m)\<rparr>))))"

end
