(* ===== verification/ScanProps.thy ===== *)
theory ScanProps
  imports Scan Demo
begin

text \<open>
  What the range scans of theory \<^theory_text>\<open>Scan\<close> compute.

  The specification side is written over all rows of the objects table, with no byte keys:
  the committed versions of a key, the latest of them, the current object of every key of a
  bucket.  The lemmas show that the half-open byte ranges of the code select exactly the
  rows meant, that the latest-version scan and the listing scan agree, and that a
  truncated object listing resumes where it stopped.
\<close>

subsection \<open>Filtering a table by key\<close>

lemma tbl_ok_filter [simp]: "tbl_ok t \<Longrightarrow> tbl_ok (filter P t)"
  by (simp add: tbl_ok_def sorted_wrt_map sorted_wrt_filter)

lemma tbl_get_filter [simp]:
  "tbl_get (filter (\<lambda>e. P (fst e)) t) k = (if P k then tbl_get t k else None)"
  by (induction t) (auto simp: tbl_get_def)

lemma tbl_get_filter_o [simp]: "tbl_get (filter (P \<circ> fst) t) k = (if P k then tbl_get t k else None)"
  using tbl_get_filter [of P t k] by (simp add: comp_def)

lemma tbl_get_collect: "tbl_get (tbl_collect es) k = map_of (rev es) k"
proof -
  have "tbl_get (foldl (\<lambda>t e. tbl_insert t (fst e) (snd e)) t es) k =
      (case map_of (rev es) k of Some v \<Rightarrow> Some v | None \<Rightarrow> tbl_get t k)" for t
    by (induction es arbitrary: t) (auto simp: map_add_def split: option.splits)
  then show ?thesis by (simp add: tbl_collect_def split: option.splits)
qed

lemma tbl_eq_iff: "tbl_ok t \<Longrightarrow> tbl_ok u \<Longrightarrow> (\<And>k. tbl_get t k = tbl_get u k) \<Longrightarrow> t = u"
  using tbl.iter_unique [of t u] by (simp add: tbl_iter_def)

subsection \<open>Strings between a prefix and an extension of it\<close>

lemma prefix_between:
  fixes p s t :: string
  shows "p \<le> s \<Longrightarrow> s \<le> t \<Longrightarrow> prefix p t \<Longrightarrow> prefix p s"
proof (induction p arbitrary: s t)
  case (Cons c p)
  then show ?case by (cases s; cases t) (auto dest: order.asym)
qed simp

lemma prefix_imp_le: "prefix p s \<Longrightarrow> p \<le> (s :: string)"
  by (auto simp: prefix_def)

lemma prefix_before_nul: "nul \<notin> set p \<Longrightarrow> prefix p (k @ nul # v) \<longleftrightarrow> prefix p k"
proof (induction p arbitrary: k)
  case (Cons c p)
  then show ?case by (cases k) auto
qed simp

lemma next_char_le_iff:
  assumes "c < CHR 0xFF"
  shows "char_of (of_char c + 1 :: nat) \<le> d \<longleftrightarrow> c < d"
proof -
  have "of_char c < (255 :: nat)" using assms by (simp add: less_char_def)
  then have "of_char (char_of (of_char c + 1 :: nat)) = of_char c + (1 :: nat)"
    by (simp add: of_char_of take_bit_eq_mod)
  then show ?thesis by (simp add: less_eq_char_def less_char_def Suc_le_eq)
qed

lemma below_ff: "c \<noteq> CHR 0xFF \<Longrightarrow> c < CHR 0xFF"
proof -
  assume "c \<noteq> CHR 0xFF"
  then have "of_char c \<noteq> (of_char (CHR 0xFF) :: nat)" by (simp only: of_char_eq_iff) simp
  then have "of_char c \<noteq> (255 :: nat)" by simp
  moreover have "of_char c < (256 :: nat)" by (rule nat_of_char_less_256)
  ultimately have "of_char c < (255 :: nat)" by linarith
  then show ?thesis by (simp add: less_char_def)
qed

lemma bumped_le_iff:
  assumes "c < CHR 0xFF" and "nul \<notin> set q" and "nul \<notin> set k"
  shows "q @ [char_of (of_char c + 1 :: nat)] \<le> k @ nul # v \<longleftrightarrow> q @ [c] < k \<and> \<not> prefix (q @ [c]) k"
  using assms(2,3)
proof (induction q arbitrary: k)
  case Nil
  define c' where "c' = char_of (of_char c + 1 :: nat)"
  have le: "c' \<le> d \<longleftrightarrow> c < d" for d
    unfolding c'_def by (rule next_char_le_iff [OF assms(1)])
  have "\<not> c' \<le> nul" unfolding le by simp
  then have ne: "c' \<noteq> nul" "\<not> c' < nul" by auto
  show ?case
    unfolding c'_def [symmetric]
  proof (cases k)
    case Nil
    then show "[] @ [c'] \<le> k @ nul # v \<longleftrightarrow> [] @ [c] < k \<and> \<not> prefix ([] @ [c]) k" using ne by simp
  next
    case (Cons d k')
    have "c' < d \<or> c' = d \<longleftrightarrow> c < d" using le [of d] by (simp add: order_le_less)
    then show "[] @ [c'] \<le> k @ nul # v \<longleftrightarrow> [] @ [c] < k \<and> \<not> prefix ([] @ [c]) k" by (auto simp: Cons)
  qed
next
  case (Cons a q)
  then show ?case by (cases k) auto
qed

subsection \<open>Scope of a scan\<close>

text \<open>Cursors a page can hand out for a request, over names that are UTF-8 and free of NUL.\<close>

definition plain_name :: "string \<Rightarrow> bool" where
  "plain_name s \<longleftrightarrow> nul \<notin> set s \<and> CHR 0xFF \<notin> set s"

definition cursor_ok :: "string \<Rightarrow> list_cursor option \<Rightarrow> bool" where
  "cursor_ok pfx cur =
     (case cur of
        None \<Rightarrow> True
      | Some (AfterKey c) \<Rightarrow> plain_name c \<and> pfx \<le> c
      | Some (AfterPrefix p) \<Rightarrow> plain_name p \<and> p \<noteq> [] \<and> prefix pfx p)"

definition after_cursor :: "list_cursor \<Rightarrow> string \<Rightarrow> bool" where
  "after_cursor cur k =
     (case cur of AfterKey c \<Rightarrow> c < k | AfterPrefix p \<Rightarrow> p < k \<and> \<not> prefix p k)"

definition in_scope :: "list_objects_request \<Rightarrow> string \<Rightarrow> bool" where
  "in_scope req k \<longleftrightarrow>
     prefix (lq_prefix req) k \<and> (case lq_cursor req of None \<Rightarrow> True | Some cur \<Rightarrow> after_cursor cur k)"

lemma after_prefix_snoc:
  "c \<noteq> CHR 0xFF \<Longrightarrow> after_prefix b (q @ [c]) = b @ nul # q @ [char_of (of_char c + 1 :: nat)]"
  by (simp add: after_prefix_def below_ff)

lemma scan_start_le_encode:
  assumes "nul \<notin> set k" and "cursor_ok (lq_prefix req) (lq_cursor req)"
    and "lq_cursor req = Some cur"
  shows "scan_start req \<le> lq_bucket req @ nul # k @ nul # v \<longleftrightarrow> after_cursor cur k"
proof (cases cur)
  case (AfterKey c)
  then show ?thesis
    using assms append_soh_le_iff [of c k v]
    by (simp add: scan_start_def after_key_def after_cursor_def cursor_ok_def plain_name_def)
next
  case (AfterPrefix p)
  then obtain q c where p: "p = q @ [c]"
    using assms by (cases p rule: rev_cases) (auto simp: cursor_ok_def)
  then have "c < CHR 0xFF" "c \<noteq> CHR 0xFF" "nul \<notin> set q"
    using assms AfterPrefix by (auto simp: cursor_ok_def plain_name_def intro: below_ff)
  then show ?thesis
    using assms AfterPrefix bumped_le_iff [of c q k v]
    by (simp add: scan_start_def after_prefix_snoc p after_cursor_def)
qed

lemma scan_start_ge_prefix:
  assumes "cursor_ok (lq_prefix req) (lq_cursor req)"
  shows "lq_bucket req @ nul # lq_prefix req \<le> scan_start req"
proof (cases "lq_cursor req")
  case None
  then show ?thesis by (simp add: scan_start_def initial_scan_start_def)
next
  case (Some cur)
  show ?thesis
  proof (cases cur)
    case (AfterKey c)
    have "c \<le> c @ [soh]" by simp
    with AfterKey show ?thesis
      using assms Some by (auto simp: cursor_ok_def scan_start_def after_key_def intro: order.trans)
  next
    case (AfterPrefix p)
    then obtain q c where p: "p = q @ [c]"
      using assms Some by (cases p rule: rev_cases) (auto simp: cursor_ok_def)
    then have c: "c < CHR 0xFF" "c \<noteq> CHR 0xFF"
      using assms Some AfterPrefix by (auto simp: cursor_ok_def plain_name_def intro: below_ff)
    have "lq_prefix req \<le> p" using assms Some AfterPrefix by (simp add: cursor_ok_def prefix_imp_le)
    moreover have "p \<le> q @ [char_of (of_char c + 1 :: nat)]"
      using next_char_le_iff [OF c(1), of "char_of (of_char c + 1 :: nat)"] by (auto simp: p)
    ultimately have "lq_prefix req \<le> q @ [char_of (of_char c + 1 :: nat)]" by (rule order.trans)
    then show ?thesis
      using Some AfterPrefix by (simp add: scan_start_def p after_prefix_snoc [OF c(2)])
  qed
qed

text \<open>A request's byte range, as far as keys with the prefix are concerned.\<close>

lemma in_scan_range_iff:
  assumes "nul_free_key k" and "nul \<notin> set (lq_bucket req)"
    and "cursor_ok (lq_prefix req) (lq_cursor req)" and "prefix (lq_prefix req) (mk_key k)"
  shows "scan_start req \<le> encode k \<and> encode k < scan_end req \<longleftrightarrow>
    mk_bucket k = lq_bucket req \<and> in_scope req (mk_key k)"
proof -
  have low: "lq_bucket req @ [nul] \<le> scan_start req"
    by (rule order.trans [OF _ scan_start_ge_prefix [OF assms(3)]]) simp
  have bucket: "lq_bucket req @ [nul] \<le> encode k \<and> encode k < scan_end req \<longleftrightarrow> mk_bucket k = lq_bucket req"
    using nul_range_iff_prefix [of "lq_bucket req" "encode k"] prefix_nul_encode [OF assms(1,2)]
    by (simp add: scan_end_def)
  have start: "scan_start req \<le> encode k \<longleftrightarrow> in_scope req (mk_key k)" if "mk_bucket k = lq_bucket req"
  proof (cases "lq_cursor req")
    case None
    have "lq_prefix req \<le> mk_key k @ nul # mk_version_id k"
      using assms(4) by (simp add: prefix_imp_le)
    with None that show ?thesis
      using assms(4) by (simp add: scan_start_def initial_scan_start_def in_scope_def encode_def)
  next
    case (Some cur)
    with that show ?thesis
      using scan_start_le_encode [OF _ assms(3) Some, of "mk_key k" "mk_version_id k"] assms(1,4)
      by (simp add: in_scope_def encode_def nul_free_key_def)
  qed
  show ?thesis using low bucket start by (meson order.trans)
qed

subsection \<open>The latest committed version\<close>

definition pick :: "manifest option \<Rightarrow> manifest \<Rightarrow> manifest option" where
  "pick latest m = (if newer latest m then Some m else latest)"

definition latest_of :: "manifest list \<Rightarrow> manifest option" where
  "latest_of ms = foldl pick None ms"

text \<open>All committed versions (tombstones included) of one key, in version-id order.\<close>

definition committed_at :: "string \<Rightarrow> string \<Rightarrow> manifest \<Rightarrow> bool" where
  "committed_at b k m \<longleftrightarrow> m_state m = Committed \<and> mk_bucket (m_key m) = b \<and> mk_key (m_key m) = k"

definition versions_of :: "db \<Rightarrow> string \<Rightarrow> string \<Rightarrow> manifest list" where
  "versions_of d b k = filter (committed_at b k) (map snd (tbl_iter (objects d)))"

lemma pick_fold_in: "foldl pick acc ms = Some m \<Longrightarrow> m \<in> set ms \<or> acc = Some m"
  by (induction ms arbitrary: acc) (auto simp: pick_def split: if_splits)

lemma pick_fold_max:
  "foldl pick acc ms = Some m \<Longrightarrow> m' \<in> set ms \<or> acc = Some m' \<Longrightarrow> m_last_modified m' \<le> m_last_modified m"
proof (induction ms arbitrary: acc m')
  case (Cons x ms)
  consider "pick acc x = Some x" "\<And>w. acc = Some w \<Longrightarrow> m_last_modified w \<le> m_last_modified x"
    | w where "acc = Some w" "pick acc x = acc" "m_last_modified x \<le> m_last_modified w"
    by (cases acc; cases "m_last_modified (the acc) < m_last_modified x")
      (auto simp: pick_def newer_def not_less less_imp_le)
  then show ?case
  proof cases
    case 1
    have "m_last_modified x \<le> m_last_modified m"
      using Cons.IH [of "pick acc x" x] Cons.prems(1) 1(1) by simp
    then show ?thesis
      using Cons.IH [of "pick acc x" m'] Cons.prems 1 by (auto intro: order.trans)
  next
    case 2
    have "m_last_modified w \<le> m_last_modified m"
      using Cons.IH [of acc w] Cons.prems(1) 2 by simp
    then show ?thesis
      using Cons.IH [of acc m'] Cons.prems 2 by (auto intro: order.trans)
  qed
qed auto

lemma pick_fold_None: "foldl pick acc ms = None \<longleftrightarrow> acc = None \<and> ms = []"
  by (induction ms arbitrary: acc) (auto simp: pick_def newer_def)

lemma latest_of_None [simp]: "latest_of ms = None \<longleftrightarrow> ms = []"
  by (simp add: latest_of_def pick_fold_None)

lemma latest_of_Some:
  assumes "latest_of ms = Some m"
  shows "m \<in> set ms" and "\<And>m'. m' \<in> set ms \<Longrightarrow> m_last_modified m' \<le> m_last_modified m"
  using pick_fold_in [of None ms m] pick_fold_max [of None ms m] assms by (auto simp: latest_of_def)

lemma in_versions_of:
  "db_ok d \<Longrightarrow> m \<in> set (versions_of d b k) \<longleftrightarrow>
     (\<exists>kb. tbl_get (objects d) kb = Some m) \<and> committed_at b k m"
  by (auto simp: versions_of_def db_ok_def tbl.in_iter_iff [symmetric] image_iff Bex_def)

text \<open>Restricting a scan to a byte range loses no row it is meant to see.\<close>

lemma filter_range:
  assumes "\<And>kb m. (kb, m) \<in> set (tbl_iter t) \<Longrightarrow> P m \<Longrightarrow> lo \<le> kb \<and> kb < hi"
  shows "filter P (map snd (tbl_range t lo hi)) = filter P (map snd (tbl_iter t))"
proof -
  have "filter (P \<circ> snd) (tbl_range t lo hi) = filter (P \<circ> snd) (tbl_iter t)"
    unfolding tbl_range_def filter_filter by (rule filter_cong) (use assms in auto)
  then show ?thesis by (simp add: filter_map)
qed

lemma in_objects: "db_ok d \<Longrightarrow> (kb, m) \<in> set (tbl_iter (objects d)) \<longleftrightarrow> tbl_get (objects d) kb = Some m"
  by (simp add: db_ok_def tbl.in_iter_iff)

lemma latest_step_fold:
  "foldl (latest_step b k) acc es = foldl pick acc (filter (committed_at b k) (map snd es))"
  by (induction es arbitrary: acc) (auto simp: latest_step_def pick_def committed_at_def Let_def)

lemma key_range_versions:
  assumes ok: "db_ok d" and keys: "keys_ok d" and nf: "nul \<notin> set b" "nul \<notin> set k"
  shows "filter (committed_at b k)
      (map snd (tbl_range (objects d) (b @ [nul] @ k @ [nul]) (b @ [nul] @ k @ [soh]))) = versions_of d b k"
  unfolding versions_of_def
proof (rule filter_range)
  fix kb m
  assume "(kb, m) \<in> set (tbl_iter (objects d))" and m: "committed_at b k m"
  then have kb: "kb = encode (m_key m)" and nm: "nul_free_key (m_key m)"
    using keys by (auto simp: in_objects [OF ok] keys_ok_def)
  have "prefix (b @ nul # k @ [nul]) kb"
    using m prefix_nul_nul_encode [OF nm nf] by (simp add: kb committed_at_def)
  then show "b @ [nul] @ k @ [nul] \<le> kb \<and> kb < b @ [nul] @ k @ [soh]"
    using nul_range_iff_prefix [of "b @ nul # k" kb] by simp
qed

lemma get_latest_version_spec:
  assumes "db_ok d" "keys_ok d" "nul \<notin> set b" "nul \<notin> set k"
  shows "handle_get_latest_version d b k = Inr (latest_of (versions_of d b k))"
  unfolding handle_get_latest_version_def latest_step_fold key_range_versions [OF assms]
  by (simp add: latest_of_def)

subsection \<open>The first loop of the object listing\<close>

definition put_latest :: "(string, manifest) table \<Rightarrow> manifest \<Rightarrow> (string, manifest) table" where
  "put_latest t m =
     (if newer (tbl_get t (mk_key (m_key m))) m then tbl_insert t (mk_key (m_key m)) m else t)"

definition committed_with_prefix :: "string \<Rightarrow> manifest \<Rightarrow> bool" where
  "committed_with_prefix pfx m \<longleftrightarrow> m_state m = Committed \<and> prefix pfx (mk_key (m_key m))"

text \<open>The keys with the prefix come first, so that the \<^verbatim>\<open>break\<close> cuts nothing off.\<close>

definition prefix_first :: "string \<Rightarrow> (bytes \<times> manifest) list \<Rightarrow> bool" where
  "prefix_first pfx es \<longleftrightarrow>
     sorted_wrt (\<lambda>x y. prefix pfx (mk_key (m_key (snd y))) \<longrightarrow> prefix pfx (mk_key (m_key (snd x)))) es"

lemma prefix_first_cut:
  "prefix_first pfx (e # es) \<Longrightarrow> \<not> prefix pfx (mk_key (m_key (snd e))) \<Longrightarrow>
     filter (committed_with_prefix pfx) (map snd es) = []"
  by (auto simp: prefix_first_def committed_with_prefix_def filter_empty_conv)

lemma prefix_first_tl: "prefix_first pfx (e # es) \<Longrightarrow> prefix_first pfx es"
  by (simp add: prefix_first_def)

lemma latest_scan_fold:
  "prefix_first pfx es \<Longrightarrow>
     latest_scan pfx es t = foldl put_latest t (filter (committed_with_prefix pfx) (map snd es))"
proof (induction pfx es t rule: latest_scan.induct)
  case (2 pfx kb m rest t)
  then show ?case
    using prefix_first_cut [of pfx "(kb, m)" rest] prefix_first_tl [of pfx "(kb, m)" rest]
    by (simp add: put_latest_def [of t m] committed_with_prefix_def [of pfx m])
qed simp

lemma put_latest_ok: "tbl_ok t \<Longrightarrow> tbl_ok (foldl put_latest t ms)"
  by (induction ms arbitrary: t) (auto simp: put_latest_def)

lemma put_latest_get:
  "tbl_get (foldl put_latest t ms) k = foldl pick (tbl_get t k) (filter (\<lambda>m. mk_key (m_key m) = k) ms)"
  by (induction ms arbitrary: t) (auto simp: put_latest_def pick_def)

lemma tbl_range_sorted: "tbl_ok t \<Longrightarrow> sorted_wrt (\<lambda>x y. fst x < fst y) (tbl_range t lo hi)"
  by (simp add: tbl_range_def tbl_ok_def tbl_iter_def sorted_wrt_map sorted_wrt_filter)

lemma scan_rows:
  assumes ok: "db_ok d" and keys: "keys_ok d" and nf: "nul \<notin> set (lq_bucket req)"
    and cur: "cursor_ok (lq_prefix req) (lq_cursor req)"
    and e: "(kb, m) \<in> set (tbl_range (objects d) (scan_start req) (scan_end req))"
  shows "kb = encode (m_key m)" "nul_free_key (m_key m)" "mk_bucket (m_key m) = lq_bucket req"
    "lq_prefix req \<le> mk_key (m_key m) @ nul # mk_version_id (m_key m)"
proof -
  have r: "tbl_get (objects d) kb = Some m" "scan_start req \<le> kb" "kb < scan_end req"
    using e ok by (auto simp: db_ok_def in_tbl_range_iff)
  then show kb: "kb = encode (m_key m)" and nk: "nul_free_key (m_key m)"
    using keys by (auto simp: keys_ok_def)
  have start: "lq_bucket req @ nul # lq_prefix req \<le> kb"
    using scan_start_ge_prefix [OF cur] r(2) by (rule order.trans)
  have "lq_bucket req @ [nul] \<le> kb"
    by (rule order.trans [OF _ start]) simp
  then have "prefix (lq_bucket req @ [nul]) kb"
    using nul_range_iff_prefix [of "lq_bucket req" kb] r(3) by (simp add: scan_end_def)
  then show b: "mk_bucket (m_key m) = lq_bucket req"
    using prefix_nul_encode [OF nk nf] by (simp add: kb)
  show "lq_prefix req \<le> mk_key (m_key m) @ nul # mk_version_id (m_key m)"
    using start b by (simp add: kb encode_def)
qed

lemma scan_prefix_first:
  assumes ok: "db_ok d" and keys: "keys_ok d" and nf: "nul \<notin> set (lq_bucket req)" "nul \<notin> set (lq_prefix req)"
    and cur: "cursor_ok (lq_prefix req) (lq_cursor req)"
  shows "prefix_first (lq_prefix req) (tbl_range (objects d) (scan_start req) (scan_end req))"
  unfolding prefix_first_def
proof (rule sorted_wrt_mono_rel)
  show "sorted_wrt (\<lambda>x y. fst x < fst y) (tbl_range (objects d) (scan_start req) (scan_end req))"
    using ok by (simp add: db_ok_def tbl_range_sorted)
next
  fix x y
  let ?es = "tbl_range (objects d) (scan_start req) (scan_end req)"
  let ?t = "\<lambda>e. mk_key (m_key (snd e)) @ nul # mk_version_id (m_key (snd e))"
  assume "x \<in> set ?es" "y \<in> set ?es" "fst x < fst y"
  note rx = scan_rows [OF ok keys nf(1) cur, of "fst x" "snd x"]
    and ry = scan_rows [OF ok keys nf(1) cur, of "fst y" "snd y"]
  have "?t x < ?t y"
    using \<open>fst x < fst y\<close> \<open>x \<in> set ?es\<close> \<open>y \<in> set ?es\<close> rx ry by (simp add: encode_def)
  then show "prefix (lq_prefix req) (mk_key (m_key (snd y))) \<longrightarrow> prefix (lq_prefix req) (mk_key (m_key (snd x)))"
    using prefix_between [of "lq_prefix req" "?t x" "?t y"] rx(4) \<open>x \<in> set ?es\<close> nf(2)
    by (simp add: prefix_before_nul)
qed

text \<open>What a scan sees of one key: its committed versions, if the key is in scope.\<close>

lemma scan_key_versions:
  assumes ok: "db_ok d" and keys: "keys_ok d" and nf: "nul \<notin> set (lq_bucket req)" "nul \<notin> set (lq_prefix req)"
    and cur: "cursor_ok (lq_prefix req) (lq_cursor req)"
  shows "filter (\<lambda>m. mk_key (m_key m) = k) (filter (committed_with_prefix (lq_prefix req))
      (map snd (tbl_range (objects d) (scan_start req) (scan_end req)))) =
    (if in_scope req k then versions_of d (lq_bucket req) k else [])"
proof -
  let ?es = "tbl_range (objects d) (scan_start req) (scan_end req)"
  have row: "in_scope req (mk_key (m_key m)) \<and> mk_bucket (m_key m) = lq_bucket req"
    if "(kb, m) \<in> set ?es" "prefix (lq_prefix req) (mk_key (m_key m))" for kb m
  proof -
    note r = scan_rows [OF ok keys nf(1) cur that(1)]
    have "scan_start req \<le> kb \<and> kb < scan_end req" using that(1) by (auto simp: tbl_range_def)
    then show ?thesis using in_scan_range_iff [OF r(2) nf(1) cur that(2)] r(1) by simp
  qed
  have sel: "filter (\<lambda>m. mk_key (m_key m) = k) (filter (committed_with_prefix (lq_prefix req)) (map snd ?es)) =
      (if in_scope req k then filter (committed_at (lq_bucket req) k) (map snd ?es) else [])"
    using row by (auto simp: committed_with_prefix_def committed_at_def filter_empty_conv in_scope_def
        intro!: filter_cong)
  have "filter (committed_at (lq_bucket req) k) (map snd ?es) = versions_of d (lq_bucket req) k" if "in_scope req k"
    unfolding versions_of_def
  proof (rule filter_range)
    fix kb m
    assume "(kb, m) \<in> set (tbl_iter (objects d))" and m: "committed_at (lq_bucket req) k m"
    then have kb: "kb = encode (m_key m)" and nm: "nul_free_key (m_key m)"
      using keys by (auto simp: in_objects [OF ok] keys_ok_def)
    then show "scan_start req \<le> kb \<and> kb < scan_end req"
      using in_scan_range_iff [OF nm nf(1) cur] m that by (auto simp: committed_at_def in_scope_def)
  qed
  with sel show ?thesis by simp
qed

text \<open>The map built by the first loop: the latest committed version of every key in scope.\<close>

lemma latest_by_key_get:
  assumes "db_ok d" "keys_ok d" "nul \<notin> set (lq_bucket req)" "nul \<notin> set (lq_prefix req)"
    "cursor_ok (lq_prefix req) (lq_cursor req)"
  shows "tbl_get (latest_by_key d req) k =
    (if in_scope req k then latest_of (versions_of d (lq_bucket req) k) else None)"
  unfolding latest_by_key_def latest_scan_fold [OF scan_prefix_first [OF assms]] put_latest_get
    scan_key_versions [OF assms]
  by (simp add: latest_of_def)

lemma latest_by_key_ok:
  assumes "db_ok d" "keys_ok d" "nul \<notin> set (lq_bucket req)" "nul \<notin> set (lq_prefix req)"
    "cursor_ok (lq_prefix req) (lq_cursor req)"
  shows "tbl_ok (latest_by_key d req)"
  by (simp add: latest_by_key_def latest_scan_fold [OF scan_prefix_first [OF assms]] put_latest_ok)

subsection \<open>Pages of the object listing\<close>

text \<open>The current version of every key of a bucket, in key order.\<close>

definition current_objects :: "db \<Rightarrow> string \<Rightarrow> (string, manifest) table" where
  "current_objects d b =
     tbl_collect
       (map (\<lambda>m. (mk_key (m_key m), the (latest_of (versions_of d b (mk_key (m_key m))))))
         (filter (\<lambda>m. m_state m = Committed \<and> mk_bucket (m_key m) = b) (map snd (tbl_iter (objects d)))))"

lemma current_objects_ok [simp]: "tbl_ok (current_objects d b)"
  by (simp add: current_objects_def)

lemma current_objects_get: "tbl_get (current_objects d b) k = latest_of (versions_of d b k)"
proof -
  let ?ms = "filter (\<lambda>m. m_state m = Committed \<and> mk_bucket (m_key m) = b) (map snd (tbl_iter (objects d)))"
  have sel: "filter (\<lambda>m. mk_key (m_key m) = k) ?ms = versions_of d b k"
    by (auto simp: versions_of_def committed_at_def intro!: filter_cong)
  have lookup: "map_of (rev (map (\<lambda>m. (mk_key (m_key m), f (mk_key (m_key m)))) ms)) k =
      (if filter (\<lambda>m. mk_key (m_key m) = k) ms = [] then None else Some (f k))"
    for f :: "string \<Rightarrow> manifest" and ms
    by (induction ms) (auto simp: map_add_def split: option.splits)
  have "tbl_get (current_objects d b) k =
      (if versions_of d b k = [] then None else Some (the (latest_of (versions_of d b k))))"
    unfolding current_objects_def tbl_get_collect
    by (subst lookup [of "\<lambda>k. the (latest_of (versions_of d b k))"]) (simp only: sel)
  then show ?thesis by (metis latest_of_None option.collapse)
qed

text \<open>All items of a listing, with no page limit.\<close>

fun items_of :: "string \<Rightarrow> string option \<Rightarrow> string option \<Rightarrow> (string \<times> manifest) list \<Rightarrow> list_item list" where
  "items_of pfx delimiter skip [] = []"
| "items_of pfx delimiter skip ((k, m) # rest) =
     (if m_kind m \<noteq> Object \<or> (\<exists>s\<in>set_option skip. prefix s k) then items_of pfx delimiter skip rest
      else case common_prefix_of pfx delimiter k of
             Some cp \<Rightarrow> ItemCommonPrefix cp # items_of pfx delimiter (Some cp) rest
           | None \<Rightarrow> ItemObject m # items_of pfx delimiter None rest)"

definition list_spec :: "db \<Rightarrow> list_objects_request \<Rightarrow> list_item list" where
  "list_spec d req =
     items_of (lq_prefix req) (lq_delimiter req) None
       (filter (\<lambda>e. in_scope req (fst e)) (current_objects d (lq_bucket req)))"

definition page_of :: "nat \<Rightarrow> list_item list \<Rightarrow> list_objects_page" where
  "page_of limit all =
     \<lparr>lp_items = take limit all, lp_truncated = (limit < length all),
      lp_next_cursor =
        (if limit < length all \<and> 0 < limit then Some (cursor_of_item (all ! (limit - 1))) else None)\<rparr>"

lemma page_loop_page_of:
  "length items \<le> limit \<Longrightarrow>
     page_loop pfx delimiter limit es skip items = page_of limit (items @ items_of pfx delimiter skip es)"
proof (induction pfx delimiter limit es skip items rule: page_loop.induct)
  case (2 pfx delimiter limit k m rest skip items)
  have skipped: "(\<exists>s\<in>set_option skip. prefix s k) \<longleftrightarrow> (case skip of Some s \<Rightarrow> prefix s k | None \<Rightarrow> False)"
    by (cases skip) auto
  show ?case
  proof (cases "m_kind m \<noteq> Object \<or> (\<exists>s\<in>set_option skip. prefix s k)")
    case True
    then show ?thesis using 2 by (auto simp: skipped)
  next
    case go: False
    show ?thesis
    proof (cases "limit \<le> length items")
      case True
      then have "length items = limit" using 2 by simp
      then show ?thesis
        using go by (auto simp: skipped page_of_def last_conv_nth nth_append split: option.splits)
    next
      case False
      then show ?thesis
        using go 2(3,4) by (auto simp: skipped split: option.splits)
    qed
  qed
qed (auto simp: page_of_def)

lemma scoped_objects:
  assumes "db_ok d" "keys_ok d" "nul \<notin> set (lq_bucket req)" "nul \<notin> set (lq_prefix req)"
    "cursor_ok (lq_prefix req) (lq_cursor req)"
  shows "tbl_iter (latest_by_key d req) =
    filter (\<lambda>e. in_scope req (fst e)) (current_objects d (lq_bucket req))"
  unfolding tbl_iter_def
  by (rule tbl_eq_iff) (use latest_by_key_ok [OF assms] in
      \<open>simp_all add: latest_by_key_get [OF assms] current_objects_get\<close>)

lemma list_objects_spec:
  assumes "db_ok d" "keys_ok d" "nul \<notin> set (lq_bucket req)" "nul \<notin> set (lq_prefix req)"
    "cursor_ok (lq_prefix req) (lq_cursor req)"
  shows "handle_list_objects d req = Inr (page_of (lq_limit req) (list_spec d req))"
  by (simp add: handle_list_objects_def scoped_objects [OF assms] page_loop_page_of list_spec_def)

subsection \<open>Resuming a listing\<close>

lemma item_source:
  "i \<in> set (items_of pfx delimiter skip es) \<Longrightarrow>
     (\<exists>k m. (k, m) \<in> set es \<and> m_kind m = Object \<and>
        (i = ItemObject m \<or> (\<exists>cp. i = ItemCommonPrefix cp \<and> common_prefix_of pfx delimiter k = Some cp)))"
  by (induction pfx delimiter skip es rule: items_of.induct) (auto split: if_splits option.splits)

lemma common_prefix_prefix: "common_prefix_of pfx delimiter k = Some cp \<Longrightarrow> prefix cp k"
  by (auto simp: common_prefix_of_def take_is_prefix split: option.splits)

definition keyed :: "(string \<times> manifest) list \<Rightarrow> bool" where
  "keyed es \<longleftrightarrow> sorted_wrt (<) (map fst es) \<and> (\<forall>(k, m)\<in>set es. mk_key (m_key m) = k)"

lemma keyed_Cons:
  "keyed ((k, m) # es) \<longleftrightarrow> mk_key (m_key m) = k \<and> (\<forall>e\<in>set es. k < fst e) \<and> keyed es"
  by (auto simp: keyed_def)

text \<open>An item is not after its own key, nor after any earlier one.\<close>

lemma not_after_earlier:
  assumes "i \<in> set (items_of pfx delimiter skip es)" and "keyed es" and "\<forall>e\<in>set es. k \<le> fst e"
  shows "\<not> after_cursor (cursor_of_item i) k"
proof -
  obtain k' m where e: "(k', m) \<in> set es" and i: "i = ItemObject m \<or>
      (\<exists>cp. i = ItemCommonPrefix cp \<and> common_prefix_of pfx delimiter k' = Some cp)"
    using item_source [OF assms(1)] by blast
  have "k \<le> k'" "mk_key (m_key m) = k'" using assms(2,3) e by (auto simp: keyed_def)
  from i show ?thesis
  proof
    assume "\<exists>cp. i = ItemCommonPrefix cp \<and> common_prefix_of pfx delimiter k' = Some cp"
    then obtain cp where cp: "i = ItemCommonPrefix cp" "prefix cp k'" by (auto dest: common_prefix_prefix)
    then show ?thesis
      using prefix_between [of cp k k'] \<open>k \<le> k'\<close> by (auto simp: cursor_of_item_def after_cursor_def)
  qed (use \<open>k \<le> k'\<close> \<open>mk_key (m_key m) = k'\<close> in \<open>auto simp: cursor_of_item_def after_cursor_def\<close>)
qed

lemma items_of_skip:
  "keyed es \<Longrightarrow> \<forall>e\<in>set es. cp \<le> fst e \<Longrightarrow>
     items_of pfx delimiter (Some cp) es =
     items_of pfx delimiter None (filter (\<lambda>e. \<not> prefix cp (fst e)) es)"
proof (induction es)
  case (Cons e es)
  obtain k m where e: "e = (k, m)" by (cases e)
  show ?case
  proof (cases "prefix cp k")
    case False
    have rest: "\<not> prefix cp (fst f)" if "f \<in> set es" for f
      using that Cons.prems prefix_between [of cp k "fst f"] False by (auto simp: e keyed_Cons less_imp_le)
    then have f: "filter (\<lambda>e. \<not> prefix cp (fst e)) es = es" by (simp add: filter_id_conv)
    have same: "items_of pfx delimiter (Some cp) es = items_of pfx delimiter None es"
      using Cons f by (simp add: e keyed_Cons)
    show ?thesis using False same by (simp add: e f)
  qed (use Cons in \<open>simp add: e keyed_Cons\<close>)
qed simp

lemma filter_all: "\<forall>x\<in>set xs. P x \<longleftrightarrow> Q x \<Longrightarrow> filter P xs = filter Q xs"
  by (rule filter_cong) auto

lemma items_of_resume:
  assumes "keyed es" and "n < length (items_of pfx delimiter skip es)"
  shows "drop (Suc n) (items_of pfx delimiter skip es) =
    items_of pfx delimiter None
      (filter (\<lambda>e. after_cursor (cursor_of_item (items_of pfx delimiter skip es ! n)) (fst e)) es)"
  using assms
proof (induction es arbitrary: n skip)
  case (Cons e es)
  obtain k m where e: "e = (k, m)" by (cases e)
  have ks: "mk_key (m_key m) = k" "\<forall>e\<in>set es. k < fst e" "keyed es"
    using Cons.prems(1) by (auto simp: e keyed_Cons)
  have notk: "\<not> after_cursor (cursor_of_item i) k" if "i \<in> set (items_of pfx delimiter s es)" for i s
    using not_after_earlier [OF that ks(3), of k] ks(2) by (auto simp: less_imp_le)
  show ?case
  proof (cases "m_kind m \<noteq> Object \<or> (\<exists>s\<in>set_option skip. prefix s k)")
    case True
    then have same: "items_of pfx delimiter skip (e # es) = items_of pfx delimiter skip es"
      by (simp add: e)
    have n: "n < length (items_of pfx delimiter skip es)" using Cons.prems(2) unfolding same .
    show ?thesis
      unfolding same Cons.IH [OF ks(3) n] using notk [OF nth_mem [OF n]] by (simp add: e)
  next
    case False
    define s where "s = common_prefix_of pfx delimiter k"
    have split: "items_of pfx delimiter skip (e # es) =
        (case s of Some cp \<Rightarrow> ItemCommonPrefix cp | None \<Rightarrow> ItemObject m) # items_of pfx delimiter s es"
      using False by (auto simp: e s_def split: option.splits)
    show ?thesis
    proof (cases n)
      case (Suc j)
      then have j: "j < length (items_of pfx delimiter s es)" using Cons.prems(2) split by simp
      show ?thesis
        unfolding split Suc using Cons.IH [OF ks(3) j] notk [OF nth_mem [OF j]] by (simp add: e)
    next
      case 0
      show ?thesis
      proof (cases s)
        case None
        then show ?thesis
          unfolding split 0 using ks by (simp add: e cursor_of_item_def after_cursor_def)
      next
        case (Some cp)
        have cp: "prefix cp k" using common_prefix_prefix Some s_def by metis
        have gt: "\<forall>e\<in>set es. cp < fst e" using prefix_imp_le [OF cp] ks(2) by (meson order.strict_trans1)
        then have "filter (\<lambda>e. after_cursor (AfterPrefix cp) (fst e)) (e # es) =
            filter (\<lambda>e. \<not> prefix cp (fst e)) es"
          using cp by (auto simp: after_cursor_def e intro!: filter_all)
        then show ?thesis
          unfolding split 0 using Some items_of_skip [of es cp pfx delimiter] ks(3) gt
          by (simp add: cursor_of_item_def less_imp_le)
      qed
    qed
  qed
qed simp

text \<open>Following a truncated page's cursor lists exactly the items the page left out.\<close>

definition plain_keys :: "db \<Rightarrow> bool" where
  "plain_keys d \<longleftrightarrow> (\<forall>kb m. tbl_get (objects d) kb = Some m \<longrightarrow> plain_name (mk_key (m_key m)))"

lemma current_objects_mem:
  assumes "db_ok d" and "(k, m) \<in> set (current_objects d b)"
  shows "committed_at b k m" and "\<exists>kb. tbl_get (objects d) kb = Some m"
proof -
  have "tbl_get (current_objects d b) k = Some m"
    using assms(2) tbl.in_iter_iff [of "current_objects d b" k m] by (simp add: tbl_iter_def)
  then have "m \<in> set (versions_of d b k)"
    by (simp add: current_objects_get latest_of_Some(1))
  then show "committed_at b k m" "\<exists>kb. tbl_get (objects d) kb = Some m"
    using in_versions_of [OF assms(1)] by auto
qed

lemma current_objects_keyed: "db_ok d \<Longrightarrow> keyed (filter P (current_objects d b))"
proof -
  assume ok: "db_ok d"
  have "sorted_wrt (<) (map fst (current_objects d b))"
    using current_objects_ok [of d b] by (simp add: tbl_ok_def)
  then have "sorted_wrt (<) (map fst (filter P (current_objects d b)))"
    by (simp add: sorted_wrt_map sorted_wrt_filter)
  then show ?thesis
    using current_objects_mem(1) [OF ok] by (auto simp: keyed_def committed_at_def)
qed

lemma cursor_of_item_ok:
  assumes ok: "db_ok d" and plain: "plain_keys d" and i: "i \<in> set (list_spec d req)"
    and delim: "lq_delimiter req \<noteq> Some []"
  shows "cursor_ok (lq_prefix req) (Some (cursor_of_item i))"
proof -
  obtain k m where e: "(k, m) \<in> set (current_objects d (lq_bucket req))" "in_scope req k"
    and i: "i = ItemObject m \<or>
      (\<exists>cp. i = ItemCommonPrefix cp \<and> common_prefix_of (lq_prefix req) (lq_delimiter req) k = Some cp)"
    using item_source [OF i [unfolded list_spec_def]] by auto
  have k: "mk_key (m_key m) = k" "plain_name k" "prefix (lq_prefix req) k"
    using current_objects_mem [OF ok e(1)] plain e(2)
    by (auto simp: committed_at_def plain_keys_def in_scope_def)
  from i show ?thesis
  proof
    assume "i = ItemObject m"
    then show ?thesis using k by (simp add: cursor_of_item_def cursor_ok_def prefix_imp_le)
  next
    assume "\<exists>cp. i = ItemCommonPrefix cp \<and> common_prefix_of (lq_prefix req) (lq_delimiter req) k = Some cp"
    then obtain cp where cp: "i = ItemCommonPrefix cp"
      "common_prefix_of (lq_prefix req) (lq_delimiter req) k = Some cp" by blast
    then obtain dl pos where dl: "lq_delimiter req = Some dl" "dl \<noteq> []"
      "cp = take (length (lq_prefix req) + pos + length dl) k"
      using delim by (auto simp: common_prefix_of_def split: option.splits)
    have "prefix (lq_prefix req) cp"
      using k(3) by (auto simp: dl prefix_def)
    moreover have "plain_name cp" using k(2) set_take_subset [of _ k] by (auto simp: plain_name_def dl)
    moreover have "cp \<noteq> []"
      using cp(2) dl by (auto simp: common_prefix_of_def split: option.splits if_splits elim: find_sub.elims)
    ultimately show ?thesis by (simp add: cp cursor_of_item_def cursor_ok_def)
  qed
qed

lemma after_cursor_mono: "after_cursor cur k \<Longrightarrow> k < k' \<Longrightarrow> after_cursor cur k'"
  using prefix_between [of _ k k']
  by (auto simp: after_cursor_def less_imp_le split: list_cursor.splits intro: order.strict_trans)

lemma after_item_after_source:
  assumes "i = ItemObject m \<or> (\<exists>cp. i = ItemCommonPrefix cp \<and> common_prefix_of pfx delimiter k = Some cp)"
    and "mk_key (m_key m) = k" and "after_cursor (cursor_of_item i) k'"
  shows "k < k'"
  using assms(1)
proof
  assume "\<exists>cp. i = ItemCommonPrefix cp \<and> common_prefix_of pfx delimiter k = Some cp"
  then obtain cp where cp: "i = ItemCommonPrefix cp" "prefix cp k" by (auto dest: common_prefix_prefix)
  then show ?thesis
    using assms(3) prefix_between [of cp k' k]
    by (intro not_le_imp_less notI) (auto simp: cursor_of_item_def after_cursor_def less_imp_le)
qed (use assms(2,3) in \<open>simp add: cursor_of_item_def after_cursor_def\<close>)

lemma scope_resume:
  assumes "i \<in> set (list_spec d req)" and "db_ok d"
  shows "in_scope (req\<lparr>lq_cursor := Some (cursor_of_item i)\<rparr>) k \<longleftrightarrow>
    in_scope req k \<and> after_cursor (cursor_of_item i) k"
proof -
  obtain k0 m where e: "(k0, m) \<in> set (current_objects d (lq_bucket req))" "in_scope req k0"
    and i: "i = ItemObject m \<or>
      (\<exists>cp. i = ItemCommonPrefix cp \<and> common_prefix_of (lq_prefix req) (lq_delimiter req) k0 = Some cp)"
    using item_source [OF assms(1) [unfolded list_spec_def]] by auto
  have "mk_key (m_key m) = k0" using current_objects_mem(1) [OF assms(2) e(1)] by (simp add: committed_at_def)
  then have "after_cursor (cursor_of_item i) k \<Longrightarrow> k0 < k"
    using after_item_after_source [OF i] by blast
  with e(2) show ?thesis
    by (auto simp: in_scope_def after_cursor_mono split: option.splits)
qed

lemma list_spec_resume:
  assumes ok: "db_ok d" and n: "n < length (list_spec d req)"
  shows "list_spec d (req\<lparr>lq_cursor := Some (cursor_of_item (list_spec d req ! n))\<rparr>) =
    drop (Suc n) (list_spec d req)"
proof -
  let ?es = "filter (\<lambda>e. in_scope req (fst e)) (current_objects d (lq_bucket req))"
  let ?i = "list_spec d req ! n"
  have "drop (Suc n) (list_spec d req) =
      items_of (lq_prefix req) (lq_delimiter req) None
        (filter (\<lambda>e. after_cursor (cursor_of_item ?i) (fst e)) ?es)"
    using items_of_resume [OF current_objects_keyed [OF ok, of "\<lambda>e. in_scope req (fst e)" "lq_bucket req"],
        of n "lq_prefix req" "lq_delimiter req" None] n
    by (simp add: list_spec_def)
  also have "filter (\<lambda>e. after_cursor (cursor_of_item ?i) (fst e)) ?es =
      filter (\<lambda>e. in_scope (req\<lparr>lq_cursor := Some (cursor_of_item ?i)\<rparr>) (fst e))
        (current_objects d (lq_bucket req))"
    using scope_resume [OF nth_mem [OF n] ok] by (simp add: conj_commute)
  finally show ?thesis by (simp add: list_spec_def)
qed

subsection \<open>Version listing\<close>

definition add_version :: "(string, manifest list) table \<Rightarrow> manifest \<Rightarrow> (string, manifest list) table" where
  "add_version t m =
     tbl_insert t (mk_key (m_key m))
       ((case tbl_get t (mk_key (m_key m)) of None \<Rightarrow> [] | Some ms \<Rightarrow> ms) @ [m])"

lemma versions_scan_fold:
  "prefix_first pfx es \<Longrightarrow>
     versions_scan pfx es t = foldl add_version t (filter (committed_with_prefix pfx) (map snd es))"
proof (induction pfx es t rule: versions_scan.induct)
  case (2 pfx kb m rest t)
  then show ?case
    using prefix_first_cut [of pfx "(kb, m)" rest] prefix_first_tl [of pfx "(kb, m)" rest]
    by (simp add: add_version_def [of t m] committed_with_prefix_def [of pfx m])
qed simp

lemma add_version_ok: "tbl_ok t \<Longrightarrow> tbl_ok (foldl add_version t ms)"
  by (induction ms arbitrary: t) (auto simp: add_version_def)

lemma add_version_get:
  "tbl_get (foldl add_version t ms) k =
     (case (case tbl_get t k of None \<Rightarrow> [] | Some vs \<Rightarrow> vs) @ filter (\<lambda>m. mk_key (m_key m) = k) ms of
        [] \<Rightarrow> tbl_get t k | vs \<Rightarrow> Some vs)"
  by (induction ms arbitrary: t) (auto simp: add_version_def split: option.splits list.splits)

text \<open>Entries of one key, and of all keys, with no page limit.\<close>

definition flag_versions :: "nat \<Rightarrow> manifest list \<Rightarrow> list_object_version_entry list" where
  "flag_versions i ms =
     map (\<lambda>(j, m). \<lparr>ve_manifest = m, ve_is_latest = (j = 0)\<rparr>) (zip [i..<i + length ms] ms)"

definition version_entries :: "(string \<times> manifest list) list \<Rightarrow> list_object_version_entry list" where
  "version_entries es = concat (map (\<lambda>e. flag_versions 0 (newest_first (snd e))) es)"

lemma flag_versions_Cons:
  "flag_versions i (m # ms) = \<lparr>ve_manifest = m, ve_is_latest = (i = 0)\<rparr> # flag_versions (Suc i) ms"
  by (simp add: flag_versions_def upt_conv_Cons del: upt_Suc)

lemma emit_versions_eq:
  "length entries \<le> limit \<Longrightarrow>
     emit_versions limit i ms entries =
       (limit < length (entries @ flag_versions i ms), take limit (entries @ flag_versions i ms))"
proof (induction limit i ms entries rule: emit_versions.induct)
  case (1 limit i entries)
  then show ?case by (simp add: flag_versions_def)
next
  case (2 limit i m ms entries)
  then show ?case by (cases "limit \<le> length entries") (auto simp: flag_versions_Cons)
qed

lemma emit_keys_eq:
  "length entries \<le> limit \<Longrightarrow>
     emit_keys limit es entries =
       (limit < length (entries @ version_entries es), take limit (entries @ version_entries es))"
proof (induction limit es entries rule: emit_keys.induct)
  case (2 limit k versions rest entries)
  let ?one = "entries @ flag_versions 0 (newest_first versions)"
  show ?case
  proof (cases "limit < length ?one")
    case True
    then have "take limit (?one @ version_entries rest) = take limit ?one" by simp
    with True show ?thesis
      by (simp add: emit_versions_eq [OF "2.prems"] version_entries_def)
  next
    case False
    then show ?thesis
      using "2.IH" [of False ?one] by (simp add: emit_versions_eq [OF "2.prems"] version_entries_def)
  qed
qed (simp add: version_entries_def)

text \<open>Specification: the committed versions of every key in scope, newest first within a key.\<close>

definition versions_spec :: "db \<Rightarrow> list_objects_request \<Rightarrow> list_object_version_entry list" where
  "versions_spec d req =
     version_entries
       (map (\<lambda>e. (fst e, versions_of d (lq_bucket req) (fst e)))
         (filter (\<lambda>e. in_scope req (fst e)) (current_objects d (lq_bucket req))))"

definition versions_page_of :: "nat \<Rightarrow> list_object_version_entry list \<Rightarrow> list_object_versions_page" where
  "versions_page_of limit all =
     \<lparr>vp_entries = take limit all, vp_truncated = (limit < length all),
      vp_next_cursor =
        (if limit < length all \<and> 0 < limit
         then Some (AfterKey (mk_key (m_key (ve_manifest (all ! (limit - 1)))))) else None)\<rparr>"

lemma tbl_get_map_values: "tbl_get (map (\<lambda>e. (fst e, f (fst e))) t) k = (if tbl_get t k = None then None else Some (f k))"
  by (induction t) (auto simp: tbl_get_def)

lemma scoped_versions:
  assumes ok: "db_ok d" and keys: "keys_ok d" and nf: "nul \<notin> set (lq_bucket req)" "nul \<notin> set (lq_prefix req)"
    and cur: "cursor_ok (lq_prefix req) (lq_cursor req)"
  shows "versions_scan (lq_prefix req) (tbl_range (objects d) (scan_start req) (scan_end req)) [] =
    map (\<lambda>e. (fst e, versions_of d (lq_bucket req) (fst e)))
      (filter (\<lambda>e. in_scope req (fst e)) (current_objects d (lq_bucket req)))"
    (is "?scan = ?spec")
proof (rule tbl_eq_iff)
  note fold = versions_scan_fold [OF scan_prefix_first [OF assms], of "[]"]
  note row = latest_scan_fold [OF scan_prefix_first [OF assms], of "[]"]
  show "tbl_ok ?scan" by (simp add: fold add_version_ok)
  show "tbl_ok ?spec" using tbl_ok_filter [OF current_objects_ok, of "\<lambda>e. in_scope req (fst e)" d "lq_bucket req"]
    by (simp add: tbl_ok_def comp_def)
  show "tbl_get ?scan k = tbl_get ?spec k" for k
  proof -
    have sel: "filter (\<lambda>m. mk_key (m_key m) = k) (filter (committed_with_prefix (lq_prefix req))
        (map snd (tbl_range (objects d) (scan_start req) (scan_end req)))) =
      (if in_scope req k then versions_of d (lq_bucket req) k else [])"
      by (rule scan_key_versions [OF assms])
    show ?thesis
      unfolding fold add_version_get tbl_get_map_values sel
      using latest_of_None [of "versions_of d (lq_bucket req) k"]
      by (auto simp: current_objects_get split: list.splits)
  qed
qed

lemma last_take_nth: "0 < n \<Longrightarrow> n < length xs \<Longrightarrow> last (take n xs) = xs ! (n - 1)"
  by (subst last_conv_nth) auto

lemma list_object_versions_spec:
  assumes "db_ok d" "keys_ok d" "nul \<notin> set (lq_bucket req)" "nul \<notin> set (lq_prefix req)"
    "cursor_ok (lq_prefix req) (lq_cursor req)"
  shows "handle_list_object_versions d req = Inr (versions_page_of (lq_limit req) (versions_spec d req))"
  by (auto simp: handle_list_object_versions_def scoped_versions [OF assms] emit_keys_eq tbl_iter_def
      versions_spec_def [symmetric] versions_page_of_def Let_def last_take_nth)

text \<open>The first of the versions sorted newest first is the one the latest-version scan picks.\<close>

lemma pick_fold_first:
  "foldl pick acc ms = Some m \<Longrightarrow>
     hd (filter (\<lambda>w. m_last_modified w = m_last_modified m) ((case acc of None \<Rightarrow> [] | Some a \<Rightarrow> [a]) @ ms)) = m"
proof (induction ms arbitrary: acc)
  case (Cons x ms)
  have ge: "m_last_modified a \<le> m_last_modified m" if "pick acc x = Some a" for a
    using pick_fold_max [of "pick acc x" ms m a] Cons.prems that by simp
  show ?case
    using Cons.IH [of "pick acc x"] Cons.prems ge
    by (cases acc) (auto simp: pick_def newer_def split: if_splits)
qed simp

lemma newest_first_hd:
  assumes "latest_of ms = Some m"
  shows "\<exists>rest. newest_first ms = m # rest"
proof -
  have in_m: "m \<in> set ms" and max: "\<And>w. w \<in> set ms \<Longrightarrow> m_last_modified w \<le> m_last_modified m"
    by (rule latest_of_Some [OF assms], assumption?)+
  have "hd (filter (\<lambda>w. m_last_modified w = m_last_modified m) ms) = m"
    using pick_fold_first [of None ms m] assms by (simp add: latest_of_def)
  moreover have same: "filter (\<lambda>w. m_last_modified w = m_last_modified m) (newest_first ms) =
      filter (\<lambda>w. m_last_modified w = m_last_modified m) ms"
    using sort_key_stable [of "\<lambda>m. - m_last_modified m" "- m_last_modified m" ms] by (simp add: newest_first_def)
  ultimately have hd: "hd (filter (\<lambda>w. m_last_modified w = m_last_modified m) (newest_first ms)) = m" by simp
  obtain a rest where a: "newest_first ms = a # rest"
    using in_m by (cases "newest_first ms") (auto simp: newest_first_def dest: arg_cong [of _ _ set])
  have "sorted (map (\<lambda>m. - m_last_modified m) (newest_first ms))" by (simp add: newest_first_def)
  moreover have "m \<in> set (newest_first ms)" "a \<in> set ms"
    using in_m arg_cong [OF a, of set] by (auto simp: newest_first_def)
  ultimately have "m_last_modified a = m_last_modified m"
    using max [of a] by (auto simp: a)
  with hd a show ?thesis by simp
qed

lemma in_flag_versions:
  "e \<in> set (flag_versions i ms) \<Longrightarrow> ve_manifest e \<in> set ms \<and> (ve_is_latest e \<longrightarrow> i = 0)"
  by (induction ms arbitrary: i) (auto simp: flag_versions_Cons simp: flag_versions_def [of _ "[]"])

lemma flag_versions_latest:
  "e \<in> set (flag_versions 0 (newest_first vs)) \<Longrightarrow>
     ve_manifest e \<in> set vs \<and> (ve_is_latest e \<longrightarrow> latest_of vs = Some (ve_manifest e))"
proof (cases "latest_of vs")
  case None
  assume "e \<in> set (flag_versions 0 (newest_first vs))"
  with None show ?thesis by (simp add: flag_versions_def newest_first_def)
next
  case (Some m)
  assume e: "e \<in> set (flag_versions 0 (newest_first vs))"
  obtain rest where r: "newest_first vs = m # rest" using newest_first_hd [OF Some] by blast
  have "e = \<lparr>ve_manifest = m, ve_is_latest = True\<rparr> \<or> e \<in> set (flag_versions 1 rest)"
    using e by (simp add: r flag_versions_Cons)
  then show ?thesis
  proof
    assume "e = \<lparr>ve_manifest = m, ve_is_latest = True\<rparr>"
    then show ?thesis using Some latest_of_Some(1) [OF Some] by simp
  next
    assume rest: "e \<in> set (flag_versions 1 rest)"
    have "set (newest_first vs) = set vs" by (simp add: newest_first_def)
    then show ?thesis using in_flag_versions [OF rest] unfolding r by simp blast
  qed
qed

lemma in_versions_spec:
  assumes ok: "db_ok d" and e: "e \<in> set (versions_spec d req)"
  shows "in_scope req (mk_key (m_key (ve_manifest e)))"
    "e \<in> set (flag_versions 0
        (newest_first (versions_of d (lq_bucket req) (mk_key (m_key (ve_manifest e))))))"
proof -
  obtain k where k: "in_scope req k"
    "e \<in> set (flag_versions 0 (newest_first (versions_of d (lq_bucket req) k)))"
    using e by (auto simp: versions_spec_def version_entries_def)
  then have "committed_at (lq_bucket req) k (ve_manifest e)"
    using flag_versions_latest [OF k(2)] in_versions_of [OF ok] by simp
  with k show "in_scope req (mk_key (m_key (ve_manifest e)))"
    "e \<in> set (flag_versions 0
        (newest_first (versions_of d (lq_bucket req) (mk_key (m_key (ve_manifest e))))))"
    by (simp_all add: committed_at_def)
qed

lemma manifests_of_entries:
  "map ve_manifest (flag_versions i ms) = ms"
  "map ve_manifest (version_entries es) = concat (map (\<lambda>e. newest_first (snd e)) es)"
proof -
  show flag: "map ve_manifest (flag_versions i ms) = ms" for i ms
    by (induction ms arbitrary: i) (simp_all add: flag_versions_Cons, simp add: flag_versions_def)
  show "map ve_manifest (version_entries es) = concat (map (\<lambda>e. newest_first (snd e)) es)"
    by (simp add: version_entries_def map_concat comp_def flag)
qed

lemma flag_versions_latest_iff:
  assumes "distinct vs" and e: "e \<in> set (flag_versions 0 (newest_first vs))"
  shows "ve_is_latest e \<longleftrightarrow> latest_of vs = Some (ve_manifest e)"
proof
  assume l: "latest_of vs = Some (ve_manifest e)"
  obtain rest where r: "newest_first vs = ve_manifest e # rest" using newest_first_hd [OF l] by blast
  have "distinct (newest_first vs)" using assms(1) by (simp add: newest_first_def distinct_sort)
  then have "ve_manifest e \<notin> set rest" by (simp add: r)
  moreover have "ve_manifest ` set (flag_versions 1 rest) = set rest"
    using arg_cong [OF manifests_of_entries(1) [of 1 rest], of set] by simp
  ultimately have "e \<notin> set (flag_versions 1 rest)" by blast
  then have "e = \<lparr>ve_manifest = ve_manifest e, ve_is_latest = True\<rparr>" using e by (auto simp: r flag_versions_Cons)
  then show "ve_is_latest e" by (metis list_object_version_entry.select_convs(2))
qed (use flag_versions_latest [OF e] in blast)

lemma versions_of_distinct:
  assumes ok: "db_ok d" and keys: "keys_ok d"
  shows "distinct (versions_of d b k)"
proof -
  have own: "kb = encode (m_key m)" if "(kb, m) \<in> set (tbl_iter (objects d))" for kb m
    using that keys by (simp add: in_objects [OF ok] keys_ok_def)
  have "inj_on snd (set (tbl_iter (objects d)))"
    by (rule inj_onI) (metis own prod.collapse)
  moreover have "distinct (tbl_iter (objects d))"
    using ok tbl.iter_distinct [of "objects d"] by (simp add: db_ok_def distinct_map)
  ultimately show ?thesis by (simp add: versions_of_def distinct_map)
qed

text \<open>The order of a version listing: by key, newest first within a key.\<close>

definition listed_before :: "manifest \<Rightarrow> manifest \<Rightarrow> bool" where
  "listed_before m m' \<longleftrightarrow>
     mk_key (m_key m) < mk_key (m_key m') \<or>
     mk_key (m_key m) = mk_key (m_key m') \<and> m_last_modified m' \<le> m_last_modified m"

lemma sorted_by_key:
  assumes "sorted_wrt (<) ks" and "\<And>k. k \<in> set ks \<Longrightarrow> \<forall>m\<in>set (f k). mk_key (m_key m) = k"
    and "\<And>k. k \<in> set ks \<Longrightarrow> sorted_wrt (\<lambda>m m'. m_last_modified m' \<le> m_last_modified m) (f k)"
  shows "sorted_wrt listed_before (concat (map f ks))"
  using assms
proof (induction ks)
  case (Cons k ks)
  have "sorted_wrt listed_before (f k)"
    by (rule sorted_wrt_mono_rel [OF _ Cons.prems(3)]) (use Cons.prems(2) [of k] in \<open>auto simp: listed_before_def\<close>)
  moreover have "listed_before m m'" if "m \<in> set (f k)" "j \<in> set ks" "m' \<in> set (f j)" for m m' j
    using that Cons.prems(1) Cons.prems(2) [of k] Cons.prems(2) [of j] by (auto simp: listed_before_def)
  ultimately show ?case using Cons by (auto simp: sorted_wrt_append)
qed simp

lemma distinct_by_key:
  assumes "distinct ks" and "\<And>k. k \<in> set ks \<Longrightarrow> \<forall>m\<in>set (f k). mk_key (m_key m) = k"
    and "\<And>k. k \<in> set ks \<Longrightarrow> distinct (f k)"
  shows "distinct (concat (map f ks))"
  using assms
proof (induction ks)
  case (Cons k ks)
  have "m \<notin> set (f j)" if "j \<in> set ks" "m \<in> set (f k)" for j m
    using that Cons.prems(1) Cons.prems(2) [of k] Cons.prems(2) [of j] by auto
  then have "set (f k) \<inter> set (concat (map f ks)) = {}" by auto
  moreover have "distinct (concat (map f ks))" using Cons by simp
  ultimately show ?case using Cons.prems(3) [of k] by simp
qed simp

definition listed_keys :: "db \<Rightarrow> list_objects_request \<Rightarrow> string list" where
  "listed_keys d req = map fst (filter (\<lambda>e. in_scope req (fst e)) (current_objects d (lq_bucket req)))"

lemma listed_keys:
  "sorted_wrt (<) (listed_keys d req)"
  "k \<in> set (listed_keys d req) \<longleftrightarrow> in_scope req k \<and> versions_of d (lq_bucket req) k \<noteq> []"
proof -
  have ok: "tbl_ok (current_objects d (lq_bucket req))" by simp
  show "sorted_wrt (<) (listed_keys d req)"
    using ok unfolding listed_keys_def tbl_ok_def by (simp add: sorted_wrt_map sorted_wrt_filter)
  have "k \<in> fst ` set (current_objects d (lq_bucket req)) \<longleftrightarrow> versions_of d (lq_bucket req) k \<noteq> []"
  proof -
    have "k \<in> fst ` set (current_objects d (lq_bucket req)) \<longleftrightarrow> (\<exists>m. tbl_get (current_objects d (lq_bucket req)) k = Some m)"
      using tbl.in_iter_iff [OF ok, of k] by (simp add: tbl_iter_def image_iff Bex_def)
    then show ?thesis
      using latest_of_None [of "versions_of d (lq_bucket req) k"]
      by (cases "latest_of (versions_of d (lq_bucket req) k)") (simp_all add: current_objects_get)
  qed
  then show "k \<in> set (listed_keys d req) \<longleftrightarrow> in_scope req k \<and> versions_of d (lq_bucket req) k \<noteq> []"
    by (force simp: listed_keys_def)
qed

lemma listed_manifests:
  "map ve_manifest (versions_spec d req) =
     concat (map (\<lambda>k. newest_first (versions_of d (lq_bucket req) k)) (listed_keys d req))"
  by (simp add: versions_spec_def manifests_of_entries(2) listed_keys_def comp_def)

lemma newest_first_facts:
  "set (newest_first vs) = set vs" "distinct (newest_first vs) = distinct vs"
  "sorted_wrt (\<lambda>m m'. m_last_modified m' \<le> m_last_modified m) (newest_first vs)"
proof -
  show "set (newest_first vs) = set vs" "distinct (newest_first vs) = distinct vs"
    by (simp_all add: newest_first_def distinct_sort)
  have "sorted (map (\<lambda>m. - m_last_modified m) (newest_first vs))" by (simp add: newest_first_def)
  then show "sorted_wrt (\<lambda>m m'. m_last_modified m' \<le> m_last_modified m) (newest_first vs)"
    by (simp add: sorted_wrt_map)
qed

lemma versions_spec_facts:
  assumes ok: "db_ok d" and keys: "keys_ok d"
  shows "distinct (map ve_manifest (versions_spec d req))"
    "sorted_wrt listed_before (map ve_manifest (versions_spec d req))"
    "m \<in> ve_manifest ` set (versions_spec d req) \<longleftrightarrow>
       (\<exists>kb. tbl_get (objects d) kb = Some m) \<and> m_state m = Committed \<and> mk_bucket (m_key m) = lq_bucket req \<and>
       in_scope req (mk_key (m_key m))"
proof -
  let ?f = "\<lambda>k. newest_first (versions_of d (lq_bucket req) k)"
  have own: "\<forall>m\<in>set (?f k). mk_key (m_key m) = k" for k
    by (simp add: newest_first_facts(1) in_versions_of [OF ok] committed_at_def)
  have "distinct (listed_keys d req)" using listed_keys(1) strict_sorted_iff by blast
  then show "distinct (map ve_manifest (versions_spec d req))"
    unfolding listed_manifests
    by (rule distinct_by_key) (use own in \<open>simp_all add: newest_first_facts(2) versions_of_distinct [OF ok keys]\<close>)
  show "sorted_wrt listed_before (map ve_manifest (versions_spec d req))"
    unfolding listed_manifests
    by (rule sorted_by_key [OF listed_keys(1)]) (use own newest_first_facts(3) in blast)+
  have "m \<in> ve_manifest ` set (versions_spec d req) \<longleftrightarrow>
      (\<exists>k. k \<in> set (listed_keys d req) \<and> m \<in> set (versions_of d (lq_bucket req) k))"
    using arg_cong [OF listed_manifests [of d req], of set] by (auto simp: newest_first_facts(1))
  also have "\<dots> \<longleftrightarrow> (\<exists>k. in_scope req k \<and> m \<in> set (versions_of d (lq_bucket req) k))"
    unfolding listed_keys(2) by (metis empty_iff list.set(1))
  finally show "m \<in> ve_manifest ` set (versions_spec d req) \<longleftrightarrow>
       (\<exists>kb. tbl_get (objects d) kb = Some m) \<and> m_state m = Committed \<and> mk_bucket (m_key m) = lq_bucket req \<and>
       in_scope req (mk_key (m_key m))"
    by (auto simp: in_versions_of [OF ok] committed_at_def)
qed

subsection \<open>Emptiness of a bucket\<close>

lemma bucket_rows:
  assumes ok: "db_ok d" and keys: "keys_ok d" and nf: "nul \<notin> set b"
  shows "(kb, m) \<in> set (tbl_range (objects d) (b @ [nul]) (b @ [soh])) \<longleftrightarrow>
    tbl_get (objects d) kb = Some m \<and> mk_bucket (m_key m) = b"
proof -
  have "b @ [nul] \<le> kb \<and> kb < b @ [soh] \<longleftrightarrow> mk_bucket (m_key m) = b" if "tbl_get (objects d) kb = Some m"
  proof -
    have "kb = encode (m_key m)" "nul_free_key (m_key m)" using keys that by (auto simp: keys_ok_def)
    then show ?thesis using nul_range_iff_prefix [of b kb] prefix_nul_encode [of "m_key m" b] nf by simp
  qed
  then show ?thesis using ok by (auto simp: db_ok_def in_tbl_range_iff)
qed

subsection \<open>The early exit of the listing loop\<close>

lemma less_nul_extend: "nul \<notin> set p \<Longrightarrow> k < p \<Longrightarrow> k @ nul # v < p"
proof (induction k arbitrary: p)
  case Nil
  then show ?case by (cases p) (auto simp: less_le)
next
  case (Cons a k)
  then show ?case by (cases p) auto
qed

lemma latest_scan_break:
  "m_state m0 = Committed \<Longrightarrow> \<not> prefix pfx (mk_key (m_key m0)) \<Longrightarrow>
     \<forall>e\<in>set es. \<not> committed_with_prefix pfx (snd e) \<Longrightarrow>
     latest_scan pfx (es @ (kb0, m0) # fs) t = t"
  by (induction es) (auto simp: committed_with_prefix_def)

lemma scan_breaks:
  assumes ok: "db_ok d" and keys: "keys_ok d" and nf: "nul \<notin> set b" "nul \<notin> set c" "nul \<notin> set pfx"
    and m0: "tbl_get (objects d) kb0 = Some m0" "committed_at b k0 m0" "c < k0" "k0 < pfx" "\<not> prefix pfx k0"
    and req: "lq_bucket req = b" "lq_prefix req = pfx" "lq_cursor req = Some (AfterKey c)"
  shows "latest_by_key d req = []"
proof -
  let ?es = "tbl_range (objects d) (scan_start req) (scan_end req)"
  have tok: "tbl_ok (objects d)" using ok by (simp add: db_ok_def)
  have row: "kb = encode (m_key m)" "nul_free_key (m_key m)" if "tbl_get (objects d) kb = Some m" for kb m
    using keys that by (auto simp: keys_ok_def)
  note r0 = row [OF m0(1)]
  have k0: "nul \<notin> set k0" using r0(2) m0(2) by (simp add: nul_free_key_def committed_at_def)
  have start: "scan_start req \<le> kb0"
    using append_soh_le_iff [of c k0] nf k0 m0(2,3) r0(1)
    by (simp add: req scan_start_def after_key_def encode_def committed_at_def)
  have in_b: "kb0 < scan_end req"
    using bucket_rows [OF ok keys nf(1), of kb0 m0] m0 tok by (simp add: in_tbl_range_iff scan_end_def req committed_at_def)
  have "(kb0, m0) \<in> set ?es" using m0(1) start in_b tok by (simp add: in_tbl_range_iff)
  then obtain es fs where split: "?es = es @ (kb0, m0) # fs" by (auto dest: split_list)
  have before: "\<not> committed_with_prefix pfx (snd e)" if e: "e \<in> set es" for e
  proof
    assume cp: "committed_with_prefix pfx (snd e)"
    have lt: "fst e < kb0"
      using tbl_range_sorted [OF tok, of "scan_start req" "scan_end req"] e
      by (auto simp: split sorted_wrt_append)
    have get: "tbl_get (objects d) (fst e) = Some (snd e)" "scan_start req \<le> fst e"
      using e tok in_tbl_range_iff [of "objects d" "fst e" "snd e" "scan_start req" "scan_end req"]
      by (auto simp: split)
    note re = row [OF get(1)]
    have "b @ [nul] \<le> scan_start req" by (simp add: req scan_start_def after_key_def)
    then have "b @ [nul] \<le> fst e" using get(2) by (rule order.trans)
    moreover have "fst e < b @ [soh]" using lt in_b unfolding scan_end_def req by (rule order.strict_trans)
    ultimately have "mk_bucket (m_key (snd e)) = b"
      using bucket_rows [OF ok keys nf(1), of "fst e" "snd e"] get(1) tok
        in_tbl_range_iff [of "objects d" "fst e" "snd e" "b @ [nul]" "b @ [soh]"] by simp
    then have "mk_key (m_key (snd e)) @ nul # mk_version_id (m_key (snd e)) < k0 @ nul # mk_version_id (m_key m0)"
      using lt re(1) r0(1) m0(2) by (simp add: encode_def committed_at_def)
    moreover have "pfx \<le> mk_key (m_key (snd e)) @ nul # mk_version_id (m_key (snd e))"
      using cp by (simp add: committed_with_prefix_def prefix_imp_le)
    moreover have "k0 @ nul # mk_version_id (m_key m0) < pfx"
      by (rule less_nul_extend [OF nf(3) m0(4)])
    ultimately show False by (meson leD order.strict_trans order.strict_trans1)
  qed
  show ?thesis
    unfolding latest_by_key_def split
    using latest_scan_break [of m0 pfx es kb0 fs "[]"] before m0(2,5) by (simp add: req committed_at_def)
qed

subsection \<open>Properties\<close>

text \<open>
  What a scan relies on: the database invariant, NUL-free names, and a cursor that an
  earlier page can have handed out.
\<close>

definition scan_pre :: "db \<Rightarrow> list_objects_request \<Rightarrow> bool" where
  "scan_pre d req \<longleftrightarrow> db_ok d \<and> keys_ok d \<and> nul \<notin> set (lq_bucket req) \<and> nul \<notin> set (lq_prefix req) \<and>
     cursor_ok (lq_prefix req) (lq_cursor req)"

lemma scan_pre_D:
  assumes "scan_pre d req"
  shows "db_ok d" "keys_ok d" "nul \<notin> set (lq_bucket req)" "nul \<notin> set (lq_prefix req)"
    "cursor_ok (lq_prefix req) (lq_cursor req)"
  using assms by (auto simp: scan_pre_def)

definition demo_request :: list_objects_request where
  "demo_request = \<lparr>lq_bucket = ''b'', lq_prefix = [], lq_delimiter = Some ''/'', lq_cursor = None, lq_limit = 1\<rparr>"

lemma demo_scan_pre: "scan_pre demo_db demo_request"
  by (simp add: scan_pre_def demo_ok demo_keys_ok demo_request_def cursor_ok_def)

lemma demo_plain_keys: "plain_keys demo_db"
  by (auto simp: plain_keys_def plain_name_def tbl_get_def demo_defs split: if_splits)

text \<open>
  C7.  Object listing refines its specification, page by page: a page holds the first
  \<^verbatim>\<open>limit\<close> items of the specified listing (latest committed version per key, tombstones hidden,
  keys grouped under common prefixes), it is truncated exactly when items are left, and the
  request with the cursor of a truncated page lists exactly the items left, whatever mix of
  objects and common prefixes the page ends with.
\<close>

theorem list_objects_pages:
  assumes pre: "scan_pre d req" and plain: "plain_keys d" and delim: "lq_delimiter req \<noteq> Some []"
    and call: "handle_list_objects d req = Inr page"
  shows "lp_items page = take (lq_limit req) (list_spec d req) \<and>
    (lp_truncated page \<longleftrightarrow> lq_limit req < length (list_spec d req)) \<and>
    (lp_truncated page \<and> 0 < lq_limit req \<longrightarrow>
      (\<exists>c. lp_next_cursor page = Some c \<and> scan_pre d (req\<lparr>lq_cursor := Some c\<rparr>) \<and>
        lp_items page @ list_spec d (req\<lparr>lq_cursor := Some c\<rparr>) = list_spec d req))"
proof -
  note pre' = scan_pre_D [OF pre]
  have page: "page = page_of (lq_limit req) (list_spec d req)"
    using call list_objects_spec [OF pre'] by simp
  have "\<exists>c. lp_next_cursor page = Some c \<and> scan_pre d (req\<lparr>lq_cursor := Some c\<rparr>) \<and>
        lp_items page @ list_spec d (req\<lparr>lq_cursor := Some c\<rparr>) = list_spec d req"
    if t: "lp_truncated page" "0 < lq_limit req"
  proof -
    let ?n = "lq_limit req - 1"
    have n: "?n < length (list_spec d req)" using t by (simp add: page page_of_def)
    note cur = cursor_of_item_ok [OF pre'(1) plain nth_mem [OF n] delim]
    have "lp_next_cursor page = Some (cursor_of_item (list_spec d req ! ?n))"
      using t by (simp add: page page_of_def)
    moreover have "lp_items page @ drop (Suc ?n) (list_spec d req) = list_spec d req"
      using t by (simp add: page page_of_def)
    ultimately show ?thesis
      using cur pre' list_spec_resume [OF pre'(1) n] by (simp add: scan_pre_def)
  qed
  then show ?thesis by (auto simp: page page_of_def)
qed

lemma demo_listing:
  "handle_list_objects demo_db demo_request =
     Inr \<lparr>lp_items = [ItemCommonPrefix ''a/''], lp_truncated = True, lp_next_cursor = Some (AfterPrefix ''a/'')\<rparr>"
  by (simp add: handle_list_objects_def demo_request_def latest_by_key_def tbl_range_def tbl_iter_def
      scan_start_def initial_scan_start_def scan_end_def demo_defs encode_def less_char_def newer_def tbl_get_def
      common_prefix_of_def cursor_of_item_def)

theorem list_objects_pages_witness:
  "ItemCommonPrefix ''a/'' # list_spec demo_db (demo_request\<lparr>lq_cursor := Some (AfterPrefix ''a/'')\<rparr>) =
     list_spec demo_db demo_request"
  using list_objects_pages [OF demo_scan_pre demo_plain_keys _ demo_listing]
  by (simp add: demo_request_def)

text \<open>
  C18.  The latest-version lookup returns a stored, committed manifest of exactly the
  requested bucket and key that no other committed version of the key is newer than, and
  returns nothing only when the key has no committed version.
\<close>

theorem get_latest_version_correct:
  assumes "db_ok d" and "keys_ok d" and "nul \<notin> set b" and "nul \<notin> set k"
    and "handle_get_latest_version d b k = Inr r"
  shows "case r of
      None \<Rightarrow> \<forall>kb m. tbl_get (objects d) kb = Some m \<longrightarrow> \<not> committed_at b k m
    | Some m \<Rightarrow> handle_get_manifest d (m_key m) = Inr (Some m) \<and> committed_at b k m \<and>
        (\<forall>kb m'. tbl_get (objects d) kb = Some m' \<and> committed_at b k m' \<longrightarrow>
           m_last_modified m' \<le> m_last_modified m)"
proof -
  have r: "r = latest_of (versions_of d b k)"
    using assms(5) get_latest_version_spec [OF assms(1-4)] by simp
  note mem = in_versions_of [OF assms(1)]
  show ?thesis
  proof (cases r)
    case None
    then have "versions_of d b k = []" using r by (metis latest_of_None)
    then show ?thesis using None mem [of _ b k] by auto
  next
    case (Some m)
    note l = latest_of_Some [OF Some [unfolded r]]
    have "tbl_get (objects d) (encode (m_key m)) = Some m"
      using l(1) mem assms(2) by (auto simp: keys_ok_def)
    then show ?thesis using Some l mem by (auto simp: handle_get_manifest_def)
  qed
qed

theorem get_latest_version_correct_witness:
  "\<exists>m. handle_get_latest_version demo_db ''b'' ''c'' = Inr (Some m) \<and> committed_at ''b'' ''c'' m"
proof -
  obtain r where r: "handle_get_latest_version demo_db ''b'' ''c'' = Inr r"
    by (simp add: handle_get_latest_version_def)
  have nf: "nul \<notin> set ''b''" "nul \<notin> set ''c''" by simp_all
  have "committed_at ''b'' ''c'' (demo_manifest ''b'' ''c'' ''null'' 30 [demo_part 1 ''g''])"
    and "tbl_get (objects demo_db) (''b'' @ nul # ''c'' @ nul # ''null'') =
      Some (demo_manifest ''b'' ''c'' ''null'' 30 [demo_part 1 ''g''])"
    by (simp_all add: committed_at_def tbl_get_def demo_defs encode_def)
  with get_latest_version_correct [OF demo_ok demo_keys_ok nf r] show ?thesis
    by (cases r) (auto simp: r)
qed

lemma Nil_iff_no_pair: "es = [] \<longleftrightarrow> (\<forall>k v. (k, v) \<notin> set es)"
  by (cases es) auto

text \<open>
  C29.  A bucket can be deleted exactly when it exists and no manifest of it is stored, in
  whatever state: open uploads and old versions keep it alive, and other buckets do not,
  also when one name is a prefix of the other.
\<close>

theorem delete_bucket_iff:
  assumes "db_ok d" and "keys_ok d" and "nul \<notin> set b"
  shows "(\<exists>d'. handle_delete_bucket d b = Inr ((), d')) \<longleftrightarrow>
    tbl_get (buckets d) b \<noteq> None \<and> (\<forall>kb m. tbl_get (objects d) kb = Some m \<longrightarrow> mk_bucket (m_key m) \<noteq> b)"
proof -
  have "tbl_range (objects d) (b @ [nul]) (b @ [soh]) = [] \<longleftrightarrow>
      (\<forall>kb m. tbl_get (objects d) kb = Some m \<longrightarrow> mk_bucket (m_key m) \<noteq> b)"
    using bucket_rows [OF assms] by (simp add: Nil_iff_no_pair)
  then show ?thesis by (auto simp: handle_delete_bucket_def)
qed

theorem delete_bucket_iff_witness:
  "\<not> (\<exists>d'. handle_delete_bucket demo_db ''b'' = Inr ((), d'))"
proof -
  have "tbl_get (objects demo_db) (''b'' @ nul # ''c'' @ nul # ''null'') =
      Some (demo_manifest ''b'' ''c'' ''null'' 30 [demo_part 1 ''g''])"
    by (simp add: tbl_get_def demo_defs encode_def)
  moreover have "mk_bucket (m_key (demo_manifest ''b'' ''c'' ''null'' 30 [demo_part 1 ''g''])) = ''b''"
    by (simp add: demo_defs)
  ultimately show ?thesis using delete_bucket_iff [OF demo_ok demo_keys_ok, of "''b''"] by auto
qed

text \<open>
  C19.  Version listing is exact.  A page is the beginning of a list that holds every committed
  version (delete markers included) of the bucket whose key is in scope, each once and nothing
  else, by key and newest first within a key; the page is truncated exactly when the limit cuts
  the list, and an entry is flagged latest exactly when the latest-version lookup of its key
  returns it.
\<close>

theorem list_versions_correct:
  assumes pre: "scan_pre d req" and call: "handle_list_object_versions d req = Inr page"
  shows "\<exists>all. vp_entries page = take (lq_limit req) all \<and> (vp_truncated page \<longleftrightarrow> lq_limit req < length all) \<and>
    distinct (map ve_manifest all) \<and> sorted_wrt listed_before (map ve_manifest all) \<and>
    (\<forall>m. m \<in> ve_manifest ` set all \<longleftrightarrow>
       (\<exists>kb. tbl_get (objects d) kb = Some m) \<and> m_state m = Committed \<and> mk_bucket (m_key m) = lq_bucket req \<and>
       in_scope req (mk_key (m_key m))) \<and>
    (\<forall>e\<in>set all. ve_is_latest e \<longleftrightarrow>
       handle_get_latest_version d (lq_bucket req) (mk_key (m_key (ve_manifest e))) = Inr (Some (ve_manifest e)))"
proof -
  note pre' = scan_pre_D [OF pre]
  note facts = versions_spec_facts [OF pre'(1,2)]
  have page: "page = versions_page_of (lq_limit req) (versions_spec d req)"
    using call list_object_versions_spec [OF pre'] by simp
  have "ve_is_latest e \<longleftrightarrow>
      handle_get_latest_version d (lq_bucket req) (mk_key (m_key (ve_manifest e))) = Inr (Some (ve_manifest e))"
    if e: "e \<in> set (versions_spec d req)" for e
  proof -
    let ?k = "mk_key (m_key (ve_manifest e))"
    have "\<exists>kb. tbl_get (objects d) kb = Some (ve_manifest e)" using facts(3) e by blast
    then have "nul \<notin> set ?k" using pre'(2) by (auto simp: keys_ok_def nul_free_key_def)
    then show ?thesis
      using flag_versions_latest_iff [OF versions_of_distinct [OF pre'(1,2)] in_versions_spec(2) [OF pre'(1) e]]
        get_latest_version_spec [OF pre'(1,2,3)] by simp
  qed
  then show ?thesis
    using facts by (intro exI [of _ "versions_spec d req"]) (simp add: page versions_page_of_def)
qed

definition demo_versions_request :: list_objects_request where
  "demo_versions_request =
     \<lparr>lq_bucket = ''b'', lq_prefix = [], lq_delimiter = None, lq_cursor = None, lq_limit = 1\<rparr>"

lemmas scan_eval = handle_list_object_versions_def tbl_range_def tbl_iter_def scan_start_def
  initial_scan_start_def after_key_def scan_end_def encode_def less_char_def tbl_get_def newest_first_def

text \<open>A key with two versions.\<close>

definition two_versions_db :: db where
  "two_versions_db =
     demo_db\<lparr>objects :=
       [(''b'' @ nul # ''k'' @ nul # ''v1'', demo_manifest ''b'' ''k'' ''v1'' 10 [demo_part 1 ''h'']),
        (''b'' @ nul # ''k'' @ nul # ''v2'', demo_manifest ''b'' ''k'' ''v2'' 20 [demo_part 1 ''h''])]\<rparr>"

lemma two_versions_pre: "scan_pre two_versions_db demo_versions_request"
    "scan_pre two_versions_db (demo_versions_request\<lparr>lq_cursor := Some (AfterKey ''k'')\<rparr>)"
  using demo_ok
  by (auto simp: scan_pre_def two_versions_db_def db_ok_def tbl_ok_def less_char_def keys_ok_def tbl_get_def
      encode_def nul_free_key_def demo_manifest_def demo_versions_request_def cursor_ok_def plain_name_def
      split: if_splits)

definition all_versions_request :: list_objects_request where
  "all_versions_request = demo_versions_request\<lparr>lq_limit := 2\<rparr>"

lemma all_versions_pre: "scan_pre two_versions_db all_versions_request"
  using two_versions_pre(1) by (simp add: scan_pre_def all_versions_request_def)

text \<open>Both versions of a key, the newer one first and latest.\<close>

theorem list_versions_correct_witness:
  "\<exists>page e1 e2. handle_list_object_versions two_versions_db all_versions_request = Inr page \<and>
     vp_entries page = [e1, e2] \<and> \<not> vp_truncated page \<and>
     mk_version_id (m_key (ve_manifest e1)) = ''v2'' \<and> mk_version_id (m_key (ve_manifest e2)) = ''v1'' \<and>
     listed_before (ve_manifest e1) (ve_manifest e2) \<and>
     handle_get_latest_version two_versions_db ''b'' ''k'' = Inr (Some (ve_manifest e1)) \<and> \<not> ve_is_latest e2"
proof -
  let ?e = "\<lambda>v t l. \<lparr>ve_manifest = demo_manifest ''b'' ''k'' v t [demo_part 1 ''h''], ve_is_latest = l\<rparr>"
  have page: "handle_list_object_versions two_versions_db all_versions_request =
      Inr \<lparr>vp_entries = [?e ''v2'' 20 True, ?e ''v1'' 10 False], vp_truncated = False, vp_next_cursor = None\<rparr>"
    by (simp add: scan_eval two_versions_db_def demo_versions_request_def all_versions_request_def demo_manifest_def)
  obtain all where "take 2 all = [?e ''v2'' 20 True, ?e ''v1'' 10 False]" "\<not> 2 < length all"
    "sorted_wrt listed_before (map ve_manifest all)"
    "\<forall>e\<in>set all. ve_is_latest e \<longleftrightarrow>
       handle_get_latest_version two_versions_db ''b'' (mk_key (m_key (ve_manifest e))) = Inr (Some (ve_manifest e))"
    using list_versions_correct [OF all_versions_pre page] by (auto simp: all_versions_request_def demo_versions_request_def)
  then have "listed_before (demo_manifest ''b'' ''k'' ''v2'' 20 [demo_part 1 ''h'']) (demo_manifest ''b'' ''k'' ''v1'' 10 [demo_part 1 ''h''])"
    "handle_get_latest_version two_versions_db ''b'' ''k'' = Inr (Some (demo_manifest ''b'' ''k'' ''v2'' 20 [demo_part 1 ''h'']))"
    by (auto simp: demo_manifest_def)
  then show ?thesis by (simp add: page) (simp add: demo_manifest_def)
qed

text \<open>
  C30.  A truncated version page skips versions: the cursor is the last key of the page, so
  no later page shows any further version of that key.  (The witness is a key with two
  versions of which the second is never listed.)
\<close>

theorem version_page_skips_rest_of_key:
  assumes pre: "scan_pre d req" and call: "handle_list_object_versions d req = Inr page"
    and cur: "vp_next_cursor page = Some cursor"
    and pre': "scan_pre d (req\<lparr>lq_cursor := Some cursor\<rparr>)"
    and call': "handle_list_object_versions d (req\<lparr>lq_cursor := Some cursor\<rparr>) = Inr page'"
    and e: "e \<in> set (vp_entries page')"
  shows "mk_key (m_key (ve_manifest (last (vp_entries page)))) < mk_key (m_key (ve_manifest e))"
proof -
  have c: "cursor = AfterKey (mk_key (m_key (ve_manifest (last (vp_entries page)))))"
    using call cur by (auto simp: handle_list_object_versions_def Let_def split: prod.splits if_splits)
  have "e \<in> set (versions_spec d (req\<lparr>lq_cursor := Some cursor\<rparr>))"
    using call' e list_object_versions_spec [OF scan_pre_D [OF pre']]
    by (auto simp: versions_page_of_def dest: in_set_takeD)
  from in_versions_spec(1) [OF scan_pre_D(1) [OF pre'] this]
  show ?thesis by (simp add: in_scope_def after_cursor_def c)
qed

lemma two_versions_pages:
  "handle_list_object_versions two_versions_db demo_versions_request =
     Inr \<lparr>vp_entries = [\<lparr>ve_manifest = demo_manifest ''b'' ''k'' ''v2'' 20 [demo_part 1 ''h''], ve_is_latest = True\<rparr>],
          vp_truncated = True, vp_next_cursor = Some (AfterKey ''k'')\<rparr>"
  "handle_list_object_versions two_versions_db (demo_versions_request\<lparr>lq_cursor := Some (AfterKey ''k'')\<rparr>) =
     Inr \<lparr>vp_entries = [], vp_truncated = False, vp_next_cursor = None\<rparr>"
  by (simp_all add: scan_eval two_versions_db_def demo_versions_request_def demo_manifest_def)

theorem version_page_skips_rest_of_key_witness:
  "\<exists>page page'. handle_list_object_versions two_versions_db demo_versions_request = Inr page \<and>
     handle_list_object_versions two_versions_db (demo_versions_request\<lparr>lq_cursor := vp_next_cursor page\<rparr>) = Inr page' \<and>
     vp_truncated page \<and> length (vp_entries page) = 1 \<and> vp_entries page' = [] \<and> \<not> vp_truncated page' \<and>
     (\<forall>e. e \<in> set (vp_entries page') \<longrightarrow> ''k'' < mk_key (m_key (ve_manifest e)))"
  using version_page_skips_rest_of_key [OF two_versions_pre(1) two_versions_pages(1) _ two_versions_pre(2) two_versions_pages(2)]
  by (simp add: two_versions_pages)

text \<open>
  C31.  A listing that starts before its prefix is empty: when the client's start key sorts
  below the prefix and some committed key of the bucket lies between the two, the loop stops
  at that key and reports an empty, untruncated page, however many keys have the prefix.
\<close>

theorem start_after_below_prefix_is_empty:
  assumes "db_ok d" and "keys_ok d" and "nul \<notin> set (lq_bucket req)" and "nul \<notin> set c"
    and "nul \<notin> set (lq_prefix req)" and "lq_cursor req = Some (AfterKey c)"
    and "tbl_get (objects d) kb0 = Some m0" and "committed_at (lq_bucket req) k0 m0"
    and "c < k0" and "k0 < lq_prefix req" and "\<not> prefix (lq_prefix req) k0"
  shows "handle_list_objects d req = Inr \<lparr>lp_items = [], lp_truncated = False, lp_next_cursor = None\<rparr>"
proof -
  have "latest_by_key d req = []"
    by (rule scan_breaks [OF assms(1-5,7-11) refl refl assms(6)])
  then show ?thesis by (simp add: handle_list_objects_def tbl_iter_def)
qed

theorem start_after_below_prefix_is_empty_witness:
  "handle_list_objects demo_db (demo_request\<lparr>lq_prefix := ''c'', lq_cursor := Some (AfterKey ''a'')\<rparr>) =
     Inr \<lparr>lp_items = [], lp_truncated = False, lp_next_cursor = None\<rparr> \<and>
   list_spec demo_db (demo_request\<lparr>lq_prefix := ''c'', lq_cursor := Some (AfterKey ''a'')\<rparr>) \<noteq> []"
proof
  let ?m = "demo_manifest ''b'' ''a/1'' ''null'' 10 [demo_part 1 ''h'']"
  show "handle_list_objects demo_db (demo_request\<lparr>lq_prefix := ''c'', lq_cursor := Some (AfterKey ''a'')\<rparr>) =
     Inr \<lparr>lp_items = [], lp_truncated = False, lp_next_cursor = None\<rparr>"
    by (rule start_after_below_prefix_is_empty [OF demo_ok demo_keys_ok, where c = "''a''" and ?k0.0 = "''a/1''"
          and ?kb0.0 = "encode (m_key ?m)" and ?m0.0 = ?m])
      (simp_all add: demo_request_def tbl_get_def demo_defs encode_def committed_at_def less_char_def)
  show "list_spec demo_db (demo_request\<lparr>lq_prefix := ''c'', lq_cursor := Some (AfterKey ''a'')\<rparr>) \<noteq> []"
    by (simp add: list_spec_def demo_request_def current_objects_def tbl_collect_def tbl_iter_def versions_of_def
        demo_defs committed_at_def in_scope_def after_cursor_def less_char_def latest_of_def pick_def newer_def
        common_prefix_of_def)
qed

end
