(* ===== verification/Calls.thy ===== *)
theory Calls
  imports Multipart ScanProps
begin

text \<open>
  What the handlers' calls do to the world, as equations over the metadata handlers, and the
  two rules the handler proofs use: an action that only advances the call counter
  (\<open>quiet\<close>), and an action that leaves the objects table as it is.
\<close>

subsection \<open>Equations of the facade\<close>

lemma tick_same [simp]: "(tick w)\<lparr>w_db := w_db w\<rparr> = tick w"
  by (cases w) (simp add: tick_def)

text \<open>A call of the store fails, or runs its handler.\<close>

definition read_result :: "env \<Rightarrow> world \<Rightarrow> 'a \<Rightarrow> (meta_error, 'a) outcome \<times> world" where
  "read_result E w v = (case e_meta_fault E (w_tick w) of Some e \<Rightarrow> Err e | None \<Rightarrow> Ok v, tick w)"

definition write_result ::
  "env \<Rightarrow> world \<Rightarrow> meta_error + ('a \<times> db) \<Rightarrow> (meta_error, 'a) outcome \<times> world" where
  "write_result E w r =
     (case e_meta_fault E (w_tick w) of
        Some e \<Rightarrow> (Err e, tick w)
      | None \<Rightarrow> (case r of Inl e \<Rightarrow> (Err e, tick w) | Inr (v, d') \<Rightarrow> (Ok v, (tick w)\<lparr>w_db := d'\<rparr>)))"

lemmas call_defs = reply_as_def meta_call_def exec_op_def read_tx_def write_tx_def bnd_def ret_def
  read_result_def write_result_def

lemma read_eqs:
  "get_bucket E b w = read_result E w (tbl_get (buckets (w_db w)) b)"
  "get_manifest E k w = read_result E w (tbl_get (objects (w_db w)) (encode k))"
  "list_buckets E w = read_result E w (tbl_iter (buckets (w_db w)))"
  "list_dlq E w = read_result E w (tbl_iter (events_dlq (w_db w)))"
  by (simp_all add: get_bucket_def get_manifest_def list_buckets_def call_defs handle_get_bucket_def
      handle_get_manifest_def handle_list_buckets_def list_dlq_def handle_list_dlq_def dlq_of_def bucket_of_def manifest_of_def buckets_of_def
      split: option.split)

lemma handle_get_latest_version_total: "\<exists>m. handle_get_latest_version d b k = Inr m"
  by (simp add: handle_get_latest_version_def)

definition latest_in :: "db \<Rightarrow> string \<Rightarrow> string \<Rightarrow> manifest option" where
  "latest_in d b k = (case handle_get_latest_version d b k of Inr m \<Rightarrow> m | Inl _ \<Rightarrow> None)"

lemma get_latest_version_eq: "get_latest_version E b k w = read_result E w (latest_in (w_db w) b k)"
  using handle_get_latest_version_total [of "w_db w" b k]
  by (auto simp: get_latest_version_def call_defs manifest_of_def latest_in_def split: option.split)

lemma write_eqs:
  "put_manifest E m w = write_result E w (handle_put_manifest (e_crates E) (e_clock E (w_tick w)) (w_db w) m)"
  "delete_manifest E k w = write_result E w (handle_delete_manifest (w_db w) k)"
  "append_part E k part w =
     write_result E w (handle_append_part (e_crates E) (e_clock E (w_tick w)) (e_clock E (w_tick w)) (w_db w) k part)"
  "complete_multipart_upload_row E ik m w =
     write_result E w (handle_complete_multipart (e_crates E) (e_clock E (w_tick w)) (w_db w) ik m)"
  "mark_part_gc_pending E h w = write_result E w (handle_mark_gc_pending (e_crates E) (w_db w) h)"
  "remove_part E h w = write_result E w (handle_remove_part (w_db w) h)"
  "update_manifest_lock E k l w = write_result E w (handle_update_manifest_lock (w_db w) k l)"
  "update_manifest_tags E k tags w = write_result E w (handle_update_manifest_tags (w_db w) k tags)"
  "update_bucket_lifecycle E b rules w = write_result E w (handle_update_bucket_lifecycle (w_db w) b rules)"
  "update_bucket_object_lock E b c w = write_result E w (handle_update_bucket_object_lock (w_db w) b c)"
  "update_bucket_versioning E b s w = write_result E w (handle_update_bucket_versioning (w_db w) b s)"
  "update_bucket_cors E b cors w = write_result E w (handle_update_bucket_cors (w_db w) b cors)"
  "insert_dlq_entry E entry w = write_result E w (handle_insert_dlq (w_db w) entry)"
  "create_bucket E b cfg w = write_result E w (handle_create_bucket (w_db w) b cfg)"
  "delete_bucket E b w = write_result E w (handle_delete_bucket (w_db w) b)"
  by (auto simp: put_manifest_def delete_manifest_def append_part_def complete_multipart_upload_row_def
      mark_part_gc_pending_def remove_part_def update_manifest_lock_def update_manifest_tags_def
      update_bucket_lifecycle_def update_bucket_object_lock_def update_bucket_versioning_def
      update_bucket_cors_def insert_dlq_entry_def seq_of_def create_bucket_def delete_bucket_def call_defs freed_of_def marked_of_def
      split: option.split sum.split prod.split)

lemma write_result_Ok:
  "write_result E w r = (Ok v, w') \<longleftrightarrow> e_meta_fault E (w_tick w) = None \<and> (\<exists>d'. r = Inr (v, d') \<and> w' = (tick w)\<lparr>w_db := d'\<rparr>)"
  by (auto simp: write_result_def split: option.split sum.split prod.split)

lemma read_result_Ok:
  "read_result E w v = (Ok v', w') \<longleftrightarrow> e_meta_fault E (w_tick w) = None \<and> v' = v \<and> w' = tick w"
  by (auto simp: read_result_def split: option.split)

lemma write_result_db: "w_db (snd (write_result E w r)) = w_db w \<or> (\<exists>v d'. r = Inr (v, d') \<and> w_db (snd (write_result E w r)) = d')"
  by (auto simp: write_result_def split: option.split sum.split prod.split)

lemma result_frame [simp]:
  "w_blobs (snd (write_result E w r)) = w_blobs w" "w_events (snd (write_result E w r)) = w_events w"
  "snd (read_result E w v) = tick w"
  by (auto simp: write_result_def read_result_def split: option.split sum.split prod.split)

subsection \<open>Successful runs\<close>

text \<open>The outcome of a sequence is \<open>Ok\<close> exactly when every step's is.\<close>

lemma bnd_Ok: "bnd m f w = (Ok b, w') \<longleftrightarrow> (\<exists>a w1. m w = (Ok a, w1) \<and> f a w1 = (Ok b, w'))"
  by (auto simp: bnd_def split: prod.splits outcome.splits)

lemma catch_Ok:
  "catch m f w = (Ok b, w') \<longleftrightarrow>
     (\<exists>a w1. m w = (Ok a, w1) \<and> f (Inr a) w1 = (Ok b, w')) \<or> (\<exists>e w1. m w = (Err e, w1) \<and> f (Inl e) w1 = (Ok b, w'))"
  by (auto simp: catch_def split: prod.splits outcome.splits)

lemma pure_Ok [simp]:
  "ret a w = (Ok b, w') \<longleftrightarrow> b = a \<and> w' = w"
  "fail e w = (Ok b, w') \<longleftrightarrow> False"
  "panic w = (Ok b, w') \<longleftrightarrow> False"
  "lift r w = (Ok b, w') \<longleftrightarrow> r = Inr b \<and> w' = w"
  "ok_or v e w = (Ok b, w') \<longleftrightarrow> v = Some b \<and> w' = w"
  "unwrap v w = (Ok b, w') \<longleftrightarrow> v = Some b \<and> w' = w"
  "fail_if c e w = (Ok u, w') \<longleftrightarrow> \<not> c \<and> w' = w"
  by (auto simp: ret_def fail_def panic_def lift_def ok_or_def unwrap_def fail_if_def split: sum.split option.split)

lemma map_err_Ok [simp]: "map_err f m w = (Ok b, w') \<longleftrightarrow> m w = (Ok b, w')"
  by (auto simp: map_err_def catch_Ok)

lemma meta_Ok [simp]: "meta E m w = (Ok b, w') \<longleftrightarrow> m w = (Ok b, w')"
  by (simp add: meta_def)

lemma emit_Ok [simp]: "emit ev w = (Ok u, w') \<longleftrightarrow> w' = w\<lparr>w_events := w_events w @ [ev]\<rparr>"
  by (auto simp: emit_def)

lemma time_Ok [simp]:
  "now_utc E w = (Ok t, w') \<longleftrightarrow> t = e_clock E (w_tick w) \<and> w' = tick w"
  "new_uuid E w = (Ok u, w') \<longleftrightarrow> u = e_uuid E (w_tick w) \<and> w' = tick w"
  by (auto simp: now_utc_def new_uuid_def)

subsection \<open>Actions that only advance the counter\<close>

definition quiet :: "('e, 'a) action \<Rightarrow> bool" where
  "quiet m \<longleftrightarrow> (\<forall>w. \<exists>n. snd (m w) = w\<lparr>w_tick := n\<rparr>)"

lemma quietI: "(\<And>w. snd (m w) = w \<or> snd (m w) = tick w) \<Longrightarrow> quiet m"
proof -
  assume a: "\<And>w. snd (m w) = w \<or> snd (m w) = tick w"
  have "\<exists>n. snd (m w) = w\<lparr>w_tick := n\<rparr>" for w
    using a [of w] by (cases w) (auto simp: tick_def)
  then show ?thesis by (simp add: quiet_def)
qed

lemma quiet_pure [simp, intro]:
  "quiet (ret a)" "quiet (fail e)" "quiet panic" "quiet (lift r)" "quiet (ok_or v e)" "quiet (unwrap v)"
  "quiet (fail_if b e)" "quiet (now_utc E)" "quiet (new_uuid E)"
  by (rule quietI; simp add: ret_def fail_def panic_def lift_def ok_or_def unwrap_def fail_if_def now_utc_def
      new_uuid_def split: sum.split option.split)+

lemma quiet_bnd [intro]: "quiet m \<Longrightarrow> (\<And>a. quiet (f a)) \<Longrightarrow> quiet (bnd m f)"
proof -
  assume m: "quiet m" and f: "\<And>a. quiet (f a)"
  have "\<exists>n. snd (bnd m f w) = w\<lparr>w_tick := n\<rparr>" for w
  proof -
    obtain n where n: "snd (m w) = w\<lparr>w_tick := n\<rparr>" using m by (auto simp: quiet_def)
    have "\<exists>n'. snd (f a (w\<lparr>w_tick := n\<rparr>)) = (w\<lparr>w_tick := n\<rparr>)\<lparr>w_tick := n'\<rparr>" for a
      using f [of a] unfolding quiet_def by blast
    then show ?thesis using n by (auto simp: bnd_def split: prod.split outcome.split)
  qed
  then show ?thesis by (simp add: quiet_def)
qed

lemma quiet_catch [intro]: "quiet m \<Longrightarrow> (\<And>a. quiet (f a)) \<Longrightarrow> quiet (catch m f)"
proof -
  assume m: "quiet m" and f: "\<And>a. quiet (f a)"
  have "\<exists>n. snd (catch m f w) = w\<lparr>w_tick := n\<rparr>" for w
  proof -
    obtain n where n: "snd (m w) = w\<lparr>w_tick := n\<rparr>" using m by (auto simp: quiet_def)
    have "\<exists>n'. snd (f a (w\<lparr>w_tick := n\<rparr>)) = (w\<lparr>w_tick := n\<rparr>)\<lparr>w_tick := n'\<rparr>" for a
      using f [of a] unfolding quiet_def by blast
    then show ?thesis using n by (auto simp: catch_def split: prod.split outcome.split)
  qed
  then show ?thesis by (simp add: quiet_def)
qed

lemma quiet_map_err [intro]: "quiet m \<Longrightarrow> quiet (map_err f m)"
  unfolding map_err_def by (rule quiet_catch) (auto split: sum.split)

lemma quiet_meta [intro]: "quiet m \<Longrightarrow> quiet (meta E m)"
  by (simp add: meta_def quiet_map_err)

lemma quiet_for_each: "(\<And>x s. x \<in> set xs \<Longrightarrow> quiet (f x s)) \<Longrightarrow> quiet (for_each f xs s)"
  by (induction xs arbitrary: s) auto

lemma quiet_reads [simp, intro]:
  "quiet (get_bucket E b)" "quiet (get_manifest E k)" "quiet (list_buckets E)" "quiet (get_latest_version E b ky)"
  "quiet (read_part E h)" "quiet (list_dlq E)"
  by (rule quietI; simp add: read_eqs get_latest_version_eq read_part_def split: option.split io_fault.split)+

lemma quiet_listings [simp, intro]:
  "quiet (list_all_manifests_in_bucket E b)" "quiet (list_orphan_parts E)" "quiet (list_objects E req)"
  "quiet (list_object_versions E req)"
  by (rule quietI; simp add: list_all_manifests_in_bucket_def list_orphan_parts_def list_objects_def
      list_object_versions_def call_defs split: option.split sum.split)+

lemmas quiet_rules = quiet_bnd quiet_catch quiet_map_err quiet_meta quiet_for_each quiet_reads quiet_listings quiet_pure

lemma quiet_lookups [simp, intro]:
  "quiet (require_bucket E b)" "quiet (find_version E b k v)" "quiet (load_target E b k v)"
  "quiet (require_object_with_version E b k v)" "quiet (next_version_id E vs)" "quiet (find_upload E b k u)"
  "quiet (locked_now E mo)" "quiet (default_lock_for_bucket E c)"
  by (auto simp: require_bucket_def find_version_def load_target_def require_object_with_version_def
      next_version_id_def find_upload_def locked_now_def default_lock_for_bucket_def
      intro!: quiet_rules split: option.split versioning_state.split)

lemma quiet_preconditions [simp, intro]: "quiet (check_put_preconditions E b k hs)"
  unfolding check_put_preconditions_def etag_of_existing_matches_def Let_def
  by (auto intro!: quiet_rules split: option.split)

lemma quiet_Ok:
  assumes "quiet m" and "m w = (r, w')"
  shows "w_db w' = w_db w" "w_blobs w' = w_blobs w" "w_events w' = w_events w"
proof -
  obtain n where "snd (m w) = w\<lparr>w_tick := n\<rparr>" using assms(1) by (auto simp: quiet_def)
  then have "w' = w\<lparr>w_tick := n\<rparr>" using assms(2) by simp
  then show "w_db w' = w_db w" "w_blobs w' = w_blobs w" "w_events w' = w_events w" by simp_all
qed

text \<open>A quiet step keeps every predicate that does not look at the counter.\<close>

definition timeless :: "(world \<Rightarrow> bool) \<Rightarrow> bool" where
  "timeless P \<longleftrightarrow> (\<forall>w n. P (w\<lparr>w_tick := n\<rparr>) = P w)"

lemma triple_quiet:
  assumes "quiet m" and "timeless P" and "\<And>a. triple P (f a) Q"
    and "\<And>r w. P w \<Longrightarrow> (\<forall>a. r \<noteq> Ok a) \<Longrightarrow> Q r w"
  shows "triple P (bnd m f) Q"
proof (rule triple_bnd [where R = "\<lambda>_. P"])
  show "triple P m (upon (\<lambda>_. P) Q)"
    unfolding triple_def
  proof (intro allI impI)
    fix w assume "P w"
    moreover obtain n where "snd (m w) = w\<lparr>w_tick := n\<rparr>" using assms(1) by (auto simp: quiet_def)
    ultimately have "P (snd (m w))" using assms(2) by (simp add: timeless_def)
    then show "upon (\<lambda>_. P) Q (fst (m w)) (snd (m w))" using assms(4) by (auto simp: upon_def split: outcome.split)
  qed
qed (rule assms(3))

lemma keeps_quiet: "quiet m \<Longrightarrow> timeless P \<Longrightarrow> keeps P m"
  unfolding keeps_def triple_def quiet_def timeless_def by metis

lemma timeless_simps [simp, intro]:
  "timeless (\<lambda>w. P (w_db w))" "timeless (\<lambda>w. S (w_db w) (w_blobs w))" "timeless (world_inv E)"
  "timeless U \<Longrightarrow> timeless V \<Longrightarrow> timeless (\<lambda>w. U w \<and> V w)"
  by (simp_all add: timeless_def world_inv_def)

subsection \<open>The inline collector touches part rows and part files only\<close>

lemma handle_part_rows:
  "handle_mark_gc_pending X d h = Inr (b, d') \<Longrightarrow> objects d' = objects d \<and> buckets d' = buckets d"
  "handle_remove_part d h = Inr (u, d') \<Longrightarrow> objects d' = objects d \<and> buckets d' = buckets d"
  by (auto simp: handle_mark_gc_pending_def handle_remove_part_def split: option.splits if_splits)

definition same_objects :: "world \<Rightarrow> world \<Rightarrow> bool" where
  "same_objects w w' \<longleftrightarrow>
     objects (w_db w') = objects (w_db w) \<and> buckets (w_db w') = buckets (w_db w) \<and> w_events w' = w_events w \<and>
     (\<forall>h data. w_blobs w' h = Some data \<longrightarrow> w_blobs w h = Some data)"

lemma same_objects_refl [simp]: "same_objects w w" "same_objects w (tick w)"
  by (simp_all add: same_objects_def)

lemma same_objects_trans: "same_objects w w1 \<Longrightarrow> same_objects w1 w2 \<Longrightarrow> same_objects w w2"
  by (auto simp: same_objects_def)

lemma part_calls_same:
  "same_objects w (snd (mark_part_gc_pending E h w))" "same_objects w (snd (remove_part E h w))"
  "same_objects w (snd (delete_part E h w))"
  by (auto simp: write_eqs write_result_def same_objects_def delete_part_def handle_remove_part_def
      dest!: handle_part_rows(1) split: option.split sum.split prod.split io_fault.split)

lemma same_objects_catch:
  assumes "\<And>w. same_objects w (snd (m w))" and "\<And>r w. same_objects w (snd (f r w))"
  shows "same_objects w (snd (catch m f w))"
  using assms(1) [of w] same_objects_trans [OF assms(1) assms(2)]
  by (auto simp: catch_def split: prod.split outcome.split) (metis snd_conv)+

lemma gc_one_same: "same_objects w (snd (gc_one E h u w))"
  unfolding gc_one_def
  by (rule same_objects_catch [OF part_calls_same(1)])
    (auto simp: ret_def intro!: same_objects_catch part_calls_same split: sum.split bool.split)

lemma gc_freed_parts_same: "same_objects w (snd ((gc_freed_parts E freed :: ('e, unit) action) w))"
proof -
  have "same_objects w (snd ((for_each (gc_one E) freed () :: ('e, unit) action) w))"
  proof (induction freed arbitrary: w)
    case (Cons h hs)
    obtain r w1 where step: "(gc_one E h () :: ('e, unit) action) w = (r, w1)" by fastforce
    have "same_objects w w1" using gc_one_same [of w E h "()", where ?'a = 'e] by (simp add: step)
    then show ?case
      using step same_objects_trans Cons.IH by (cases r) (fastforce simp: bnd_def)+
  qed (simp add: ret_def)
  then show ?thesis by (simp add: gc_freed_parts_def)
qed

text \<open>No failure of the collector reaches its caller.\<close>

lemma gc_one_Ok: "\<exists>w'. gc_one E h u w = (Ok (), w')"
  by (auto simp: gc_one_def catch_def ret_def write_eqs write_result_def delete_part_def
      split: option.split sum.split prod.split outcome.split io_fault.split bool.split)

lemma gc_freed_parts_Ok: "\<exists>w'. (gc_freed_parts E freed :: ('e, unit) action) w = (Ok (), w')"
proof -
  have "\<exists>w'. (for_each (gc_one E) freed () :: ('e, unit) action) w = (Ok (), w')"
  proof (induction freed arbitrary: w)
    case (Cons h hs)
    obtain w1 where step: "(gc_one E h () :: ('e, unit) action) w = (Ok (), w1)" using gc_one_Ok by blast
    obtain w2 where "(for_each (gc_one E) hs () :: ('e, unit) action) w1 = (Ok (), w2)" using Cons.IH by blast
    then show ?case using step by (simp add: bnd_def)
  qed (simp add: ret_def)
  then show ?thesis by (simp add: gc_freed_parts_def)
qed

end
