(* ===== verification/Copy.thy ===== *)
theory Copy
  imports Multipart
begin

text \<open>
  \<^verbatim>\<open>src/s3/copy.rs\<close>: the copy source header, server-side copy of objects, and copying a byte
  range as a part of an upload.
\<close>

record copy_source =
  cs_bucket :: string
  cs_key :: string
  cs_version_id :: "string option"

text \<open>\<^verbatim>\<open>v.split('&').find_map(..)\<close>: the first \<open>versionId\<close> pair of the query.\<close>

fun find_version_id :: "string list \<Rightarrow> string option" where
  "find_version_id [] = None"
| "find_version_id (pair # rest) =
     (case split_once (CHR ''='') pair of
        Some (k, v) \<Rightarrow> (if k = ''versionId'' then Some (percent_decode v) else find_version_id rest)
      | None \<Rightarrow> find_version_id rest)"

definition parse_copy_source :: "string \<Rightarrow> s3_error + copy_source" where
  "parse_copy_source raw =
     (let trimmed = (case strip_prefix ''/'' raw of Some s \<Rightarrow> s | None \<Rightarrow> raw);
          (path_part, version_part) =
            (case split_once (CHR ''?'') trimmed of Some (p, v) \<Rightarrow> (p, Some v) | None \<Rightarrow> (trimmed, None))
      in case split_once (CHR ''/'') path_part of
           None \<Rightarrow> Inl (s3_error_new InvalidArgument ''x-amz-copy-source must be bucket/key'')
         | Some (bucket_raw, key_raw) \<Rightarrow>
             (if bucket_raw = [] \<or> key_raw = []
              then Inl (s3_error_new InvalidArgument ''x-amz-copy-source bucket and key must be non-empty'')
              else Inr \<lparr>cs_bucket = percent_decode bucket_raw, cs_key = percent_decode key_raw,
                        cs_version_id = (case version_part of
                           None \<Rightarrow> None | Some v \<Rightarrow> find_version_id (split_on (CHR ''&'') v))\<rparr>))"

definition resolve_source :: "env \<Rightarrow> copy_source \<Rightarrow> manifest handler" where
  "resolve_source E src =
     bnd (case cs_version_id src of
            Some vid \<Rightarrow> meta E (get_manifest E (new_key (cs_bucket src) (cs_key src) vid))
          | None \<Rightarrow> meta E (get_latest_version E (cs_bucket src) (cs_key src))) (\<lambda>m.
     ok_or (filter_option (\<lambda>m. m_state m = Committed \<and> m_kind m = Object) m)
       (with_resource (s3_error_new NoSuchKey ''copy source does not exist'')
         (object_path (cs_bucket src) (cs_key src))))"

subsection \<open>Copying an object\<close>

definition directive :: "crates \<Rightarrow> header_map \<Rightarrow> string \<Rightarrow> string" where
  "directive X hs name = (case header_str X hs name of Some d \<Rightarrow> d | None \<Rightarrow> ''COPY'')"

definition copied_manifest ::
  "crates \<Rightarrow> string \<Rightarrow> string \<Rightarrow> string \<Rightarrow> manifest \<Rightarrow> header_map \<Rightarrow> timestamp \<Rightarrow> manifest" where
  "copied_manifest X bucket key vid src hs now =
     (let replace = (directive X hs ''x-amz-metadata-directive'' = ''REPLACE'');
          replace_tags = (directive X hs ''x-amz-tagging-directive'' = ''REPLACE'')
      in \<lparr>m_key = new_key bucket key vid, m_state = Committed, m_kind = Object,
          m_upload_mode = m_upload_mode src, m_parts = m_parts src, m_size = m_size src,
          m_content_type = (if replace then header_str X hs ''content-type'' else m_content_type src),
          m_user_metadata = (if replace then extract_user_metadata X hs else m_user_metadata src),
          m_tags = (if replace_tags then [] else m_tags src),
          m_additional_checksum = m_additional_checksum src, m_storage_class = m_storage_class src,
          m_object_lock = None, m_created_at = now, m_last_modified = now, m_upload_id = None\<rparr>)"

definition copy_object :: "env \<Rightarrow> string \<Rightarrow> string \<Rightarrow> copy_source \<Rightarrow> header_map \<Rightarrow> response handler" where
  "copy_object E dest_bucket dest_key src hs =
     (let X = e_crates E in
      bnd (meta E (get_bucket E dest_bucket)) (\<lambda>b.
      bnd (ok_or b (with_resource (s3_error_new NoSuchBucket ''destination bucket does not exist'')
             (bucket_path dest_bucket))) (\<lambda>cfg.
      bnd (resolve_source E src) (\<lambda>source.
      bnd (next_version_id E (bc_versioning cfg)) (\<lambda>vid.
      bnd (now_utc E) (\<lambda>now.
      let m = copied_manifest X dest_bucket dest_key vid source hs now
      in bnd (unwrap (etag X m)) (\<lambda>tag.
         bnd (meta E (put_manifest E m)) (\<lambda>freed.
         bnd (gc_freed_parts E freed) (\<lambda>_.
         bnd (emit \<lparr>oe_type = ObjectCreatedCopy, oe_bucket = dest_bucket, oe_key = dest_key,
                    oe_size = m_size m, oe_etag = tag,
                    oe_version_id = (if bc_versioning cfg = Enabled then Some vid else None)\<rparr>) (\<lambda>_.
         ret (let resp = set_version_header X (bc_versioning cfg) vid
                    (xml_response X (CopyObjectDoc
                      \<lparr>cr_etag = tag, cr_last_modified = format_rfc3339 X (m_last_modified m)\<rparr>))
              in case cs_version_id src of
                   Some v \<Rightarrow> set_header X ''x-amz-copy-source-version-id'' v resp
                 | None \<Rightarrow> resp)))))))))))"

subsection \<open>Copying a range as a part\<close>

definition parse_copy_range :: "string \<Rightarrow> nat \<Rightarrow> s3_error + (nat \<times> nat)" where
  "parse_copy_range value source_size =
     (case strip_prefix ''bytes='' value of
        None \<Rightarrow> Inl (invalid ''x-amz-copy-source-range must use bytes unit'')
      | Some spec \<Rightarrow>
          (case split_once (CHR ''-'') spec of
             None \<Rightarrow> Inl (invalid (''x-amz-copy-source-range must contain '' @ quoted ''-''))
           | Some (start_str, end_str) \<Rightarrow>
               (if start_str = [] \<or> end_str = []
                then Inl (invalid ''x-amz-copy-source-range must be inclusive bytes=N-M'')
                else case parse_u64 start_str of
                  None \<Rightarrow> Inl (invalid ''invalid copy-source-range start'')
                | Some start \<Rightarrow>
                    (case parse_u64 end_str of
                       None \<Rightarrow> Inl (invalid ''invalid copy-source-range end'')
                     | Some e \<Rightarrow>
                         (if source_size = 0 then Inl (invalid ''source object is empty'')
                          else if e < start \<or> source_size \<le> e
                          then Inl (invalid ''copy-source-range out of bounds'')
                          else Inr (start, e))))))"

definition source_read_err :: "read_error \<Rightarrow> s3_error" where
  "source_read_err e =
     (case e of
        OpenFailed t \<Rightarrow> s3_error_new InternalError (''source part open: '' @ t)
      | ReadFailed t \<Rightarrow> s3_error_new InternalError (''source part read: '' @ t))"

text \<open>
  The loop of \<^verbatim>\<open>read_source_range\<close> over the parts.  \<open>cursor\<close> is the offset of the part; all
  arithmetic is \<^verbatim>\<open>u64\<close> and wraps, so that \<^verbatim>\<open>cursor + p.size - 1\<close> of an empty first part is
  \<open>2^64 - 1\<close>.  The slice of the part panics when it is out of bounds.
\<close>

definition sub_u64 :: "nat \<Rightarrow> nat \<Rightarrow> nat" where
  "sub_u64 a b = (if b \<le> a then a - b else u64_mod + a - b)"

fun read_range_loop :: "env \<Rightarrow> nat \<Rightarrow> nat \<Rightarrow> part_ref list \<Rightarrow> nat \<Rightarrow> bytes \<Rightarrow> bytes handler" where
  "read_range_loop E start e [] cursor out = ret out"
| "read_range_loop E start e (p # ps) cursor out =
     (let part_start = cursor;
          part_end = sub_u64 ((cursor + pr_size p) mod u64_mod) 1;
          cursor' = (cursor + pr_size p) mod u64_mod
      in if part_end < start \<or> e < part_start then read_range_loop E start e ps cursor' out
         else
           (let local_start = (if part_start < start then start - part_start else 0);
                local_end = (if e < part_end then e - part_start + 1 else pr_size p)
            in bnd (map_err source_read_err (read_part E (pr_hash p))) (\<lambda>buf.
               bnd (unwrap (slice local_start local_end buf)) (\<lambda>piece.
               read_range_loop E start e ps cursor' (out @ piece)))))"

definition read_source_range :: "env \<Rightarrow> manifest \<Rightarrow> nat \<Rightarrow> nat \<Rightarrow> bytes handler" where
  "read_source_range E m start e = read_range_loop E start e (m_parts m) 0 []"

definition upload_part_copy ::
  "env \<Rightarrow> string \<Rightarrow> string \<Rightarrow> string \<Rightarrow> nat \<Rightarrow> copy_source \<Rightarrow> header_map \<Rightarrow> response handler" where
  "upload_part_copy E dest_bucket dest_key upload_id part_number src hs =
     (let X = e_crates E in
      bnd (fail_if (\<not> part_number_ok part_number)
            (with_resource (s3_error_new InvalidArgument ''part-number must be between 1 and 10000'')
              (object_path dest_bucket dest_key))) (\<lambda>_.
      bnd (resolve_source E src) (\<lambda>source.
      bnd (case header_str X hs ''x-amz-copy-source-range'' of
             Some r \<Rightarrow> lift (parse_copy_range r (m_size source))
           | None \<Rightarrow>
               (if m_size source = 0
                then fail (with_resource (s3_error_new InvalidArgument
                       ''cannot copy a zero-byte source as a part'') (object_path dest_bucket dest_key))
                else ret (0, m_size source - 1))) (\<lambda>(start, e).
      bnd (read_source_range E source start e) (\<lambda>payload.
      bnd (map_err part_write_err (write_bytes E payload)) (\<lambda>part.
      bnd (map_err (map_upload_meta_err E dest_bucket dest_key upload_id)
            (append_part E (new_key dest_bucket dest_key upload_id)
              \<lparr>pr_part_number = part_number, pr_hash = pw_hash part, pr_md5 = pw_md5 part, pr_size = pw_size part\<rparr>)) (\<lambda>freed.
      bnd (gc_freed_parts E freed) (\<lambda>_.
      bnd (now_utc E) (\<lambda>now.
      ret (let resp = xml_response X (CopyPartDoc
                 \<lparr>cr_etag = part_etag X (pw_md5 part), cr_last_modified = format_rfc3339 X now\<rparr>)
           in case cs_version_id src of
                Some v \<Rightarrow> set_header X ''x-amz-copy-source-version-id'' v resp
              | None \<Rightarrow> resp))))))))))"

end
