(* ===== verification/Listing.thy ===== *)
theory Listing
  imports Object
begin

text \<open>
  \<^verbatim>\<open>src/s3/listing.rs\<close>: the query parameters of the listing requests, the continuation
  token, and the three listing responses.
\<close>

subsection \<open>Query parameters\<close>

definition parse_query :: "string \<Rightarrow> (string, string) table" where
  "parse_query query =
     (if query = [] then []
      else foldl (\<lambda>t pair.
             case split_once (CHR ''='') pair of
               Some (k, v) \<Rightarrow> tbl_insert t (form_decode k) (form_decode v)
             | None \<Rightarrow> tbl_insert t (form_decode pair) (form_decode []))
           [] (split_on (CHR ''&'') query))"

definition param :: "(string, string) table \<Rightarrow> string \<Rightarrow> string option" where
  "param ps name = tbl_get ps name"

definition param_or_empty :: "(string, string) table \<Rightarrow> string \<Rightarrow> string" where
  "param_or_empty ps name = (case param ps name of Some v \<Rightarrow> v | None \<Rightarrow> [])"

definition parse_max_keys :: "string option \<Rightarrow> s3_error + nat" where
  "parse_max_keys value =
     (case value of
        None \<Rightarrow> Inr 1000
      | Some v \<Rightarrow>
          (case parse_u32 v of
             None \<Rightarrow> Inl (s3_error_new InvalidArgument ''max-keys is not a number'')
           | Some n \<Rightarrow>
               (if n = 0 then Inl (s3_error_new InvalidArgument ''max-keys must be >= 1'')
                else Inr (min n 1000))))"

definition parse_encoding :: "string option \<Rightarrow> s3_error + string option" where
  "parse_encoding value =
     (case value of
        None \<Rightarrow> Inr None
      | Some v \<Rightarrow>
          (if v = ''url'' then Inr (Some ''url'')
           else Inl (s3_error_new InvalidArgument (''unsupported encoding-type '' @ quoted v))))"

subsection \<open>Output encoding\<close>

definition is_unreserved :: "char \<Rightarrow> bool" where
  "is_unreserved c \<longleftrightarrow>
     in_range 48 57 c \<or> in_range 65 90 c \<or> in_range 97 122 c \<or>
     c = CHR ''-'' \<or> c = CHR ''_'' \<or> c = CHR ''.'' \<or> c = CHR ''~''"

text \<open>\<^verbatim>\<open>format!("%{b:02X}")\<close>\<close>

definition percent_byte :: "char \<Rightarrow> string" where
  "percent_byte c = [CHR ''%'', hex_digit (of_char c div 16), hex_digit (of_char c mod 16)]"

definition url_percent_encode :: "string \<Rightarrow> string" where
  "url_percent_encode s = concat (map (\<lambda>c. if is_unreserved c then [c] else percent_byte c) s)"

definition encode_listed :: "string option \<Rightarrow> string \<Rightarrow> string" where
  "encode_listed encoding value = (if encoding = Some ''url'' then url_percent_encode value else value)"

subsection \<open>Continuation tokens\<close>

definition encode_continuation_token :: "env \<Rightarrow> list_cursor \<Rightarrow> s3_error + string" where
  "encode_continuation_token E cur =
     (case e_cursor_bytes E cur of
        Inl e \<Rightarrow> Inl (s3_error_new InternalError (''token encode: '' @ e))
      | Inr bs \<Rightarrow> Inr (b64url_encode (e_crates E) bs))"

definition decode_continuation_token :: "env \<Rightarrow> string \<Rightarrow> s3_error + list_cursor" where
  "decode_continuation_token E token =
     (case b64url_decode (e_crates E) token of
        None \<Rightarrow> Inl (s3_error_new InvalidArgument ''continuation-token is not valid base64'')
      | Some bs \<Rightarrow>
          (case e_cursor_of_bytes E bs of
             None \<Rightarrow> Inl (s3_error_new InvalidArgument ''continuation-token is malformed'')
           | Some cur \<Rightarrow> Inr cur))"

subsection \<open>Items\<close>

definition content_of :: "crates \<Rightarrow> string option \<Rightarrow> manifest \<Rightarrow> object_content handler" where
  "content_of X encoding m =
     bnd (unwrap (etag X m)) (\<lambda>tag.
     ret \<lparr>oc_key = encode_listed encoding (mk_key (m_key m)),
          oc_last_modified = format_rfc3339 X (m_last_modified m), oc_etag = tag,
          oc_size = m_size m, oc_storage_class = m_storage_class m\<rparr>)"

definition split_items :: "crates \<Rightarrow> string option \<Rightarrow> list_item list \<Rightarrow> (object_content list \<times> string list) handler" where
  "split_items X encoding items =
     for_each (\<lambda>item (contents, prefixes).
       case item of
         ItemObject m \<Rightarrow> bnd (content_of X encoding m) (\<lambda>c. ret (contents @ [c], prefixes))
       | ItemCommonPrefix p \<Rightarrow> ret (contents, prefixes @ [encode_listed encoding p]))
     items ([], [])"

definition require_bucket_exists :: "env \<Rightarrow> string \<Rightarrow> unit handler" where
  "require_bucket_exists E bucket =
     bnd (meta E (get_bucket E bucket)) (\<lambda>b.
     fail_if (b = None) (with_resource (s3_error_new NoSuchBucket ''bucket does not exist'') (bucket_path bucket)))"

definition nonempty_param :: "(string, string) table \<Rightarrow> string \<Rightarrow> string option" where
  "nonempty_param ps name = filter_option (\<lambda>s. s \<noteq> []) (param ps name)"

subsection \<open>ListObjectsV2\<close>

definition v2_cursor :: "env \<Rightarrow> (string, string) table \<Rightarrow> s3_error + list_cursor option" where
  "v2_cursor E ps =
     (case param ps ''continuation-token'' of
        Some token \<Rightarrow>
          (case decode_continuation_token E token of Inl e \<Rightarrow> Inl e | Inr cur \<Rightarrow> Inr (Some cur))
      | None \<Rightarrow> Inr (map_option AfterKey (param ps ''start-after'')))"

definition list_v2 :: "env \<Rightarrow> string \<Rightarrow> (string, string) table \<Rightarrow> response handler" where
  "list_v2 E bucket ps =
     (let X = e_crates E; pfx = param_or_empty ps ''prefix''; delimiter = nonempty_param ps ''delimiter'' in
      bnd (lift (parse_max_keys (param ps ''max-keys''))) (\<lambda>max_keys.
      bnd (lift (parse_encoding (param ps ''encoding-type''))) (\<lambda>encoding.
      bnd (lift (v2_cursor E ps)) (\<lambda>cur.
      bnd (meta E (list_objects E
            \<lparr>lq_bucket = bucket, lq_prefix = pfx, lq_delimiter = delimiter, lq_cursor = cur, lq_limit = max_keys\<rparr>)) (\<lambda>page.
      bnd (split_items X encoding (lp_items page)) (\<lambda>(contents, prefixes).
      bnd (case lp_next_cursor page of
             None \<Rightarrow> ret None
           | Some c \<Rightarrow> bnd (lift (encode_continuation_token E c)) (\<lambda>t. ret (Some t))) (\<lambda>next_token.
      ret (xml_response X (ListBucketV2Doc
        \<lparr>v2_name = bucket, v2_prefix = encode_listed encoding pfx,
         v2_key_count = length contents + length prefixes, v2_max_keys = max_keys,
         v2_delimiter = map_option (encode_listed encoding) delimiter,
         v2_is_truncated = lp_truncated page, v2_encoding_type = encoding,
         v2_continuation_token = param ps ''continuation-token'',
         v2_next_continuation_token = next_token, v2_start_after = param ps ''start-after'',
         v2_contents = contents, v2_common_prefixes = prefixes\<rparr>)))))))))"

subsection \<open>ListObjects (V1)\<close>

text \<open>The marker handed to the client after a truncated page of a delimited listing.\<close>

definition cursor_text :: "list_cursor \<Rightarrow> string" where
  "cursor_text c = (case c of AfterKey k \<Rightarrow> k | AfterPrefix p \<Rightarrow> p)"

definition next_marker_of :: "string option \<Rightarrow> string option \<Rightarrow> list_objects_page \<Rightarrow> string option" where
  "next_marker_of encoding delimiter page =
     (if lp_truncated page \<and> delimiter \<noteq> None
      then map_option (\<lambda>c. encode_listed encoding (cursor_text c)) (lp_next_cursor page) else None)"

definition marker_cursor :: "string \<Rightarrow> list_cursor option" where
  "marker_cursor marker = (if marker = [] then None else Some (AfterKey marker))"

definition list_v1 :: "env \<Rightarrow> string \<Rightarrow> (string, string) table \<Rightarrow> response handler" where
  "list_v1 E bucket ps =
     (let X = e_crates E; pfx = param_or_empty ps ''prefix''; delimiter = nonempty_param ps ''delimiter'';
          marker = param_or_empty ps ''marker'' in
      bnd (lift (parse_max_keys (param ps ''max-keys''))) (\<lambda>max_keys.
      bnd (lift (parse_encoding (param ps ''encoding-type''))) (\<lambda>encoding.
      bnd (meta E (list_objects E
            \<lparr>lq_bucket = bucket, lq_prefix = pfx, lq_delimiter = delimiter,
             lq_cursor = marker_cursor marker, lq_limit = max_keys\<rparr>)) (\<lambda>page.
      bnd (split_items X encoding (lp_items page)) (\<lambda>(contents, prefixes).
      ret (xml_response X (ListBucketV1Doc
        \<lparr>v1_name = bucket, v1_prefix = encode_listed encoding pfx, v1_marker = marker,
         v1_max_keys = max_keys, v1_delimiter = map_option (encode_listed encoding) delimiter,
         v1_is_truncated = lp_truncated page, v1_encoding_type = encoding,
         v1_next_marker = next_marker_of encoding delimiter page,
         v1_contents = contents, v1_common_prefixes = prefixes\<rparr>)))))))"

definition handler_list_objects :: "env \<Rightarrow> string \<Rightarrow> string \<Rightarrow> response handler" where
  "handler_list_objects E bucket query =
     bnd (require_bucket_exists E bucket) (\<lambda>_.
     let ps = parse_query query
     in if param ps ''list-type'' = Some ''2'' then list_v2 E bucket ps else list_v1 E bucket ps)"

subsection \<open>ListObjectVersions\<close>

definition split_versions ::
  "crates \<Rightarrow> string option \<Rightarrow> list_object_version_entry list \<Rightarrow> (object_version list \<times> delete_marker_entry list) handler" where
  "split_versions X encoding entries =
     for_each (\<lambda>entry (versions, markers).
       let m = ve_manifest entry; key_enc = encode_listed encoding (mk_key (m_key m));
           last_modified = format_rfc3339 X (m_last_modified m)
       in case m_kind m of
            Object \<Rightarrow>
              bnd (unwrap (etag X m)) (\<lambda>tag.
              ret (versions @ [\<lparr>ov_key = key_enc, ov_version_id = mk_version_id (m_key m),
                     ov_is_latest = ve_is_latest entry, ov_last_modified = last_modified, ov_etag = tag,
                     ov_size = m_size m, ov_storage_class = m_storage_class m\<rparr>], markers))
          | Tombstone \<Rightarrow>
              ret (versions, markers @ [\<lparr>dm_key = key_enc, dm_version_id = mk_version_id (m_key m),
                     dm_is_latest = ve_is_latest entry, dm_last_modified = last_modified\<rparr>]))
     entries ([], [])"

definition handler_list_object_versions :: "env \<Rightarrow> string \<Rightarrow> string \<Rightarrow> response handler" where
  "handler_list_object_versions E bucket query =
     bnd (require_bucket_exists E bucket) (\<lambda>_.
     let X = e_crates E; ps = parse_query query; pfx = param_or_empty ps ''prefix'';
         delimiter = nonempty_param ps ''delimiter''; key_marker = param_or_empty ps ''key-marker'' in
      bnd (lift (parse_max_keys (param ps ''max-keys''))) (\<lambda>max_keys.
      bnd (lift (parse_encoding (param ps ''encoding-type''))) (\<lambda>encoding.
      bnd (meta E (list_object_versions E
            \<lparr>lq_bucket = bucket, lq_prefix = pfx, lq_delimiter = delimiter,
             lq_cursor = marker_cursor key_marker, lq_limit = max_keys\<rparr>)) (\<lambda>page.
      bnd (split_versions X encoding (vp_entries page)) (\<lambda>(versions, markers).
      ret (xml_response X (ListVersionsDoc
        \<lparr>lv_name = bucket, lv_prefix = encode_listed encoding pfx, lv_key_marker = key_marker,
         lv_max_keys = max_keys, lv_delimiter = map_option (encode_listed encoding) delimiter,
         lv_is_truncated = vp_truncated page, lv_encoding_type = encoding,
         lv_next_key_marker = (if vp_truncated page
            then map_option (\<lambda>c. encode_listed encoding (cursor_text c)) (vp_next_cursor page) else None),
         lv_versions = versions, lv_delete_markers = markers\<rparr>)))))))"

end
