(* ===== verification/Maintenance.thy ===== *)
theory Maintenance
  imports Object
begin

text \<open>
  \<^verbatim>\<open>src/s3/maintenance.rs\<close>: the lifecycle sweep and the background garbage collector.
  Both return storage errors (\<^verbatim>\<open>MetaError\<close>).  The loop of \<^verbatim>\<open>spawn_daemon\<close> calls
  \<open>sweep_once\<close> forever and is not modelled.
\<close>

record sweep_report =
  sr_expired_current :: nat
  sr_expired_noncurrent :: nat
  sr_aborted_multipart :: nat
  sr_gc_parts_removed :: nat

definition empty_report :: sweep_report where
  "empty_report = \<lparr>sr_expired_current = 0, sr_expired_noncurrent = 0, sr_aborted_multipart = 0, sr_gc_parts_removed = 0\<rparr>"

text \<open>\<^verbatim>\<open>+= 1\<close> on a \<^verbatim>\<open>u32\<close>\<close>

definition incr :: "nat \<Rightarrow> nat" where
  "incr n = (n + 1) mod 4294967296"

subsection \<open>Lifecycle\<close>

definition old_enough :: "timestamp \<Rightarrow> manifest \<Rightarrow> nat \<Rightarrow> bool" where
  "old_enough now m days \<longleftrightarrow> int days * ns_per_day \<le> now - m_created_at m"

definition rule_matches :: "manifest \<Rightarrow> lifecycle_rule \<Rightarrow> bool" where
  "rule_matches m r =
     (case lr_filter_prefix r of Some p \<Rightarrow> prefix p (mk_key (m_key m)) | None \<Rightarrow> True)"

definition expire_current ::
  "env \<Rightarrow> string \<Rightarrow> versioning_state \<Rightarrow> manifest \<Rightarrow> timestamp \<Rightarrow> (meta_error, unit) action" where
  "expire_current E bucket vs m now =
     (if vs = Off then bnd (delete_manifest E (m_key m)) (\<lambda>_. ret ())
      else
        bnd (if vs = Enabled then new_uuid E else ret null_version_id) (\<lambda>vid.
        bnd (put_manifest E (tombstone bucket (mk_key (m_key m)) vid now)) (\<lambda>_. ret ())))"

text \<open>The loop over the rules for an unfinished upload, and for a committed version.\<close>

fun abort_loop :: "env \<Rightarrow> manifest \<Rightarrow> timestamp \<Rightarrow> lifecycle_rule list \<Rightarrow> sweep_report \<Rightarrow> (meta_error, sweep_report) action" where
  "abort_loop E m now [] rep = ret rep"
| "abort_loop E m now (r # rules) rep =
     (if \<not> rule_matches m r then abort_loop E m now rules rep
      else case lr_abort_incomplete_multipart_upload r of
        None \<Rightarrow> abort_loop E m now rules rep
      | Some a \<Rightarrow>
          (if old_enough now m (aim_days_after_initiation a)
           then bnd (delete_manifest E (m_key m)) (\<lambda>_.
                ret (rep\<lparr>sr_aborted_multipart := incr (sr_aborted_multipart rep)\<rparr>))
           else abort_loop E m now rules rep))"

fun expire_loop ::
  "env \<Rightarrow> string \<Rightarrow> versioning_state \<Rightarrow> manifest \<Rightarrow> bool \<Rightarrow> timestamp \<Rightarrow> lifecycle_rule list \<Rightarrow> sweep_report \<Rightarrow>
   (meta_error, sweep_report) action" where
  "expire_loop E bucket vs m is_current now [] rep = ret rep"
| "expire_loop E bucket vs m is_current now (r # rules) rep =
     (if \<not> rule_matches m r then expire_loop E bucket vs m is_current now rules rep
      else if is_current \<and> m_kind m = Object \<and>
              (case lr_expiration r of Some x \<Rightarrow> old_enough now m (le_days x) | None \<Rightarrow> False)
      then bnd (expire_current E bucket vs m now) (\<lambda>_.
           ret (rep\<lparr>sr_expired_current := incr (sr_expired_current rep)\<rparr>))
      else if \<not> is_current \<and>
              (case lr_noncurrent_version_expiration r of
                 Some n \<Rightarrow> old_enough now m (nve_noncurrent_days n) | None \<Rightarrow> False)
      then bnd (delete_manifest E (m_key m)) (\<lambda>_.
           ret (rep\<lparr>sr_expired_noncurrent := incr (sr_expired_noncurrent rep)\<rparr>))
      else expire_loop E bucket vs m is_current now rules rep)"

definition evaluate_manifest ::
  "env \<Rightarrow> string \<Rightarrow> versioning_state \<Rightarrow> manifest \<Rightarrow> string option \<Rightarrow> lifecycle_rule list \<Rightarrow> timestamp \<Rightarrow> sweep_report \<Rightarrow>
   (meta_error, sweep_report) action" where
  "evaluate_manifest E bucket vs m current_version_id rules now rep =
     (case m_state m of
        InProgress \<Rightarrow> abort_loop E m now rules rep
      | Committed \<Rightarrow>
          (if (case m_object_lock m of Some l \<Rightarrow> forbids_delete l now | None \<Rightarrow> False) then ret rep
           else expire_loop E bucket vs m (current_version_id = Some (mk_version_id (m_key m))) now rules rep)
      | Aborted \<Rightarrow>
          bnd (delete_manifest E (m_key m)) (\<lambda>_.
          ret (rep\<lparr>sr_aborted_multipart := incr (sr_aborted_multipart rep)\<rparr>)))"

text \<open>\<^verbatim>\<open>by_key.entry(..).or_default().push(m)\<close>, for all manifests of the bucket.\<close>

definition group_by_key :: "manifest list \<Rightarrow> (string, manifest list) table" where
  "group_by_key ms =
     foldl (\<lambda>t m. tbl_insert t (mk_key (m_key m))
              ((case tbl_get t (mk_key (m_key m)) of Some vs \<Rightarrow> vs | None \<Rightarrow> []) @ [m])) [] ms"

definition current_version :: "manifest list \<Rightarrow> string option" where
  "current_version sorted_versions =
     map_option (\<lambda>m. mk_version_id (m_key m)) (List.find (\<lambda>m. m_state m = Committed) sorted_versions)"

definition sweep_key ::
  "env \<Rightarrow> string \<Rightarrow> versioning_state \<Rightarrow> lifecycle_rule list \<Rightarrow> timestamp \<Rightarrow> string \<times> manifest list \<Rightarrow> sweep_report \<Rightarrow>
   (meta_error, sweep_report) action" where
  "sweep_key E bucket vs rules now entry rep =
     (let versions = newest_first (snd entry); cur = current_version versions
      in for_each (\<lambda>m. evaluate_manifest E bucket vs m cur rules now) versions rep)"

definition sweep_bucket ::
  "env \<Rightarrow> timestamp \<Rightarrow> string \<times> bucket_config \<Rightarrow> sweep_report \<Rightarrow> (meta_error, sweep_report) action" where
  "sweep_bucket E now b rep =
     (case b of (name, cfg) \<Rightarrow>
        let active = filter (\<lambda>r. lr_status r = RuleEnabled) (bc_lifecycle_rules cfg)
        in if active = [] then ret rep
           else bnd (list_all_manifests_in_bucket E name) (\<lambda>ms.
                for_each (sweep_key E name (bc_versioning cfg) active now) (tbl_iter (group_by_key ms)) rep))"

definition sweep_lifecycle_at :: "env \<Rightarrow> timestamp \<Rightarrow> (meta_error, sweep_report) action" where
  "sweep_lifecycle_at E now =
     bnd (list_buckets E) (\<lambda>bs. for_each (sweep_bucket E now) bs empty_report)"

subsection \<open>Garbage collection\<close>

text \<open>Mark, unlink, drop the row; here a failed unlink leaves the row, marked.\<close>

definition gc_orphan :: "env \<Rightarrow> hash \<Rightarrow> nat \<Rightarrow> (meta_error, nat) action" where
  "gc_orphan E h removed =
     catch (mark_part_gc_pending E h) (\<lambda>r.
       case r of
         Inr True \<Rightarrow>
           catch (delete_part E h) (\<lambda>r.
             case r of
               Inl _ \<Rightarrow> ret removed
             | Inr () \<Rightarrow>
                 catch (remove_part E h) (\<lambda>r. case r of Inl _ \<Rightarrow> ret removed | Inr () \<Rightarrow> ret (incr removed)))
       | Inr False \<Rightarrow> ret removed
       | Inl _ \<Rightarrow> ret removed)"

definition sweep_gc :: "env \<Rightarrow> (meta_error, nat) action" where
  "sweep_gc E = bnd (list_orphan_parts E) (\<lambda>orphans. for_each (gc_orphan E) orphans 0)"

definition sweep_at :: "env \<Rightarrow> timestamp \<Rightarrow> (meta_error, sweep_report) action" where
  "sweep_at E now =
     bnd (sweep_lifecycle_at E now) (\<lambda>rep.
     bnd (sweep_gc E) (\<lambda>gc. ret (rep\<lparr>sr_gc_parts_removed := gc\<rparr>)))"

definition sweep_once :: "env \<Rightarrow> (meta_error, sweep_report) action" where
  "sweep_once E = bnd (now_utc E) (sweep_at E)"

end
