(* ===== verification/ServerInv.thy ===== *)
theory ServerInv
  imports Calls Copy Listing Maintenance
begin

text \<open>
  The invariant of the whole server and its preservation by every request handler and by the
  maintenance sweep: the metadata is consistent, every referenced part has its file, and no
  unfinished upload occupies the row of a null version.
\<close>

subsection \<open>Rows of unfinished uploads\<close>

definition in_progress_at :: "db \<Rightarrow> bytes \<Rightarrow> bool" where
  "in_progress_at d kb \<longleftrightarrow> (\<exists>m. tbl_get (objects d) kb = Some m \<and> m_state m = InProgress)"

definition uploads_named :: "db \<Rightarrow> bool" where
  "uploads_named d \<longleftrightarrow> (\<forall>b k. \<not> in_progress_at d (encode (new_key b k null_version_id)))"

definition starts_upload :: "op \<Rightarrow> bytes \<Rightarrow> bool" where
  "starts_upload p kb =
     (case p of
        PutManifest m \<Rightarrow> m_state m = InProgress \<and> kb = encode (m_key m)
      | CompleteMultipartUpload ik new \<Rightarrow> m_state new = InProgress \<and> kb = encode (m_key new)
      | UpdateManifestState k s \<Rightarrow> s = InProgress \<and> kb = encode k
      | _ \<Rightarrow> False)"

lemma in_progress_insert:
  "objects d' = tbl_insert (objects d) kb m \<Longrightarrow> in_progress_at d' kb' \<Longrightarrow>
     in_progress_at d kb' \<or> (kb' = kb \<and> m_state m = InProgress)"
  by (auto simp: in_progress_at_def split: if_splits)

lemma in_progress_rewrite:
  "tbl_get (objects d) kb = Some m \<Longrightarrow> m_state m' = m_state m \<Longrightarrow> objects d' = tbl_insert (objects d) kb m' \<Longrightarrow>
     in_progress_at d' kb' \<Longrightarrow> in_progress_at d kb'"
  by (auto simp: in_progress_at_def split: if_splits)

lemma in_progress_cong: "objects d' = objects d \<Longrightarrow> in_progress_at d' kb = in_progress_at d kb"
  by (simp add: in_progress_at_def)

lemma append_part_row:
  assumes "handle_append_part X now now2 d k part = Inr (freed, d')"
  shows "\<exists>m m'. tbl_get (objects d) (encode k) = Some m \<and> m_key m' = m_key m \<and> m_state m' = m_state m \<and>
    m_kind m' = m_kind m \<and> m_object_lock m' = m_object_lock m \<and> objects d' = tbl_insert (objects d) (encode k) m'"
  by (rule append_part_cases [OF assms], intro exI conjI, assumption) simp_all

lemma exec_op_in_progress:
  assumes call: "exec_op X c d p = (r, d')" and up: "in_progress_at d' kb"
  shows "in_progress_at d kb \<or> starts_upload p kb"
proof (cases r)
  case (Inl e)
  then show ?thesis using exec_op_error call up by blast
next
  case (Inr v)
  note call' = call [unfolded Inr]
  have same: ?thesis if "objects d' = objects d"
    using in_progress_cong [OF that] up by blast
  show ?thesis
  proof (cases p)
    case (PutManifest m)
    then have "objects d' = tbl_insert (objects d) (encode (m_key m)) m"
      using call' by (auto simp: exec_op_def write_tx_Inr elim: put_manifest_cases)
    then show ?thesis using in_progress_insert up PutManifest by (fastforce simp: starts_upload_def)
  next
    case (DeleteManifest k)
    then have "objects d' = tbl_remove (objects d) (encode k)"
      using call' by (auto simp: exec_op_def write_tx_Inr dest: delete_manifest_objects)
    then show ?thesis using up by (auto simp: in_progress_at_def split: if_splits)
  next
    case (AppendPart k part)
    then have "handle_append_part X (ce_now c) (ce_now2 c) d k part = Inr (case v of FreedParts h \<Rightarrow> h, d')"
      using call' by (auto simp: exec_op_def write_tx_Inr)
    then obtain m m' where "tbl_get (objects d) (encode k) = Some m" "m_state m' = m_state m"
        "objects d' = tbl_insert (objects d) (encode k) m'"
      using append_part_row by blast
    then show ?thesis using in_progress_rewrite up by blast
  next
    case (CompleteMultipartUpload ik new)
    then have "objects d' = tbl_remove (tbl_insert (objects d) (encode (m_key new)) new) (encode ik)"
      using call' by (auto simp: exec_op_def write_tx_Inr elim: complete_multipart_cases)
    then show ?thesis
      using up CompleteMultipartUpload by (auto simp: in_progress_at_def starts_upload_def split: if_splits)
  next
    case (UpdateManifestState k s)
    then have "objects d' = tbl_insert (objects d) (encode k) m' \<Longrightarrow> m_state m' = s \<Longrightarrow> ?thesis" for m'
      using in_progress_insert [OF _ up] by (auto simp: starts_upload_def)
    then show ?thesis
      using call' UpdateManifestState by (auto simp: exec_op_def write_tx_Inr elim!: rr_state.step_cases)
  next
    case (UpdateManifestTags k tags)
    then show ?thesis
      using call' up by (auto simp: exec_op_def write_tx_Inr in_progress_at_def elim!: rr_tags.step_cases split: if_splits)
  next
    case (UpdateManifestLock k l)
    then show ?thesis
      using call' up by (auto simp: exec_op_def write_tx_Inr in_progress_at_def elim!: rr_lock.step_cases split: if_splits)
  next
    case (MarkPartGcPending h)
    then show ?thesis
      using call' same by (auto simp: exec_op_def write_tx_Inr dest: handle_part_rows)
  next
    case (RemovePart h)
    then show ?thesis using call' same by (auto simp: exec_op_def write_tx_Inr dest: handle_part_rows)
  qed (use call' same in \<open>auto simp: exec_op_def write_tx_Inr dest: read_tx_same dest!: frame_simps\<close>)
qed

text \<open>
  The identifiers the \<^verbatim>\<open>uuid\<close> crate produces: 32 hexadecimal digits, in particular without a
  NUL byte and different from \<^verbatim>\<open>null\<close>.
\<close>

definition uuids_ok :: "env \<Rightarrow> bool" where
  "uuids_ok E \<longleftrightarrow> (\<forall>n. nul \<notin> set (e_uuid E n) \<and> e_uuid E n \<noteq> null_version_id)"

lemma append_nul_split:
  "x @ nul # v = y @ nul # u \<Longrightarrow> nul \<notin> set v \<Longrightarrow> nul \<notin> set u \<Longrightarrow> v = u"
  by (auto simp: append_eq_append_conv2 append_eq_Cons_conv Cons_eq_append_conv)

lemma encode_version:
  assumes "encode (new_key b k v) = encode (new_key b' k' u)" and "nul \<notin> set v" and "nul \<notin> set u"
  shows "v = u"
  by (rule append_nul_split [of "b @ nul # k" v "b' @ nul # k'" u]) (use assms in \<open>simp_all add: encode_def new_key_def\<close>)

abbreviation uploads_ok :: "world \<Rightarrow> bool" where
  "uploads_ok w \<equiv> uploads_named (w_db w)"

lemma keeps_uploads_call:
  assumes "\<And>b k. \<not> starts_upload p (encode (new_key b k null_version_id))"
  shows "keeps uploads_ok (meta_call E p)"
proof -
  have "uploads_named (w_db (snd (meta_call E p w)))" if inv: "uploads_named (w_db w)" for w
  proof -
    obtain c where w': "snd (meta_call E p w) = (tick w)\<lparr>w_db := snd (exec_op (e_crates E) c (w_db w) p)\<rparr>"
      by (rule meta_call_cases)
    note step = exec_op_in_progress [OF surjective_pairing [of "exec_op (e_crates E) c (w_db w) p"]]
    have "\<not> in_progress_at (snd (exec_op (e_crates E) c (w_db w) p)) (encode (new_key b k null_version_id))" for b k
      using step [of "encode (new_key b k null_version_id)"] assms [of b k] inv by (auto simp: uploads_named_def)
    then show ?thesis by (simp add: w' uploads_named_def)
  qed
  then show ?thesis by (simp add: keeps_def triple_def)
qed

lemma keeps_uploads [simp, intro]:
  "keeps uploads_ok (create_bucket E b cfg)"
  "keeps uploads_ok (delete_bucket E b)"
  "keeps uploads_ok (delete_manifest E k)"
  "keeps uploads_ok (append_part E k part)"
  "keeps uploads_ok (mark_part_gc_pending E h)"
  "keeps uploads_ok (remove_part E h)"
  "keeps uploads_ok (update_bucket_versioning E b vs)"
  "keeps uploads_ok (update_bucket_object_lock E b ol)"
  "keeps uploads_ok (update_bucket_lifecycle E b lc)"
  "keeps uploads_ok (update_bucket_cors E b cors)"
  "keeps uploads_ok (insert_dlq_entry E entry)"
  "keeps uploads_ok (list_dlq E)"
  "keeps uploads_ok (update_manifest_lock E k l)"
  "keeps uploads_ok (update_manifest_tags E k tags)"
  "keeps uploads_ok (list_all_manifests_in_bucket E b)"
  "keeps uploads_ok (list_orphan_parts E)"
  "keeps uploads_ok (list_objects E req)"
  "keeps uploads_ok (list_object_versions E req)"
  by (auto simp: create_bucket_def delete_bucket_def delete_manifest_def append_part_def
      mark_part_gc_pending_def remove_part_def update_bucket_versioning_def
      update_bucket_object_lock_def update_bucket_cors_def insert_dlq_entry_def list_dlq_def update_bucket_lifecycle_def update_manifest_lock_def update_manifest_tags_def
      list_all_manifests_in_bucket_def list_orphan_parts_def list_objects_def list_object_versions_def
      starts_upload_def intro!: keeps_reply_as keeps_uploads_call)

lemma keeps_uploads_put:
  "m_state m = Committed \<Longrightarrow> keeps uploads_ok (put_manifest E m)"
  "m_state m = Committed \<Longrightarrow> keeps uploads_ok (complete_multipart_upload_row E ik m)"
  by (auto simp: put_manifest_def complete_multipart_upload_row_def starts_upload_def
      intro!: keeps_reply_as keeps_uploads_call)

lemma keeps_uploads_new:
  assumes "m_key m = new_key b k v" and "nul \<notin> set v" and "v \<noteq> null_version_id"
  shows "keeps uploads_ok (put_manifest E m)"
proof -
  have "nul \<notin> set null_version_id" by (simp add: null_version_id_def)
  then have "\<not> starts_upload (PutManifest m) (encode (new_key b' k' null_version_id))" for b' k'
    using encode_version [of b' k' null_version_id b k v] assms by (auto simp: starts_upload_def)
  then show ?thesis by (auto simp: put_manifest_def intro!: keeps_reply_as keeps_uploads_call)
qed

subsection \<open>The invariant and the calls that reference parts\<close>

definition server_inv :: "env \<Rightarrow> world \<Rightarrow> bool" where
  "server_inv E w \<longleftrightarrow> world_inv E w \<and> uploads_named (w_db w)"

text \<open>All counts stay below the \<^verbatim>\<open>u32\<close> limit, also after one more reference, or a copy of an object.\<close>

definition counts_ok :: "db \<Rightarrow> bool" where
  "counts_ok d \<longleftrightarrow> (\<forall>h. refs d h \<le> u32_max)"

definition roomy :: "db \<Rightarrow> bool" where
  "roomy d \<longleftrightarrow> (\<forall>h. refs d h < u32_max) \<and>
     (\<forall>kb m. tbl_get (objects d) kb = Some m \<longrightarrow> room_for d (m_parts m))"

definition row_ok :: "manifest \<Rightarrow> bool" where
  "row_ok m \<longleftrightarrow> nul_free_key (m_key m) \<and>
     (m_state m = Committed \<or> nul \<notin> set (mk_version_id (m_key m)) \<and> mk_version_id (m_key m) \<noteq> null_version_id)"

definition has_files :: "world \<Rightarrow> part_ref list \<Rightarrow> bool" where
  "has_files w ps \<longleftrightarrow> room_for (w_db w) ps \<and> (\<forall>p\<in>set ps. w_blobs w (pr_hash p) \<noteq> None)"

lemma roomy_counts: "roomy d \<Longrightarrow> counts_ok d"
  by (auto simp: roomy_def counts_ok_def less_imp_le)

lemma room_for_one: "roomy d \<Longrightarrow> room_for d [p]"
  by (auto simp: roomy_def room_for_def Suc_le_eq intro: less_imp_le)

lemma room_for_none: "counts_ok d \<Longrightarrow> room_for d []"
  by (simp add: counts_ok_def room_for_def)

lemma timeless_server [simp, intro]: "timeless (server_inv E)" "timeless (\<lambda>w. has_files w ps)"
  "timeless (\<lambda>w. w_blobs w h \<noteq> None)"
  by (simp_all add: timeless_def server_inv_def world_inv_def has_files_def)

lemma keeps_server: "keeps (world_inv E) m \<Longrightarrow> keeps uploads_ok m \<Longrightarrow> keeps (server_inv E) m"
  by (auto simp: keeps_def triple_def server_inv_def)

lemma keeps_server_quiet [simp, intro]: "quiet m \<Longrightarrow> keeps (server_inv E) m"
  by (rule keeps_quiet) auto

lemma keeps_server_calls [simp, intro]:
  "keeps (server_inv E) (create_bucket E b cfg)"
  "keeps (server_inv E) (delete_bucket E b)"
  "keeps (server_inv E) (delete_manifest E k)"
  "keeps (server_inv E) (update_bucket_versioning E b vs)"
  "keeps (server_inv E) (update_bucket_object_lock E b ol)"
  "keeps (server_inv E) (update_bucket_lifecycle E b lc)"
  "keeps (server_inv E) (update_bucket_cors E b cors)"
  "keeps (server_inv E) (insert_dlq_entry E entry)"
  "keeps (server_inv E) (list_dlq E)"
  "keeps (server_inv E) (update_manifest_lock E k l)"
  "keeps (server_inv E) (update_manifest_tags E k tags)"
  "keeps (server_inv E) (list_all_manifests_in_bucket E b)"
  "keeps (server_inv E) (list_orphan_parts E)"
  "keeps (server_inv E) (list_objects E req)"
  "keeps (server_inv E) (list_object_versions E req)"
  by (rule keeps_server; simp)+

lemma keeps_uploads_gc: "keeps uploads_ok (gc_freed_parts E freed :: ('e, unit) action)"
  using gc_freed_parts_same [of _ E freed, where ?'e = 'e]
  by (auto simp: keeps_def triple_def uploads_named_def in_progress_at_def same_objects_def)

lemma keeps_server_tail [simp, intro]:
  "keeps (server_inv E) (gc_freed_parts E freed)" "keeps (server_inv E) (emit ev)"
  by (rule keeps_server; simp add: keeps_uploads_gc)
    (simp add: server_inv_def world_inv_def keeps_def triple_def emit_def)

lemma then_keeps: "triple P m (\<lambda>_. I) \<Longrightarrow> (\<And>a. keeps I (f a)) \<Longrightarrow> triple P (bnd m f) (\<lambda>_. I)"
  by (rule triple_bnd [where R = "\<lambda>_. I"])
    (auto simp: keeps_def triple_def upon_def split: outcome.split)

lemma before_quiet:
  "quiet m \<Longrightarrow> timeless P \<Longrightarrow> (\<And>w. P w \<Longrightarrow> I w) \<Longrightarrow> (\<And>a. triple P (f a) (\<lambda>_. I)) \<Longrightarrow>
     triple P (bnd m f) (\<lambda>_. I)"
  by (rule triple_quiet) auto

lemma triple_map_err: "triple P m (\<lambda>_. I) \<Longrightarrow> triple P (map_err f m) (\<lambda>_. I)"
  unfolding map_err_def
  by (rule triple_catch [where R = "\<lambda>_. I"]) (auto simp: triple_def ret_def fail_def split: outcome.split sum.split)

lemma triple_meta: "triple P m (\<lambda>_. I) \<Longrightarrow> triple P (meta E m) (\<lambda>_. I)"
  by (simp add: meta_def triple_map_err)

lemma triple_call:
  assumes "\<And>w. P w \<Longrightarrow> world_inv E w \<and> op_ok (w_db w) p \<and> (\<forall>h\<in>op_hashes p. w_blobs w h \<noteq> None)"
    and "keeps uploads_ok (meta_call E p)" and "\<And>w. P w \<Longrightarrow> uploads_named (w_db w)"
  shows "triple P (reply_as f (meta_call E p)) (\<lambda>_. server_inv E)"
  unfolding reply_as_def
  by (rule then_keeps)
    (use assms meta_call_inv in \<open>auto simp: triple_def keeps_def server_inv_def ret_def\<close>)

lemma put_manifest_server:
  assumes "row_ok m"
  shows "triple (\<lambda>w. server_inv E w \<and> has_files w (m_parts m)) (put_manifest E m) (\<lambda>_. server_inv E)"
proof -
  have "\<not> starts_upload (PutManifest m) (encode (new_key b k null_version_id))" for b k
  proof -
    have "nul \<notin> set null_version_id" by (simp add: null_version_id_def)
    moreover have "encode (m_key m) = encode (new_key (mk_bucket (m_key m)) (mk_key (m_key m)) (mk_version_id (m_key m)))"
      by (simp add: encode_def new_key_def)
    ultimately have "mk_version_id (m_key m) = null_version_id"
      if "encode (m_key m) = encode (new_key b k null_version_id)" "nul \<notin> set (mk_version_id (m_key m))"
      using that encode_version by metis
    then show ?thesis using assms by (auto simp: starts_upload_def row_ok_def)
  qed
  then show ?thesis
    unfolding put_manifest_def using assms
    by (intro triple_call keeps_uploads_call)
      (auto simp: server_inv_def has_files_def op_ok_def op_hashes_def part_hashes_def row_ok_def)
qed

lemma append_part_server:
  "triple (\<lambda>w. server_inv E w \<and> has_files w [part]) (append_part E k part) (\<lambda>_. server_inv E)"
  unfolding append_part_def
  by (intro triple_call keeps_uploads_call)
    (auto simp: server_inv_def has_files_def op_ok_def op_hashes_def starts_upload_def)

lemma complete_row_server:
  assumes "m_state m = Committed" and "nul_free_key (m_key m)" and "encode ik \<noteq> encode (m_key m)"
  shows "triple (\<lambda>w. server_inv E w \<and> has_files w (m_parts m)) (complete_multipart_upload_row E ik m) (\<lambda>_. server_inv E)"
  unfolding complete_multipart_upload_row_def
  using assms by (intro triple_call keeps_uploads_call)
    (auto simp: server_inv_def has_files_def op_ok_def op_hashes_def part_hashes_def starts_upload_def)

text \<open>A write of part bytes, in a state with room for one more reference.\<close>

definition written :: "world \<Rightarrow> hash \<Rightarrow> bool" where
  "written w h \<longleftrightarrow> (\<forall>part. pr_hash part = h \<longrightarrow> has_files w [part])"

lemma timeless_written [simp, intro]: "timeless (\<lambda>w. written w h)"
  by (simp add: timeless_def written_def has_files_def)

lemma write_bytes_server:
  "triple (\<lambda>w. server_inv E w \<and> roomy (w_db w)) (map_err f (write_bytes E data))
     (upon (\<lambda>res w. server_inv E w \<and> written w (pw_hash res)) (\<lambda>_. server_inv E))"
proof -
  have "triple (\<lambda>w. server_inv E w \<and> roomy (w_db w)) (write_bytes E data)
     (\<lambda>r w. server_inv E w \<and> roomy (w_db w) \<and> (case r of Ok res \<Rightarrow> w_blobs w (pw_hash res) \<noteq> None | _ \<Rightarrow> True))"
    by (rule triple_conseq [OF write_bytes_triple [of E "\<lambda>d. uploads_named d \<and> roomy d"]])
      (auto simp: server_inv_def split: outcome.splits)
  then show ?thesis
    by (fastforce simp: triple_def map_err_def catch_def ret_def fail_def written_def has_files_def room_for_one
        split: prod.splits outcome.splits)
qed

end
