(* ===== verification/MultipartProps.thy ===== *)
theory MultipartProps
  imports Calls
begin

text \<open>
  Completing an upload: what the request checks establish about the selected parts.
\<close>

text \<open>A request entry picks a stored part: same number, matching ETag.\<close>

definition picks :: "crates \<Rightarrow> part_ref list \<Rightarrow> complete_part \<Rightarrow> part_ref \<Rightarrow> bool" where
  "picks X stored p s \<longleftrightarrow>
     s \<in> set stored \<and> pr_part_number s = cp_part_number p \<and> trim (cp_etag p) = part_etag X (pr_md5 s)"

lemma find_SomeD: "List.find P xs = Some x \<Longrightarrow> x \<in> set xs \<and> P x"
  by (auto simp: find_Some_iff)

lemma select_parts_Inr:
  "select_parts X b k stored req acc = Inr sel \<Longrightarrow> \<exists>new. sel = acc @ new \<and> list_all2 (picks X stored) req new"
proof (induction X b k stored req acc rule: select_parts.induct)
  case (2 X b k stored p ps acc)
  from 2(2) obtain s where s: "List.find (\<lambda>s. pr_part_number s = cp_part_number p) stored = Some s"
    "trim (cp_etag p) = part_etag X (pr_md5 s)" "select_parts X b k stored ps (acc @ [s]) = Inr sel"
    by (auto split: option.splits if_splits)
  from 2(1) [OF s(1) _ s(3)] s(2) obtain new where
    "sel = (acc @ [s]) @ new" "list_all2 (picks X stored) ps new" by auto
  moreover have "picks X stored p s" using find_SomeD [OF s(1)] s(2) by (simp add: picks_def)
  ultimately show ?case by (intro exI [of _ "s # new"]) simp
qed auto

lemma parts_ascending_iff: "parts_ascending n ps \<longleftrightarrow> sorted_wrt (<) (n # map cp_part_number ps)"
  by (induction n ps rule: parts_ascending.induct) (auto dest: order.strict_trans)

lemma picks_numbers: "list_all2 (picks X stored) req sel \<Longrightarrow> map pr_part_number sel = map cp_part_number req"
  by (induction rule: list_all2_induct) (auto simp: picks_def)

lemma picks_subset: "list_all2 (picks X stored) req sel \<Longrightarrow> set sel \<subseteq> set stored"
  by (induction rule: list_all2_induct) (auto simp: picks_def)

text \<open>The selection has each part at most once, so it is a sub-multiset of what is stored.\<close>

lemma selected_submset:
  assumes "parts_ascending 0 req" and "list_all2 (picks X stored) req sel"
  shows "sorted_wrt (<) (map pr_part_number sel)" and "mset sel \<subseteq># mset stored"
proof -
  show sorted: "sorted_wrt (<) (map pr_part_number sel)"
    using assms(1) picks_numbers [OF assms(2)] by (simp add: parts_ascending_iff)
  then have "mset sel = mset_set (set sel)" by (metis distinct_map strict_sorted_iff mset_set_set)
  also have "\<dots> \<subseteq># mset_set (set_mset (mset stored))"
    using subset_imp_msubset_mset_set [OF picks_subset [OF assms(2)]] by simp
  also have "\<dots> \<subseteq># mset stored" by (rule mset_set_set_mset_msubset)
  finally show "mset sel \<subseteq># mset stored" .
qed

lemma count_list_submset: "mset xs \<subseteq># mset ys \<Longrightarrow> count_list (map f xs) a \<le> count_list (map f ys) a"
  by (metis count_list_mset image_mset_subseteq_mono mset_map mset_subset_eq_count)

end
