(* ===== verification/ServerProps.thy ===== *)
theory ServerProps
  imports ServerInv MultipartProps
begin

text \<open>
  Every handler and the maintenance sweep keep the server invariant; reachable worlds.
\<close>

subsection \<open>Handlers without preconditions\<close>

lemmas server_rules = keeps_bnd keeps_catch keeps_map_err keeps_meta keeps_pure keeps_for_each
  keeps_server_calls keeps_server_tail keeps_server_quiet quiet_rules

lemma keeps_bucket_handlers:
  "keeps (server_inv E) (handler_create_bucket E region b hs)"
  "keeps (server_inv E) (handler_delete_bucket E b)"
  "keeps (server_inv E) (put_bucket_versioning E b body)"
  "keeps (server_inv E) (put_bucket_lifecycle E b body)"
  "keeps (server_inv E) (delete_bucket_lifecycle E b)"
  "keeps (server_inv E) (put_bucket_object_lock_config E b body)"
  by (auto simp: handler_create_bucket_def handler_delete_bucket_def put_bucket_versioning_def Let_def
      put_bucket_lifecycle_def delete_bucket_lifecycle_def update_lifecycle_or_404_def
      put_bucket_object_lock_config_def
      intro!: keeps_bnd keeps_catch keeps_meta keeps_pure keeps_map_err
      split: sum.split option.split unit.split meta_error.split)

lemma keeps_metadata_handlers:
  "keeps (server_inv E) (put_object_tagging E b k v body)"
  "keeps (server_inv E) (delete_object_tagging E b k v)"
  "keeps (server_inv E) (put_object_retention E b k v body)"
  "keeps (server_inv E) (put_object_legal_hold E b k v body)"
  by (auto simp: put_object_tagging_def delete_object_tagging_def put_object_retention_def
      put_object_legal_hold_def
      intro!: keeps_bnd keeps_catch keeps_meta keeps_pure keeps_map_err split: sum.split option.split)

lemma keeps_delete_specific: "keeps (server_inv E) (delete_specific_version E b k v)"
  unfolding delete_specific_version_def Let_def
  by (auto intro!: keeps_bnd keeps_catch keeps_meta keeps_pure keeps_map_err
      split: sum.split meta_error.split)

lemma keeps_abort: "keeps (server_inv E) (abort_multipart_upload E b k u)"
  unfolding abort_multipart_upload_def
  by (auto intro!: keeps_bnd keeps_catch keeps_meta keeps_pure keeps_map_err)

subsection \<open>Handlers that store manifests\<close>

text \<open>\<open>before_quiet\<close> steps over the calls between two writes.\<close>

lemma put_object_server:
  assumes "nul \<notin> set b" and "nul \<notin> set k"
  shows "triple (\<lambda>w. server_inv E w \<and> roomy (w_db w)) (put_object E b k hs body) (\<lambda>_. server_inv E)"
  unfolding put_object_def Let_def
  apply ((rule before_quiet, (auto intro!: quiet_rules split: option.split)[1], simp, simp)+)
  apply (rule triple_bnd [OF write_bytes_server])
  apply ((rule before_quiet, (auto intro!: quiet_rules split: option.split)[1], simp, simp)+)
  apply (rule then_keeps [OF triple_meta [OF triple_conseq [OF put_manifest_server]]])
  apply (auto simp: row_ok_def nul_free_key_def new_key_def written_def assms intro!: keeps_bnd)
  done

lemma upload_part_server:
  "triple (\<lambda>w. server_inv E w \<and> roomy (w_db w)) (upload_part E b k u n hs body) (\<lambda>_. server_inv E)"
  unfolding upload_part_def Let_def
  apply ((rule before_quiet, (auto intro!: quiet_rules split: option.split)[1], simp, simp)+)
  apply (rule triple_bnd [OF write_bytes_server])
  apply (rule then_keeps [OF triple_map_err [OF triple_conseq [OF append_part_server]]])
  apply (auto simp: written_def intro!: keeps_bnd)
  done

lemma create_multipart_server:
  assumes "nul \<notin> set b" and "nul \<notin> set k" and "uuids_ok E"
  shows "triple (\<lambda>w. server_inv E w \<and> counts_ok (w_db w)) (create_multipart_upload E b k hs) (\<lambda>_. server_inv E)"
  unfolding create_multipart_upload_def Let_def
  apply (rule before_quiet, simp, simp, simp)
  apply (rule triple_bnd [where R = "\<lambda>u w. (nul \<notin> set u \<and> u \<noteq> null_version_id) \<and> server_inv E w \<and> counts_ok (w_db w)"])
  subgoal using assms(3) by (simp add: triple_def new_uuid_def uuids_ok_def server_inv_def)
  apply (rule before_quiet, simp, simp add: timeless_def server_inv_def world_inv_def, simp)
  apply (rule then_keeps [OF triple_meta])
  subgoal for _ u
    by (cases "nul \<notin> set u \<and> u \<noteq> null_version_id")
      (rule triple_conseq [OF put_manifest_server],
        auto simp: triple_def row_ok_def nul_free_key_def new_key_def has_files_def room_for_none assms)
  apply (auto intro!: keeps_bnd)
  done

subsection \<open>Handlers that read a manifest first\<close>

definition stored :: "db \<Rightarrow> manifest \<Rightarrow> bool" where
  "stored d m \<longleftrightarrow> (\<exists>kb. tbl_get (objects d) kb = Some m)"

lemma latest_in_stored:
  assumes "latest_in d b k = Some m" and "db_ok d"
  shows "stored d m" and "m_state m = Committed" and "mk_bucket (m_key m) = b" and "mk_key (m_key m) = k"
proof -
  let ?es = "tbl_range (objects d) (b @ [nul] @ k @ [nul]) (b @ [nul] @ k @ [soh])"
  have "foldl pick None (filter (committed_at b k) (map snd ?es)) = Some m"
    using assms(1) by (simp add: latest_in_def handle_get_latest_version_def latest_step_fold)
  then have m: "m \<in> set (filter (committed_at b k) (map snd ?es))"
    using pick_fold_in by blast
  then obtain kb where es: "(kb, m) \<in> set ?es" by auto
  have "tbl_ok (objects d)" using assms(2) by (simp add: db_ok_def)
  from in_tbl_range_iff [THEN iffD1, OF this es] show "stored d m" unfolding stored_def by blast
  show "m_state m = Committed" "mk_bucket (m_key m) = b" "mk_key (m_key m) = k"
    using m by (auto simp: committed_at_def)
qed

lemma stored_has_files:
  assumes "server_inv E w" and "roomy (w_db w)" and "stored (w_db w) m"
  shows "has_files w (m_parts m)"
proof -
  have d: "db_ok (w_db w)" and files: "\<And>h. 0 < refs (w_db w) h \<Longrightarrow> w_blobs w h \<noteq> None"
    using assms(1) by (auto simp: server_inv_def world_inv_def dest: store_inv_D(1))
  have "w_blobs w (pr_hash p) \<noteq> None" if "p \<in> set (m_parts m)" for p
    using files that assms(3) refs_0_iff [of "w_db w" "pr_hash p"] d
    by (fastforce simp: stored_def db_ok_def part_hashes_def)
  then show ?thesis using assms(2,3) by (auto simp: has_files_def roomy_def stored_def)
qed

lemma resolve_source_Ok:
  assumes "resolve_source E src w = (Ok m, w')" and "db_ok (w_db w)"
  shows "stored (w_db w) m \<and> w_db w' = w_db w \<and> w_blobs w' = w_blobs w"
  using assms latest_in_stored(1) [OF _ assms(2)]
  by (auto simp: resolve_source_def bnd_Ok read_eqs get_latest_version_eq read_result_Ok filter_option_def stored_def
      split: option.splits if_splits)

lemma quiet_copy_reads [simp, intro]: "quiet (resolve_source E src)" "quiet (read_source_range E m s e)"
proof -
  show "quiet (resolve_source E src)"
    unfolding resolve_source_def by (auto intro!: quiet_rules split: option.split)
  have "quiet (read_range_loop E s e ps cur out)" for ps cur out
    by (induction ps arbitrary: cur out) (auto simp: Let_def intro!: quiet_rules)
  then show "quiet (read_source_range E m s e)" by (simp add: read_source_range_def)
qed

text \<open>A quiet lookup whose result is known to fit the world.\<close>

lemma before_lookup:
  assumes "quiet m" and "timeless P" and "\<And>w. P w \<Longrightarrow> I w"
    and "\<And>w a w'. m w = (Ok a, w') \<Longrightarrow> P w \<Longrightarrow> P w' \<Longrightarrow> R a w'" and "\<And>a. triple (R a) (f a) (\<lambda>_. I)"
  shows "triple P (bnd m f) (\<lambda>_. I)"
proof (rule triple_bnd [OF _ assms(5)])
  show "triple P m (upon R (\<lambda>_. I))"
    unfolding triple_def
  proof (intro allI impI)
    fix w assume P: "P w"
    obtain r w' where m: "m w = (r, w')" by fastforce
    have "P w'" using keeps_quiet [OF assms(1,2)] P m by (metis keeps_def triple_def snd_conv)
    then show "upon R (\<lambda>_. I) (fst (m w)) (snd (m w))" using assms(3,4) P m by (cases r) auto
  qed
qed

lemma copy_object_server:
  assumes "nul \<notin> set b" and "nul \<notin> set k"
  shows "triple (\<lambda>w. server_inv E w \<and> roomy (w_db w)) (copy_object E b k src hs) (\<lambda>_. server_inv E)"
  unfolding copy_object_def Let_def
  apply (rule before_quiet, (auto intro!: quiet_rules)[1], simp, simp)
  apply (rule before_quiet, simp, simp, simp)
  apply (rule before_lookup [where R = "\<lambda>m w. server_inv E w \<and> has_files w (m_parts m)"], simp, simp, simp)
  subgoal for _ _ w m w'
    using resolve_source_Ok [of E src w m w'] stored_has_files [of E w' m]
    by (auto simp: server_inv_def world_inv_def dest: store_inv_D(1))
  apply ((rule before_quiet, (auto intro!: quiet_rules)[1], simp, simp)+)
  apply (rule then_keeps [OF triple_meta [OF triple_conseq [OF put_manifest_server]]])
  apply (auto simp: row_ok_def nul_free_key_def new_key_def copied_manifest_def Let_def assms intro!: keeps_bnd)
  done

lemma upload_part_copy_server:
  "triple (\<lambda>w. server_inv E w \<and> roomy (w_db w)) (upload_part_copy E b k u n src hs) (\<lambda>_. server_inv E)"
  unfolding upload_part_copy_def Let_def case_prod_unfold
  apply ((rule before_quiet, (auto intro!: quiet_rules split: option.split)[1], simp, simp)+)
  apply (rule triple_bnd [OF write_bytes_server])
  apply (rule then_keeps [OF triple_map_err [OF triple_conseq [OF append_part_server]]])
  apply (auto simp: written_def intro!: keeps_bnd)
  done

subsection \<open>Completing an upload\<close>

lemma find_upload_Ok:
  assumes "find_upload E b k u w = (Ok m, w')"
  shows "tbl_get (objects (w_db w)) (encode (new_key b k u)) = Some m" "m_state m = InProgress" "w' = tick w"
  using assms by (auto simp: find_upload_def bnd_Ok read_eqs read_result_Ok filter_option_def split: option.splits if_splits)

lemma selected_has_files:
  assumes "has_files w ps" and "mset sel \<subseteq># mset ps"
  shows "has_files w sel"
proof -
  have "set sel \<subseteq> set ps" using set_mset_mono [OF assms(2)] by simp
  moreover have "refs (w_db w) h + count_list (map pr_hash sel) h \<le> u32_max" for h
    using count_list_submset [OF assms(2), of pr_hash h] assms(1)
    by (auto simp: has_files_def room_for_def intro: order.trans [OF add_left_mono])
  ultimately show ?thesis using assms(1) by (auto simp: has_files_def room_for_def)
qed

lemma timeless_const [simp, intro]: "timeless (\<lambda>w. c)"
  by (simp add: timeless_def)

lemma complete_multipart_server:
  assumes "nul \<notin> set b" and "nul \<notin> set k"
  shows "triple (\<lambda>w. server_inv E w \<and> roomy (w_db w)) (complete_multipart_upload E b k u body) (\<lambda>_. server_inv E)"
proof (cases "parse_complete_xml (e_crates E) body")
  case (Inr req)
  let ?ik = "new_key b k u" and ?null = "new_key b k null_version_id"
  show ?thesis
    unfolding complete_multipart_upload_def Let_def Inr sum.case
    apply (rule before_quiet, simp, simp, simp)
    apply (rule before_lookup [where R = "\<lambda>_ w. server_inv E w \<and> roomy (w_db w) \<and> parts_ascending 0 (cm_parts req)"],
        simp, simp, simp, simp)
    apply (rule before_lookup [where R = "\<lambda>up w. server_inv E w \<and> has_files w (m_parts up) \<and>
        (parts_ascending 0 (cm_parts req) \<and> encode ?ik \<noteq> encode ?null)"], simp, simp, simp)
    subgoal for _ _ w m w'
      using find_upload_Ok [of E b k u w m w'] stored_has_files [of E w' m]
      by (auto simp: server_inv_def uploads_named_def in_progress_at_def stored_def)
    apply (rule before_lookup [where R = "\<lambda>sel w. server_inv E w \<and> has_files w sel \<and> encode ?ik \<noteq> encode ?null"],
        simp, simp, simp)
    subgoal for _ _ up w sel w'
      using select_parts_Inr [of "e_crates E" b k "m_parts up" "cm_parts req" "[]" sel]
        selected_submset(2) selected_has_files by (auto simp: server_inv_def)
    apply ((rule before_quiet, (auto intro!: quiet_rules)[1], simp, simp)+)
    apply (cases "encode ?ik = encode ?null", simp add: triple_def)
    apply (rule then_keeps [OF triple_meta [OF triple_conseq [OF complete_row_server]]])
    apply (auto simp: committed_upload_def nul_free_key_def new_key_def assms intro!: keeps_bnd)
    done
qed (simp add: complete_multipart_upload_def triple_def fail_def)

subsection \<open>Deleting, and the sweep\<close>

definition sweep_inv :: "env \<Rightarrow> world \<Rightarrow> bool" where
  "sweep_inv E w \<longleftrightarrow> server_inv E w \<and> counts_ok (w_db w)"

lemma timeless_sweep [simp, intro]: "timeless (sweep_inv E)"
  by (simp add: timeless_def sweep_inv_def server_inv_def world_inv_def)

lemma keeps_sweepI: "keeps (server_inv E) m \<Longrightarrow>
    (\<And>w h. server_inv E w \<Longrightarrow> refs (w_db (snd (m w))) h \<le> refs (w_db w) h) \<Longrightarrow> keeps (sweep_inv E) m"
  unfolding keeps_def triple_def sweep_inv_def counts_ok_def by (meson order.trans)

lemma refs_write:
  assumes "\<And>v d'. r = Inr (v, d') \<Longrightarrow> refs d' h \<le> refs (w_db w) h"
  shows "refs (w_db (snd (write_result E w r))) h \<le> refs (w_db w) h"
  using assms by (auto simp: write_result_def split: option.split sum.split)

lemma keeps_sweep_quiet [simp, intro]: "quiet m \<Longrightarrow> keeps (sweep_inv E) m"
  by (rule keeps_quiet) auto

lemma keeps_sweep_delete [simp, intro]: "keeps (sweep_inv E) (delete_manifest E k)"
proof (rule keeps_sweepI)
  fix w h assume "server_inv E w"
  then have ok: "tbl_ok (objects (w_db w))" by (auto simp: server_inv_def world_inv_def store_inv_def db_ok_def)
  show "refs (w_db (snd (delete_manifest E k w))) h \<le> refs (w_db w) h"
    unfolding write_eqs
  proof (rule refs_write)
    fix v d' assume "handle_delete_manifest (w_db w) k = Inr (v, d')"
    from refs_remove [OF ok delete_manifest_objects [OF this], of h]
    show "refs d' h \<le> refs (w_db w) h" by simp
  qed
qed simp

lemma keeps_sweep_tombstone:
  assumes "nul \<notin> set b" and "nul \<notin> set k"
  shows "keeps (sweep_inv E) (put_manifest E (tombstone b k v now))"
proof -
  let ?m = "tombstone b k v now"
  have "row_ok ?m" using assms by (simp add: row_ok_def tombstone_def nul_free_key_def new_key_def)
  then have "triple (sweep_inv E) (put_manifest E ?m) (\<lambda>_. server_inv E)"
    by (rule triple_conseq [OF put_manifest_server])
      (auto simp: sweep_inv_def has_files_def tombstone_def room_for_none)
  moreover have "refs (w_db (snd (put_manifest E ?m w))) h \<le> refs (w_db w) h" if "server_inv E w" for w h
  proof -
    have ok: "tbl_ok (objects (w_db w))"
      using that by (auto simp: server_inv_def world_inv_def store_inv_def db_ok_def)
    have "occurrences ?m h = 0" by (simp add: occurrences_def tombstone_def)
    then have "refs d' h \<le> refs (w_db w) h" if "objects d' = tbl_insert (objects (w_db w)) (encode (m_key ?m)) ?m" for d'
      using refs_insert [OF ok that, of h] by simp
    then show ?thesis
      unfolding write_eqs by (intro refs_write) (elim put_manifest_cases)
  qed
  ultimately show ?thesis
    unfolding keeps_def triple_def sweep_inv_def counts_ok_def by (meson order.trans)
qed

lemma gc_refs: "refs (w_db (snd ((gc_freed_parts E freed :: ('e, unit) action) w))) = refs (w_db w)"
  using gc_freed_parts_same [of w E freed, where ?'e = 'e] by (intro refs_cong) (simp add: same_objects_def)

lemma keeps_sweep_tail [simp, intro]:
  "keeps (sweep_inv E) (gc_freed_parts E freed)" "keeps (sweep_inv E) (emit ev)"
  by (rule keeps_sweepI; simp add: gc_refs emit_def)+

lemma keeps_delete_object:
  assumes "nul \<notin> set b" and "nul \<notin> set k"
  shows "triple (sweep_inv E) (delete_object E b k v) (\<lambda>_. server_inv E)"
proof -
  have "keeps (sweep_inv E) (delete_specific_version E b k v')" for v'
    unfolding delete_specific_version_def Let_def
    by (auto intro!: keeps_bnd keeps_catch keeps_meta keeps_pure keeps_map_err
        split: sum.split meta_error.split)
  then have "keeps (sweep_inv E) (delete_object E b k v)"
    unfolding delete_object_def Let_def
    by (auto intro!: keeps_bnd keeps_catch keeps_meta keeps_sweep_tombstone quiet_bnd assms
        split: sum.split meta_error.split option.split)
  then show ?thesis by (auto simp: keeps_def triple_def sweep_inv_def)
qed

text \<open>The manifests a sweep works on are a snapshot; only their names matter here.\<close>

lemma keeps_expire_current:
  assumes "nul \<notin> set b" and "nul_free_key (m_key m)"
  shows "keeps (sweep_inv E) (expire_current E b vs m now)"
  unfolding expire_current_def
  using assms by (auto simp: nul_free_key_def intro!: keeps_bnd keeps_sweep_tombstone)

lemma keeps_rule_loops:
  assumes "nul \<notin> set b" and "nul_free_key (m_key m)"
  shows "keeps (sweep_inv E) (abort_loop E m now rules rep)"
    and "keeps (sweep_inv E) (expire_loop E b vs m cur now rules rep)"
proof -
  show "keeps (sweep_inv E) (abort_loop E m now rules rep)"
    by (induction rules) (auto intro!: keeps_bnd split: option.split)
  show "keeps (sweep_inv E) (expire_loop E b vs m cur now rules rep)"
    by (induction rules) (auto intro!: keeps_bnd keeps_expire_current assms split: option.split)
qed

lemma keeps_evaluate:
  assumes "nul \<notin> set b" and "nul_free_key (m_key m)"
  shows "keeps (sweep_inv E) (evaluate_manifest E b vs m cur rules now rep)"
  unfolding evaluate_manifest_def
  by (auto intro!: keeps_bnd keeps_rule_loops [OF assms] split: manifest_state.split)

lemma group_by_key_members:
  assumes "k_ms \<in> set (tbl_iter (group_by_key ms))" and "m \<in> set (snd k_ms)"
  shows "m \<in> set ms"
proof -
  let ?step = "\<lambda>t m. tbl_insert t (mk_key (m_key m))
      ((case tbl_get t (mk_key (m_key m)) of Some vs \<Rightarrow> vs | None \<Rightarrow> []) @ [m])"
  have *: "tbl_ok (foldl ?step t ms) \<and> (\<forall>k vs. tbl_get (foldl ?step t ms) k = Some vs \<longrightarrow> set vs \<subseteq> S \<union> set ms)"
    if "tbl_ok t" "\<forall>k vs. tbl_get t k = Some vs \<longrightarrow> set vs \<subseteq> S" for t S
    using that
  proof (induction ms arbitrary: t S)
    case (Cons m ms)
    have "tbl_ok (?step t m)" using Cons.prems by simp
    moreover have "\<forall>k vs. tbl_get (?step t m) k = Some vs \<longrightarrow> set vs \<subseteq> insert m S"
      using Cons.prems(2) by (cases "tbl_get t (mk_key (m_key m))") auto
    ultimately show ?case using Cons.IH [of "?step t m" "insert m S"] by simp
  qed auto
  have t: "tbl_ok (group_by_key ms)" "\<forall>k vs. tbl_get (group_by_key ms) k = Some vs \<longrightarrow> set vs \<subseteq> set ms"
    using * [of "[]" "{}"] by (auto simp: group_by_key_def)
  have "tbl_get (group_by_key ms) (fst k_ms) = Some (snd k_ms)"
    using assms(1) tbl.in_iter_iff [OF t(1), of "fst k_ms" "snd k_ms"] by simp
  then show ?thesis using t(2) assms(2) by blast
qed

lemma list_all_members:
  assumes "list_all_manifests_in_bucket E b w = (Ok ms, w')" and "server_inv E w" and "m \<in> set ms"
  shows "nul_free_key (m_key m)" "mk_bucket (m_key m) = b"
proof -
  have inv: "db_ok (w_db w)" "keys_ok (w_db w)"
    using assms(2) by (auto simp: server_inv_def world_inv_def dest: store_inv_D)
  have ms: "ms = filter (\<lambda>m. mk_bucket (m_key m) = b) (map snd (tbl_range (objects (w_db w)) (b @ [nul]) (b @ [soh])))"
    using assms(1) by (auto simp: list_all_manifests_in_bucket_def call_defs manifests_of_def
        handle_list_all_manifests_in_bucket_def split: option.splits)
  then obtain kb where kb: "(kb, m) \<in> set (tbl_range (objects (w_db w)) (b @ [nul]) (b @ [soh]))"
    using assms(3) by auto
  have "tbl_ok (objects (w_db w))" using inv by (simp add: db_ok_def)
  from in_tbl_range_iff [THEN iffD1, OF this kb] show "nul_free_key (m_key m)"
    using inv(2) by (auto simp: keys_ok_def)
  show "mk_bucket (m_key m) = b" using ms assms(3) by auto
qed

lemma set_newest_first [simp]: "set (newest_first ms) = set ms"
  by (simp add: newest_first_def)

lemma keeps_sweep_key:
  assumes "nul \<notin> set b" and "\<And>m. m \<in> set (snd k_ms) \<Longrightarrow> nul_free_key (m_key m)"
  shows "keeps (sweep_inv E) (sweep_key E b vs rules now k_ms rep)"
  unfolding sweep_key_def Let_def using assms by (auto intro!: keeps_for_each keeps_evaluate)

lemma keeps_sweep_bucket: "keeps (sweep_inv E) (sweep_bucket E now b rep)"
proof (cases b)
  case (Pair name cfg)
  have "triple (sweep_inv E) (bnd (list_all_manifests_in_bucket E name) (\<lambda>ms.
      for_each (sweep_key E name (bc_versioning cfg) active now) (tbl_iter (group_by_key ms)) rep)) (\<lambda>_. sweep_inv E)"
    for active
  proof (rule before_lookup [where R = "\<lambda>ms w. sweep_inv E w \<and> (\<forall>m\<in>set ms. nul_free_key (m_key m) \<and> mk_bucket (m_key m) = name)"])
    fix w ms w'
    assume call: "list_all_manifests_in_bucket E name w = (Ok ms, w')" and inv: "sweep_inv E w" "sweep_inv E w'"
    have "server_inv E w" using inv(1) by (simp add: sweep_inv_def)
    from list_all_members [OF call this] inv(2)
    show "sweep_inv E w' \<and> (\<forall>m\<in>set ms. nul_free_key (m_key m) \<and> mk_bucket (m_key m) = name)" by blast
  next
    fix ms
    have "keeps (sweep_inv E) (for_each (sweep_key E name (bc_versioning cfg) active now) (tbl_iter (group_by_key ms)) rep)"
      if ms: "\<forall>m\<in>set ms. nul_free_key (m_key m) \<and> mk_bucket (m_key m) = name"
    proof (rule keeps_for_each)
      fix k_ms s assume k: "k_ms \<in> set (tbl_iter (group_by_key ms))"
      note members = group_by_key_members [OF k]
      show "keeps (sweep_inv E) (sweep_key E name (bc_versioning cfg) active now k_ms s)"
      proof (cases "snd k_ms")
        case Nil
        then show ?thesis by (simp add: sweep_key_def newest_first_def)
      next
        case (Cons m rest)
        then have "nul \<notin> set name" using ms members [of m] by (auto simp: nul_free_key_def)
        then show ?thesis using ms members by (intro keeps_sweep_key) auto
      qed
    qed
    then show "triple (\<lambda>w. sweep_inv E w \<and> (\<forall>m\<in>set ms. nul_free_key (m_key m) \<and> mk_bucket (m_key m) = name))
        (for_each (sweep_key E name (bc_versioning cfg) active now) (tbl_iter (group_by_key ms)) rep) (\<lambda>_. sweep_inv E)"
      by (auto simp: keeps_def triple_def)
  qed simp_all
  then show ?thesis by (simp add: Pair sweep_bucket_def keeps_def triple_def ret_def Let_def)
qed

lemma keeps_gc_orphan: "keeps (server_inv E) (gc_orphan E h n)"
proof (rule keeps_server)
  let ?P = "\<lambda>w. world_inv E w \<and> refs (w_db w) h = 0"
  have rm: "triple ?P (catch (remove_part E h) (\<lambda>r. case r of Inl _ \<Rightarrow> ret n | Inr () \<Rightarrow> ret (incr n))) (\<lambda>_. world_inv E)"
    by (rule triple_catch [where R = "\<lambda>_. world_inv E"])
      (use remove_part_triple [of E h] in \<open>auto simp: triple_def ret_def split: outcome.split sum.split unit.split\<close>)
  have del: "triple ?P (catch (delete_part E h) (\<lambda>r. case r of Inl _ \<Rightarrow> ret n | Inr () \<Rightarrow>
      catch (remove_part E h) (\<lambda>r. case r of Inl _ \<Rightarrow> ret n | Inr () \<Rightarrow> ret (incr n)))) (\<lambda>_. world_inv E)"
    by (rule triple_catch [where R = "\<lambda>_. ?P"])
      (use delete_part_triple [of E h] rm in \<open>auto simp: triple_def ret_def split: outcome.split sum.split unit.split\<close>)
  show "keeps (world_inv E) (gc_orphan E h n)"
    unfolding keeps_def gc_orphan_def
    by (rule triple_catch [where R = "\<lambda>r w. world_inv E w \<and> (r = Inr True \<longrightarrow> refs (w_db w) h = 0)"])
      (use mark_triple [of E h] del in \<open>auto simp: triple_def ret_def split: outcome.split sum.split bool.split\<close>)
  have "keeps uploads_ok (delete_part E h)"
    by (simp add: keeps_def triple_def delete_part_def split: option.split io_fault.split)
  then show "keeps uploads_ok (gc_orphan E h n)"
    unfolding gc_orphan_def by (auto intro!: keeps_catch split: sum.split bool.split unit.split)
qed

lemma sweep_server: "triple (sweep_inv E) (sweep_at E now) (\<lambda>_. server_inv E)"
proof -
  have "keeps (sweep_inv E) (sweep_lifecycle_at E now)"
    unfolding sweep_lifecycle_at_def by (auto intro!: keeps_bnd keeps_for_each keeps_sweep_bucket)
  moreover have "keeps (server_inv E) (bnd (sweep_gc E) (\<lambda>gc. ret (rep\<lparr>sr_gc_parts_removed := gc\<rparr>)))" for rep
    unfolding sweep_gc_def by (auto intro!: keeps_bnd keeps_for_each keeps_gc_orphan)
  ultimately show ?thesis
    unfolding sweep_at_def keeps_def
    by (intro triple_bnd [where f = "\<lambda>rep. bnd (sweep_gc E) (\<lambda>gc. ret (rep\<lparr>sr_gc_parts_removed := gc\<rparr>))" and R = "\<lambda>_. sweep_inv E"])
      (auto simp: triple_def upon_def sweep_inv_def split: outcome.split)
qed

subsection \<open>Reachable worlds\<close>

text \<open>The requests, and the periodic sweep, with the arguments the router hands to their handlers.\<close>

datatype request =
    ReqCreateBucket string string header_map
  | ReqDeleteBucket string
  | ReqPutVersioning string bytes
  | ReqPutLifecycle string bytes
  | ReqDeleteLifecycle string
  | ReqPutLockConfig string bytes
  | ReqPutObject string string header_map bytes
  | ReqGetObject string string "string option" header_map bool
  | ReqDeleteObject string string "string option"
  | ReqCopyObject string string copy_source header_map
  | ReqCreateUpload string string header_map
  | ReqUploadPart string string string nat header_map bytes
  | ReqUploadPartCopy string string string nat copy_source header_map
  | ReqCompleteUpload string string string bytes
  | ReqAbortUpload string string string
  | ReqPutTagging string string "string option" bytes
  | ReqDeleteTagging string string "string option"
  | ReqPutRetention string string "string option" bytes
  | ReqPutLegalHold string string "string option" bytes
  | ReqSweep timestamp

definition serve :: "env \<Rightarrow> request \<Rightarrow> world \<Rightarrow> world" where
  "serve E r w =
     (case r of
        ReqCreateBucket region b hs \<Rightarrow> snd (handler_create_bucket E region b hs w)
      | ReqDeleteBucket b \<Rightarrow> snd (handler_delete_bucket E b w)
      | ReqPutVersioning b body \<Rightarrow> snd (put_bucket_versioning E b body w)
      | ReqPutLifecycle b body \<Rightarrow> snd (put_bucket_lifecycle E b body w)
      | ReqDeleteLifecycle b \<Rightarrow> snd (delete_bucket_lifecycle E b w)
      | ReqPutLockConfig b body \<Rightarrow> snd (put_bucket_object_lock_config E b body w)
      | ReqPutObject b k hs body \<Rightarrow> snd (put_object E b k hs body w)
      | ReqGetObject b k v hs head \<Rightarrow> snd (get_or_head_object E b k v hs head w)
      | ReqDeleteObject b k v \<Rightarrow> snd (delete_object E b k v w)
      | ReqCopyObject b k src hs \<Rightarrow> snd (copy_object E b k src hs w)
      | ReqCreateUpload b k hs \<Rightarrow> snd (create_multipart_upload E b k hs w)
      | ReqUploadPart b k u n hs body \<Rightarrow> snd (upload_part E b k u n hs body w)
      | ReqUploadPartCopy b k u n src hs \<Rightarrow> snd (upload_part_copy E b k u n src hs w)
      | ReqCompleteUpload b k u body \<Rightarrow> snd (complete_multipart_upload E b k u body w)
      | ReqAbortUpload b k u \<Rightarrow> snd (abort_multipart_upload E b k u w)
      | ReqPutTagging b k v body \<Rightarrow> snd (put_object_tagging E b k v body w)
      | ReqDeleteTagging b k v \<Rightarrow> snd (delete_object_tagging E b k v w)
      | ReqPutRetention b k v body \<Rightarrow> snd (put_object_retention E b k v body w)
      | ReqPutLegalHold b k v body \<Rightarrow> snd (put_object_legal_hold E b k v body w)
      | ReqSweep now \<Rightarrow> snd (sweep_at E now w))"

text \<open>A request path has no NUL byte: the HTTP server rejects it.\<close>

definition request_ok :: "request \<Rightarrow> bool" where
  "request_ok r =
     (let name_ok = (\<lambda>b k. nul \<notin> set b \<and> nul \<notin> set (k :: string)) in
      case r of
        ReqPutObject b k hs body \<Rightarrow> name_ok b k
      | ReqDeleteObject b k v \<Rightarrow> name_ok b k
      | ReqCopyObject b k src hs \<Rightarrow> name_ok b k
      | ReqCreateUpload b k hs \<Rightarrow> name_ok b k
      | ReqCompleteUpload b k u body \<Rightarrow> name_ok b k
      | _ \<Rightarrow> True)"

definition initial_world :: world where
  "initial_world = \<lparr>w_db = bootstrap_tables, w_blobs = (\<lambda>_. None), w_events = [], w_tick = 0\<rparr>"

inductive server_reach :: "env \<Rightarrow> world \<Rightarrow> bool" for E where
  server_start: "server_reach E initial_world"
| server_request: "server_reach E w \<Longrightarrow> roomy (w_db w) \<Longrightarrow> request_ok r \<Longrightarrow> server_reach E (serve E r w)"

lemma quiet_get [simp, intro]: "quiet (get_or_head_object E b k v hs head)"
  unfolding get_or_head_object_def read_all_parts_def Let_def
  by (auto intro!: quiet_rules split: option.split)

lemma keeps_snd: "keeps P m \<Longrightarrow> P w \<Longrightarrow> P (snd (m w))"
  by (simp add: keeps_def triple_def)

lemma triple_snd: "triple P m (\<lambda>_. Q) \<Longrightarrow> P w \<Longrightarrow> Q (snd (m w))"
  by (simp add: triple_def)

lemma serve_inv:
  assumes "uuids_ok E" and inv: "server_inv E w" and room: "roomy (w_db w)" and "request_ok r"
  shows "server_inv E (serve E r w)"
proof -
  have pre: "server_inv E w \<and> roomy (w_db w)" "server_inv E w \<and> counts_ok (w_db w)" "sweep_inv E w"
    using inv room roomy_counts by (auto simp: sweep_inv_def)
  show ?thesis
    using assms(1,4) inv pre
    by (cases r)
      (auto simp: serve_def request_ok_def
        intro: keeps_snd [OF keeps_bucket_handlers(1)] keeps_snd [OF keeps_bucket_handlers(2)]
          keeps_snd [OF keeps_bucket_handlers(3)] keeps_snd [OF keeps_bucket_handlers(4)]
          keeps_snd [OF keeps_bucket_handlers(5)] keeps_snd [OF keeps_bucket_handlers(6)]
          keeps_snd [OF keeps_metadata_handlers(1)] keeps_snd [OF keeps_metadata_handlers(2)]
          keeps_snd [OF keeps_metadata_handlers(3)] keeps_snd [OF keeps_metadata_handlers(4)]
          keeps_snd [OF keeps_abort] keeps_snd [OF keeps_server_quiet]
          triple_snd [OF put_object_server] triple_snd [OF keeps_delete_object] triple_snd [OF copy_object_server]
          triple_snd [OF create_multipart_server] triple_snd [OF upload_part_server]
          triple_snd [OF upload_part_copy_server] triple_snd [OF complete_multipart_server]
          triple_snd [OF sweep_server])
qed

lemma server_reach_inv: "server_reach E w \<Longrightarrow> uuids_ok E \<Longrightarrow> server_inv E w"
proof (induction rule: server_reach.induct)
  case server_start
  show ?case
    using store_reach_inv [OF store_init]
    by (simp add: initial_world_def server_inv_def world_inv_def uploads_named_def in_progress_at_def
        blobs_ok_def bootstrap_tables_def refs_def tbl_iter_def)
qed (rule serve_inv)

end
