(* ===== verification/Toy.thy ===== *)
theory Toy
  imports ServerProps
begin

text \<open>
  A small concrete run of the server for the witnesses: an environment without failures in
  which a bucket is created and an object stored.
\<close>

definition toy_env :: env where
  "toy_env =
     \<lparr>e_crates = toy_crates, e_meta_text = (\<lambda>_. []), e_cursor_bytes = (\<lambda>_. Inr []),
      e_cursor_of_bytes = (\<lambda>_. None), e_meta_fault = (\<lambda>_. None), e_io_fault = (\<lambda>_. None),
      e_clock = (\<lambda>n. int n), e_uuid = (\<lambda>_. ''u'')\<rparr>"

definition toy_bucket :: "versioning_state \<Rightarrow> bucket_config" where
  "toy_bucket vs = \<lparr>bc_created_at = 0, bc_versioning = vs, bc_region = ''eu'', bc_cors_rules = [],
     bc_object_lock = None, bc_lifecycle_rules = []\<rparr>"

definition toy_object :: "string \<Rightarrow> bytes \<Rightarrow> object_lock option \<Rightarrow> timestamp \<Rightarrow> manifest" where
  "toy_object v data l t =
     \<lparr>m_key = new_key ''bkt'' ''k'' v, m_state = Committed, m_kind = Object, m_upload_mode = SinglePut,
      m_parts = [\<lparr>pr_part_number = 1, pr_hash = data, pr_md5 = data, pr_size = length data\<rparr>],
      m_size = length data, m_content_type = None, m_user_metadata = [], m_tags = [],
      m_additional_checksum = None, m_storage_class = ''STANDARD'', m_object_lock = l,
      m_created_at = t, m_last_modified = t, m_upload_id = None\<rparr>"

definition toy_world :: "(string \<times> bucket_config) list \<Rightarrow> manifest list \<Rightarrow> (hash \<times> part_entry) list \<Rightarrow> object_event list \<Rightarrow> nat \<Rightarrow> world" where
  "toy_world bs ms ps evs n =
     \<lparr>w_db = \<lparr>buckets = bs, objects = map (\<lambda>m. (encode (m_key m), m)) ms, parts = ps, server_meta = [], events_dlq = []\<rparr>,
      w_blobs = (\<lambda>h. if h \<in> fst ` set ps then Some h else None), w_events = evs, w_tick = n\<rparr>"

definition toy_row :: "nat \<Rightarrow> nat \<Rightarrow> timestamp \<Rightarrow> part_entry" where
  "toy_row n sz t = \<lparr>pe_refcount = n, pe_size = sz, pe_state = Live, pe_created_at = t\<rparr>"

lemmas toy_defs = toy_env_def toy_crates_def toy_bucket_def toy_object_def toy_world_def toy_row_def

definition toy_start :: world where
  "toy_start = toy_world [(''bkt'', toy_bucket Off)] [] [] [] 2"

lemma toy_create: "serve toy_env (ReqCreateBucket ''eu'' ''bkt'' []) initial_world = toy_start"
  by (simp add: serve_def handler_create_bucket_def header_str_def header_get_def Let_def bnd_def now_utc_def
      catch_def write_eqs write_result_def handle_create_bucket_def initial_world_def bootstrap_tables_def
      toy_start_def toy_defs tick_def ret_def split: unit.split)

definition toy_put_event :: object_event where
  "toy_put_event = \<lparr>oe_type = ObjectCreatedPut, oe_bucket = ''bkt'', oe_key = ''k'', oe_size = 2,
     oe_etag = quoted_hex toy_crates ''hi'', oe_version_id = None\<rparr>"

definition toy_stored :: world where
  "toy_stored = toy_world [(''bkt'', toy_bucket Off)] [toy_object ''null'' ''hi'' None 4] [(''hi'', toy_row 1 2 5)] [toy_put_event] 6"

lemmas put_eval = put_object_def Let_def bnd_def require_bucket_def meta_def map_err_def catch_def read_eqs
  read_result_def write_eqs write_result_def check_put_preconditions_def parse_content_md5_def header_str_def
  header_get_def parse_request_checksum_def header_bindings_def write_bytes_eq next_version_id_def at_object_def
  parse_x_amz_tagging_def parse_lock_headers_def default_lock_for_bucket_def now_utc_def new_uuid_def etag_def unwrap_def
  gc_freed_parts_def emit_def ret_def lift_def ok_or_def fail_if_def handle_put_manifest_def inc_all_def
  inc_part_refcount_def extract_user_metadata_def null_version_id_def tick_def tbl_get_def

lemma toy_put: "\<exists>r. put_object toy_env ''bkt'' ''k'' [] ''hi'' toy_start = (Ok r, toy_stored)"
  by (simp add: put_eval toy_start_def toy_stored_def toy_defs toy_put_event_def fun_eq_iff)

lemma toy_uuids: "uuids_ok toy_env"
  by (simp add: uuids_ok_def toy_env_def null_version_id_def)

lemma toy_roomy: "objects d = [] \<Longrightarrow> roomy d"
  by (simp add: roomy_def refs_def tbl_iter_def)

lemma toy_start_reach: "server_reach toy_env toy_start"
  unfolding toy_create [symmetric]
  by (rule server_request [OF server_start])
    (simp_all add: toy_roomy initial_world_def bootstrap_tables_def request_ok_def)

lemma toy_start_objects: "objects (w_db toy_start) = []"
  by (simp add: toy_start_def toy_world_def)

lemma toy_stored_reach: "server_reach toy_env toy_stored"
proof -
  have "serve toy_env (ReqPutObject ''bkt'' ''k'' [] ''hi'') toy_start = toy_stored"
    using toy_put by (auto simp: serve_def)
  moreover have "request_ok (ReqPutObject ''bkt'' ''k'' [] ''hi'')" by (simp add: request_ok_def)
  ultimately show ?thesis
    using server_request [OF toy_start_reach toy_roomy [OF toy_start_objects]] by metis
qed

lemmas toy_inv = server_reach_inv [OF toy_start_reach toy_uuids] server_reach_inv [OF toy_stored_reach toy_uuids]

end
