(* ===== verification/PutGet.thy ===== *)
theory PutGet
  imports Toy
begin

text \<open>
  What PUT stores and what GET returns: the effect of a successful PUT, the round trip, and
  byte ranges.
\<close>

subsection \<open>The effect of a successful PUT\<close>

text \<open>The manifest a PUT commits, from what the request and the environment supply.\<close>

definition put_manifest_of ::
  "env \<Rightarrow> string \<Rightarrow> string \<Rightarrow> header_map \<Rightarrow> bytes \<Rightarrow> string \<Rightarrow> object_lock option \<Rightarrow> timestamp \<Rightarrow> manifest \<Rightarrow> bool" where
  "put_manifest_of E b k hs body vid lock now m \<longleftrightarrow>
     m_key m = new_key b k vid \<and> m_state m = Committed \<and> m_kind m = Object \<and> m_upload_mode m = SinglePut \<and>
     (\<exists>n. m_parts m = [\<lparr>pr_part_number = 1, pr_hash = blake3 (e_crates E) body, pr_md5 = md5 (e_crates E) body, pr_size = n\<rparr>]
        \<and> n = length body mod u64_mod \<and> m_size m = n) \<and>
     m_content_type m = header_str (e_crates E) hs ''content-type'' \<and>
     parse_x_amz_tagging (e_crates E) hs = Inr (m_tags m) \<and>
     parse_request_checksum (e_crates E) hs = Inr (m_additional_checksum m) \<and>
     (\<forall>c. m_additional_checksum m = Some c \<longrightarrow> checksum_compute (e_crates E) (ac_algorithm c) body = ac_value c) \<and>
     m_user_metadata m = extract_user_metadata (e_crates E) hs \<and>
     m_object_lock m = lock \<and> m_created_at m = now \<and> m_last_modified m = now \<and> m_upload_id m = None"

text \<open>The lock of the new object: from the request's headers, or else the bucket's default.\<close>

definition lock_chosen :: "env \<Rightarrow> header_map \<Rightarrow> bucket_config \<Rightarrow> object_lock option \<Rightarrow> bool" where
  "lock_chosen E hs cfg lock \<longleftrightarrow>
     (\<exists>l. parse_lock_headers (e_crates E) hs = Inr (Some l) \<and> lock = Some l) \<or>
     (parse_lock_headers (e_crates E) hs = Inr None \<and>
      (\<exists>w w'. (default_lock_for_bucket E (bc_object_lock cfg) w :: (s3_error, object_lock option) outcome \<times> world) = (Ok lock, w')))"

lemma at_object_Inr [simp]: "at_object b k r = Inr a \<longleftrightarrow> r = Inr a"
  by (simp add: at_object_def split: sum.split)

lemma write_bytes_Ok:
  assumes "write_bytes E data w = (Ok res, w')"
  shows "pw_hash res = blake3 (e_crates E) data" "pw_md5 res = md5 (e_crates E) data"
    "pw_size res = length data mod u64_mod" "w_db w' = w_db w" "w_events w' = w_events w"
    "w_blobs w' = (if w_blobs w (blake3 (e_crates E) data) = None
       then (w_blobs w)(blake3 (e_crates E) data := Some data) else w_blobs w)"
  using assms by (auto simp: write_bytes_eq Let_def tick_def split: option.splits io_fault.splits if_splits)

lemma checksum_verify_Inr: "checksum_verify X c data = Inr u \<longleftrightarrow> checksum_compute X (ac_algorithm c) data = ac_value c"
  by (simp add: checksum_verify_def)

lemma checksum_step:
  "(case ac of None \<Rightarrow> ret () | Some c \<Rightarrow> lift (at_object b k (checksum_verify X c body))) w = (Ok u, w') \<longleftrightarrow>
     (\<forall>c. ac = Some c \<longrightarrow> checksum_compute X (ac_algorithm c) body = ac_value c) \<and> w' = w"
  by (auto simp: checksum_verify_Inr split: option.split)

lemma put_object_Ok:
  assumes "put_object E b k hs body w = (Ok r, w')"
  obtains cfg m vid lock now d1 freed w1 w2 where
    "tbl_get (buckets (w_db w)) b = Some cfg"
    "put_manifest_of E b k hs body vid lock now m"
    "bc_versioning cfg \<noteq> Enabled \<Longrightarrow> vid = null_version_id"
    "bc_versioning cfg = Enabled \<Longrightarrow> \<exists>n. vid = e_uuid E n"
    "\<exists>n. now = e_clock E n"
    "lock_chosen E hs cfg lock"
    "\<exists>t. handle_put_manifest (e_crates E) t (w_db w) m = Inr (freed, d1)"
    "w_db w1 = d1"
    "w_blobs w1 = (if w_blobs w (blake3 (e_crates E) body) = None
       then (w_blobs w)(blake3 (e_crates E) body := Some body) else w_blobs w)"
    "w_events w1 = w_events w"
    "same_objects w1 w2"
    "w_db w' = w_db w2" "w_blobs w' = w_blobs w2" "w_events w' = w_events w2 @ [\<lparr>oe_type = ObjectCreatedPut, oe_bucket = b, oe_key = k,
       oe_size = m_size m, oe_etag = quoted_hex (e_crates E) (md5 (e_crates E) body),
       oe_version_id = (if bc_versioning cfg = Enabled then Some vid else None)\<rparr>]"
    "r = set_checksum_header (e_crates E) (m_additional_checksum m)
          (set_version_header (e_crates E) (bc_versioning cfg) vid
            (set_header (e_crates E) ''etag'' (quoted_hex (e_crates E) (md5 (e_crates E) body)) (empty_response 200)))"
proof -
  let ?X = "e_crates E"
  let ?m = "\<lambda>vid part tags ac lock now. \<lparr>m_key = new_key b k vid, m_state = Committed, m_kind = Object,
       m_upload_mode = SinglePut,
       m_parts = [\<lparr>pr_part_number = 1, pr_hash = pw_hash part, pr_md5 = pw_md5 part, pr_size = pw_size part\<rparr>],
       m_size = pw_size part, m_content_type = header_str ?X hs ''content-type'',
       m_user_metadata = extract_user_metadata ?X hs, m_tags = tags,
       m_additional_checksum = ac, m_storage_class = ''STANDARD'', m_object_lock = lock,
       m_created_at = now, m_last_modified = now, m_upload_id = None\<rparr>"
  from assms obtain cfg wa wb part wc vid wd tags hl lock we ac wf freed wg where
    a: "require_bucket E b w = (Ok cfg, wa)" "check_put_preconditions E b k hs wa = (Ok (), wb)"
      "parse_request_checksum ?X hs = Inr ac"
      "\<forall>c. ac = Some c \<longrightarrow> checksum_compute ?X (ac_algorithm c) body = ac_value c"
    and wr: "write_bytes E body wb = (Ok part, wc)"
    and v: "next_version_id E (bc_versioning cfg) wc = ((Ok vid, wd) :: (s3_error, string) outcome \<times> world)"
    and h: "parse_x_amz_tagging ?X hs = Inr tags" "parse_lock_headers ?X hs = Inr hl"
    and l: "(case hl of Some l \<Rightarrow> ret (Some l) | None \<Rightarrow> default_lock_for_bucket E (bc_object_lock cfg)) wd =
        ((Ok lock, we) :: (s3_error, object_lock option) outcome \<times> world)"
    and put: "put_manifest E (?m vid part tags ac lock (e_clock E (w_tick we))) (tick we) = (Ok freed, wf)"
    and gc: "gc_freed_parts E freed wf = ((Ok (), wg) :: (s3_error, unit) outcome \<times> world)"
    and fin: "w' = wg\<lparr>w_events := w_events wg @ [\<lparr>oe_type = ObjectCreatedPut, oe_bucket = b, oe_key = k,
       oe_size = pw_size part, oe_etag = quoted_hex ?X (pw_md5 part),
       oe_version_id = (if bc_versioning cfg = Enabled then Some vid else None)\<rparr>]\<rparr>"
      "r = set_checksum_header ?X ac (set_version_header ?X (bc_versioning cfg) vid
            (set_header ?X ''etag'' (quoted_hex ?X (pw_md5 part)) (empty_response 200)))"
    by (simp add: put_object_def Let_def bnd_Ok etag_def checksum_step, elim exE conjE)
      (rule that; (assumption | simp)?)
  let ?h = "blake3 ?X body" and ?now = "e_clock E (w_tick we)"
  let ?M = "?m vid part tags ac lock ?now"
  have cfg: "tbl_get (buckets (w_db w)) b = Some cfg" "wa = tick w"
    using a(1) by (auto simp: require_bucket_def bnd_Ok read_eqs read_result_Ok)
  have b: "w_db wb = w_db w" "w_blobs wb = w_blobs w" "w_events wb = w_events w"
    using quiet_Ok [OF quiet_preconditions a(2)] cfg(2) by simp_all
  note part = write_bytes_Ok [OF wr]
  have d: "w_db wd = w_db wc" "w_blobs wd = w_blobs wc" "w_events wd = w_events wc"
    using quiet_Ok [OF quiet_lookups(5) v] by simp_all
  have "quiet ((case hl of Some l \<Rightarrow> ret (Some l)
      | None \<Rightarrow> default_lock_for_bucket E (bc_object_lock cfg)) :: (s3_error, object_lock option) action)"
    by (auto split: option.split)
  from quiet_Ok [OF this l]
  have e: "w_db we = w_db wd" "w_blobs we = w_blobs wd" "w_events we = w_events wd"
    by simp_all
  obtain d1 where f: "handle_put_manifest ?X (e_clock E (w_tick (tick we))) (w_db w) ?M = Inr (freed, d1)"
      "wf = (tick (tick we))\<lparr>w_db := d1\<rparr>"
    using put by (auto simp: write_eqs write_result_Ok b d e part)
  have g: "same_objects wf wg" using gc_freed_parts_same [of wf E freed, where ?'e = s3_error] gc by simp
  show thesis
  proof (rule that [where m = ?M and vid = vid and lock = lock and now = ?now and ?w1.0 = wf and ?w2.0 = wg, OF cfg(1)])
    show "put_manifest_of E b k hs body vid lock ?now ?M"
      using a(3,4) h(1) by (simp add: put_manifest_of_def part)
    show "bc_versioning cfg \<noteq> Enabled \<Longrightarrow> vid = null_version_id" "bc_versioning cfg = Enabled \<Longrightarrow> \<exists>n. vid = e_uuid E n"
      using v by (auto simp: next_version_id_def split: versioning_state.splits)
    show "lock_chosen E hs cfg lock" using h(2) l by (cases hl) (auto simp: lock_chosen_def)
    show "\<exists>t. handle_put_manifest ?X t (w_db w) ?M = Inr (freed, d1)" using f(1) by blast
    show "same_objects wf wg" by (rule g)
    show "w_blobs wf = (if w_blobs w ?h = None then (w_blobs w)(?h := Some body) else w_blobs w)"
      by (simp add: f(2) e d part b)
  qed (auto simp: f(2) e d part b fin)
qed

subsection \<open>Decimal numbers\<close>

lemma digit_char:
  assumes "n < 10"
  shows "is_digit (char_of (48 + n))" "digit_value (char_of (48 + n)) = n" "char_of (48 + n) \<noteq> CHR ''+''"
    "char_of (48 + n) \<noteq> CHR ''-''" "char_of (48 + n) \<noteq> CHR '',''"
proof -
  have v: "of_char (char_of (48 + n) :: char) = 48 + n" using assms by (simp add: of_char_of)
  show "is_digit (char_of (48 + n))" "digit_value (char_of (48 + n)) = n"
    using assms v by (simp_all add: is_digit_def digit_value_def)
  have other: "char_of (48 + n) \<noteq> c" if "of_char c < (48 :: nat)" for c :: char
    using that v by auto
  show "char_of (48 + n) \<noteq> CHR ''+''" by (rule other) simp
  show "char_of (48 + n) \<noteq> CHR ''-''" by (rule other) simp
  show "char_of (48 + n) \<noteq> CHR '',''" by (rule other) simp
qed

lemma show_nat_digits:
  "list_all is_digit (show_nat n) \<and> digits_value (show_nat n) = n \<and> show_nat n \<noteq> [] \<and>
   CHR ''+'' \<notin> set (show_nat n) \<and> CHR ''-'' \<notin> set (show_nat n) \<and> CHR '','' \<notin> set (show_nat n)"
proof (induction n rule: show_nat.induct)
  case (1 n)
  show ?case
  proof (cases "n < 10")
    case True
    then show ?thesis
      using digit_char [OF True] by (subst (1 2 3 4 5 6) show_nat.simps) (auto simp: digits_value_def)
  next
    case False
    have r: "n mod 10 < 10" by simp
    show ?thesis
      using 1 [OF False] digit_char [OF r] False
      by (subst (1 2 3 4 5 6) show_nat.simps) (auto simp: digits_value_def)
  qed
qed

lemma parse_unsigned_show_nat: "parse_unsigned bound (show_nat n) = (if n < bound then Some n else None)"
proof -
  obtain c cs where c: "show_nat n = c # cs" "c \<noteq> CHR ''+''"
    using show_nat_digits [of n] by (cases "show_nat n") auto
  then show ?thesis using show_nat_digits [of n] by (simp add: parse_unsigned_def Let_def not_less)
qed

subsection \<open>Byte ranges\<close>

lemma parse_range_header_bounds:
  "parse_range_header X hs n = Inr (Some (s, e)) \<Longrightarrow> s \<le> e \<and> e < n"
  by (auto simp: parse_range_header_def range_bounds_def bad_range_def Let_def
      split: option.splits prod.splits sum.splits if_splits)

lemma range_of_text:
  assumes "header_get hs ''range'' = Some raw" and "header_to_str X raw = Some (''bytes='' @ x @ ''-'' @ y)"
    and "CHR ''-'' \<notin> set x" and "CHR '','' \<notin> set x" and "CHR '','' \<notin> set y"
  shows "parse_range_header X hs n =
    (case range_bounds n x y of
       Inl e \<Rightarrow> Inl e
     | Inr None \<Rightarrow> Inr None
     | Inr (Some (start, e)) \<Rightarrow> (if n = 0 \<or> n - 1 < start \<or> e < start then Inr None else Inr (Some (start, e))))"
proof -
  have "split_once (CHR ''-'') (x @ ''-'' @ y) = Some (x, y)"
    using assms(3) by (auto simp: split_once_Some_iff)
  moreover have "strip_prefix ''bytes='' (''bytes='' @ x @ ''-'' @ y) = Some (x @ ''-'' @ y)"
    by (simp add: strip_prefix_def)
  ultimately show ?thesis using assms by (simp add: parse_range_header_def)
qed

text \<open>
  C21.  The three forms of a byte range: \<^verbatim>\<open>a-b\<close> is cut at the end of the object, \<^verbatim>\<open>a-\<close> runs to
  the end, \<^verbatim>\<open>-c\<close> is the last \<^verbatim>\<open>c\<close> bytes; a range outside the object is ignored.
\<close>

theorem range_header_forms:
  assumes "header_get hs ''range'' = Some raw" and "header_to_str X raw = Some text" and "a < u64_mod" and "b < u64_mod"
  shows "(text = ''bytes='' @ show_nat a @ ''-'' @ show_nat b \<longrightarrow>
        parse_range_header X hs n = Inr (if a < n \<and> a \<le> b then Some (a, min b (n - 1)) else None)) \<and>
    (text = ''bytes='' @ show_nat a @ ''-'' \<longrightarrow>
        parse_range_header X hs n = Inr (if a < n then Some (a, n - 1) else None)) \<and>
    (text = ''bytes=-'' @ show_nat b \<longrightarrow>
        parse_range_header X hs n = Inr (if 0 < b \<and> 0 < n then Some (n - b, n - 1) else None))"
proof (intro conjI impI)
  note da = show_nat_digits [of a] and db = show_nat_digits [of b]
  have pa: "parse_u64 (show_nat a) = Some a" "parse_u64 (show_nat b) = Some b"
    using assms(3,4) by (simp_all add: parse_u64_def parse_unsigned_show_nat)
  note range = range_of_text [OF assms(1), of X]
  show "parse_range_header X hs n = Inr (if a < n \<and> a \<le> b then Some (a, min b (n - 1)) else None)"
    if "text = ''bytes='' @ show_nat a @ ''-'' @ show_nat b"
    using range [of "show_nat a" "show_nat b" n] assms(2) da db pa that
    by (auto simp: range_bounds_def Let_def)
  show "parse_range_header X hs n = Inr (if a < n then Some (a, n - 1) else None)"
    if "text = ''bytes='' @ show_nat a @ ''-''"
    using range [of "show_nat a" "[]" n] assms(2) da pa that
    by (auto simp: range_bounds_def Let_def)
  show "parse_range_header X hs n = Inr (if 0 < b \<and> 0 < n then Some (n - b, n - 1) else None)"
    if "text = ''bytes=-'' @ show_nat b"
    using range [of "[]" "show_nat b" n] assms(2) db pa that
    by (auto simp: range_bounds_def Let_def)
qed

theorem range_header_forms_witness:
  "parse_range_header toy_crates [(''range'', ''bytes=1-4'')] 3 = Inr (Some (1, 2))"
proof -
  have "''bytes=1-4'' = ''bytes='' @ show_nat 1 @ ''-'' @ show_nat 4" by (simp add: show_nat.simps char_of_def bit_0)
  then show ?thesis
    using range_header_forms [of "[(''range'', ''bytes=1-4'')]" "''bytes=1-4''" toy_crates "''bytes=1-4''" 1 4 3]
    by (simp add: header_get_def toy_crates_def)
qed

subsection \<open>GET\<close>

definition faultless :: "env \<Rightarrow> bool" where
  "faultless E \<longleftrightarrow> (\<forall>n. e_meta_fault E n = None \<and> e_io_fault E n = None)"

lemma faultless_read: "faultless E \<Longrightarrow> read_result E w v = (Ok v, tick w)"
  by (simp add: read_result_def faultless_def)

definition holds_bytes :: "world \<Rightarrow> part_ref \<Rightarrow> bytes \<Rightarrow> bool" where
  "holds_bytes w p d \<longleftrightarrow> w_blobs w (pr_hash p) = Some d"

lemma read_parts_Ok:
  assumes "faultless E" and "list_all2 (holds_bytes w) ps ds"
  shows "\<exists>n. read_all_parts E ps w = (Ok (concat ds), w\<lparr>w_tick := n\<rparr>)"
proof -
  let ?step = "\<lambda>p buf. bnd (map_err read_err (read_part E (pr_hash p))) (\<lambda>data. ret (buf @ data)) :: bytes handler"
  have "\<exists>n. for_each ?step ps buf w = (Ok (buf @ concat ds), w\<lparr>w_tick := n\<rparr>)" if "list_all2 (holds_bytes w) ps ds" for w buf
    using that
  proof (induction ps arbitrary: ds buf w)
    case Nil
    then show ?case by (auto simp: ret_def intro: exI [of _ "w_tick w"])
  next
    case (Cons p ps)
    then obtain d ds' where ds: "ds = d # ds'" "holds_bytes w p d" "list_all2 (holds_bytes w) ps ds'"
      by (auto simp: list_all2_Cons1)
    have "?step p buf w = (Ok (buf @ d), tick w)"
      using ds(2) assms(1)
      by (simp add: bnd_def map_err_def catch_def read_part_def ret_def faultless_def holds_bytes_def)
    moreover have "list_all2 (holds_bytes (tick w)) ps ds'" using ds(3) by (simp add: holds_bytes_def [abs_def])
    then obtain n where "for_each ?step ps (buf @ d) (tick w) = (Ok ((buf @ d) @ concat ds'), (tick w)\<lparr>w_tick := n\<rparr>)"
      using Cons.IH by blast
    ultimately show ?case by (auto simp: ds(1) tick_def bnd_def [of "?step p buf"])
  qed
  from this [OF assms(2), of "[]"] show ?thesis by (simp add: read_all_parts_def)
qed

lemma object_headers_sel [simp]:
  "rs_status (object_headers X m tag rng r) = rs_status r" "rs_body (object_headers X m tag rng r) = rs_body r"
proof -
  have "rs_status (foldl (\<lambda>r e. set_header X (''x-amz-meta-'' @ fst e) (snd e) r) r es) = rs_status r \<and>
      rs_body (foldl (\<lambda>r e. set_header X (''x-amz-meta-'' @ fst e) (snd e) r) r es) = rs_body r" for es r
    by (induction es arbitrary: r) simp_all
  then show "rs_status (object_headers X m tag rng r) = rs_status r" "rs_body (object_headers X m tag rng r) = rs_body r"
    by (simp_all add: object_headers_def set_checksum_header_def Let_def split: option.split prod.split)
qed

text \<open>What a GET of the named, or of the latest, version finds.\<close>

definition version_found :: "db \<Rightarrow> string \<Rightarrow> string \<Rightarrow> string option \<Rightarrow> manifest option" where
  "version_found d b k v =
     (case v of Some vid \<Rightarrow> tbl_get (objects d) (encode (new_key b k vid)) | None \<Rightarrow> latest_in d b k)"

lemma get_object_body:
  assumes ff: "faultless E" and bucket: "tbl_get (buckets (w_db w)) b = Some cfg"
    and found: "version_found (w_db w) b k v = Some m" "m_state m = Committed" "m_kind m = Object"
    and parts: "list_all2 (holds_bytes w) (m_parts m) ds" "m_size m = length (concat ds)"
    and tag: "etag (e_crates E) m = Some tag"
    and pre: "evaluate_preconditions (e_crates E) hs tag (m_last_modified m) b k = None"
    and range: "parse_range_header (e_crates E) hs (m_size m) = Inr rng"
  shows "\<exists>resp n. get_or_head_object E b k v hs False w = (Ok resp, w\<lparr>w_tick := n\<rparr>) \<and>
    rs_status resp = (if rng = None then 200 else 206) \<and>
    rs_body resp = BodyBytes (case rng of None \<Rightarrow> concat ds | Some (s, e) \<Rightarrow> take (e - s + 1) (drop s (concat ds)))"
proof -
  have find: "find_version E b k v (tick w) = (Ok m, tick (tick w))"
    using found ff
    by (auto simp: find_version_def version_found_def bnd_def meta_def map_err_def catch_def read_eqs
        get_latest_version_eq faultless_read ret_def ok_or_def filter_option_def split: option.splits)
  have "list_all2 (holds_bytes (tick (tick w))) (m_parts m) ds" using parts(1) by (simp add: holds_bytes_def [abs_def])
  then obtain n where read: "read_all_parts E (m_parts m) (tick (tick w)) = (Ok (concat ds), (tick (tick w))\<lparr>w_tick := n\<rparr>)"
    using read_parts_Ok [OF ff] by blast
  have slice: "slice s (e + 1) (concat ds) = Some (take (e - s + 1) (drop s (concat ds)))" if "rng = Some (s, e)" for s e
  proof -
    have "s \<le> e" "e < length (concat ds)"
      using parse_range_header_bounds [of "e_crates E" hs "m_size m" s e] range that parts(2) by auto
    then show ?thesis by (simp add: slice_def Suc_diff_le)
  qed
  show ?thesis
  proof (cases rng)
    case None
    then show ?thesis
      using find read pre range tag found(3)
      by (auto simp: get_or_head_object_def Let_def require_bucket_def bnd_def meta_def map_err_def catch_def read_eqs
          faultless_read [OF ff] bucket ret_def ok_or_def unwrap_def lift_def tick_def)
  next
    case (Some r)
    obtain s e where se: "r = (s, e)" by fastforce
    show ?thesis
      using find read pre range tag found(3) Some slice [of s e]
      by (auto simp: se get_or_head_object_def Let_def require_bucket_def bnd_def meta_def map_err_def catch_def read_eqs
          faultless_read [OF ff] bucket ret_def ok_or_def unwrap_def lift_def tick_def)
  qed
qed

text \<open>
  C2.  A GET that finds a committed object whose part files are there returns exactly its
  bytes, or exactly the requested range of them with status 206; it neither fails nor panics,
  and changes nothing.
\<close>

theorem get_returns_bytes:
  assumes "faultless E" and "tbl_get (buckets (w_db w)) b = Some cfg"
    and "version_found (w_db w) b k v = Some m" "m_state m = Committed" "m_kind m = Object"
    and "list_all2 (holds_bytes w) (m_parts m) ds" "m_size m = length (concat ds)"
    and "etag (e_crates E) m = Some tag"
    and "evaluate_preconditions (e_crates E) hs tag (m_last_modified m) b k = None"
    and "parse_range_header (e_crates E) hs (m_size m) = Inr rng"
  shows "\<exists>resp n. get_or_head_object E b k v hs False w = (Ok resp, w\<lparr>w_tick := n\<rparr>) \<and>
    rs_status resp = (if rng = None then 200 else 206) \<and>
    rs_body resp = BodyBytes (case rng of None \<Rightarrow> concat ds | Some (s, e) \<Rightarrow> take (e - s + 1) (drop s (concat ds))) \<and>
    (\<forall>s e. rng = Some (s, e) \<longrightarrow> length (take (e - s + 1) (drop s (concat ds))) = e - s + 1)"
proof -
  have "length (take (e - s + 1) (drop s (concat ds))) = e - s + 1" if "rng = Some (s, e)" for s e
    using parse_range_header_bounds [of "e_crates E" hs "m_size m" s e] assms(7,10) that by auto
  then show ?thesis using get_object_body [OF assms] by blast
qed

lemma toy_faultless: "faultless toy_env"
  by (simp add: faultless_def toy_env_def)

lemma toy_stored_lookups:
  "tbl_get (buckets (w_db toy_stored)) ''bkt'' = Some (toy_bucket Off)"
  "version_found (w_db toy_stored) ''bkt'' ''k'' (Some ''null'') = Some (toy_object ''null'' ''hi'' None 4)"
  "list_all2 (holds_bytes toy_stored) (m_parts (toy_object ''null'' ''hi'' None 4)) [''hi'']"
  by (simp_all add: toy_stored_def toy_world_def tbl_get_def version_found_def toy_object_def holds_bytes_def)

lemma toy_crates_sel [simp]: "e_crates toy_env = toy_crates"
  by (simp add: toy_env_def)

theorem get_returns_bytes_witness:
  "\<exists>resp n. get_or_head_object toy_env ''bkt'' ''k'' (Some ''null'') [(''range'', ''bytes=1-4'')] False toy_stored =
      (Ok resp, toy_stored\<lparr>w_tick := n\<rparr>) \<and> rs_status resp = 206 \<and> rs_body resp = BodyBytes ''i''"
proof -
  let ?hs = "[(''range'', ''bytes=1-4'')]" and ?m = "toy_object ''null'' ''hi'' None 4"
  have "''bytes=1-4'' = ''bytes='' @ show_nat 1 @ ''-'' @ show_nat 4"
    by (simp add: show_nat.simps char_of_def bit_0)
  then have range: "parse_range_header toy_crates ?hs 2 = Inr (Some (1, 1))"
    using range_of_text [of ?hs "''bytes=1-4''" toy_crates "show_nat 1" "show_nat 4" 2]
      show_nat_digits [of 1] show_nat_digits [of 4]
    by (simp add: header_get_def toy_crates_def range_bounds_def Let_def parse_u64_def parse_unsigned_show_nat)
  have pre: "evaluate_preconditions toy_crates ?hs t l b k = None" for t l b k
    by (simp add: evaluate_preconditions_def header_str_def header_date_def header_get_def)
  have m: "m_state ?m = Committed" "m_kind ?m = Object" "m_size ?m = length (concat [''hi''])" "m_size ?m = 2"
    "etag toy_crates ?m = Some (quoted_hex toy_crates ''hi'')"
    by (simp_all add: toy_object_def etag_def)
  from get_returns_bytes [OF toy_faultless toy_stored_lookups(1,2) m(1,2) toy_stored_lookups(3) m(3)
      m(5) [folded toy_crates_sel] pre [folded toy_crates_sel] range [folded m(4) toy_crates_sel]]
  show ?thesis by simp
qed

subsection \<open>PUT, then GET\<close>

lemma put_object_effect:
  assumes "put_object E b k hs body w = (Ok r, w')"
  obtains cfg m vid lock now where
    "tbl_get (buckets (w_db w)) b = Some cfg"
    "put_manifest_of E b k hs body vid lock now m"
    "if bc_versioning cfg = Enabled then \<exists>n. vid = e_uuid E n else vid = null_version_id"
    "\<exists>n. now = e_clock E n"
    "lock_chosen E hs cfg lock"
    "objects (w_db w') = tbl_insert (objects (w_db w)) (encode (new_key b k vid)) m"
    "buckets (w_db w') = buckets (w_db w)"
    "\<forall>h d. w_blobs w' h = Some d \<longrightarrow> w_blobs w h = Some d \<or> (h = blake3 (e_crates E) body \<and> w_blobs w h = None \<and> d = body)"
    "\<exists>ev. w_events w' = w_events w @ [ev] \<and> oe_type ev = ObjectCreatedPut \<and> oe_bucket ev = b \<and> oe_key ev = k \<and> oe_size ev = m_size m"
    "rs_status r = 200"
proof -
  from assms show thesis
  proof (rule put_object_Ok)
    fix cfg m vid lock now d1 freed w1 w2
    assume cfg: "tbl_get (buckets (w_db w)) b = Some cfg"
      and m: "put_manifest_of E b k hs body vid lock now m"
      and v: "bc_versioning cfg \<noteq> Enabled \<Longrightarrow> vid = null_version_id" "bc_versioning cfg = Enabled \<Longrightarrow> \<exists>n. vid = e_uuid E n"
      and now: "\<exists>n. now = e_clock E n"
      and lock: "lock_chosen E hs cfg lock"
      and put: "\<exists>t. handle_put_manifest (e_crates E) t (w_db w) m = Inr (freed, d1)"
      and w1: "w_db w1 = d1" "w_blobs w1 = (if w_blobs w (blake3 (e_crates E) body) = None
           then (w_blobs w)(blake3 (e_crates E) body := Some body) else w_blobs w)" "w_events w1 = w_events w"
      and gc: "same_objects w1 w2"
      and w2: "w_db w' = w_db w2" "w_blobs w' = w_blobs w2" "w_events w' = w_events w2 @ [\<lparr>oe_type = ObjectCreatedPut, oe_bucket = b, oe_key = k,
           oe_size = m_size m, oe_etag = quoted_hex (e_crates E) (md5 (e_crates E) body),
           oe_version_id = (if bc_versioning cfg = Enabled then Some vid else None)\<rparr>]"
      and r: "r = set_checksum_header (e_crates E) (m_additional_checksum m)
          (set_version_header (e_crates E) (bc_versioning cfg) vid
            (set_header (e_crates E) ''etag'' (quoted_hex (e_crates E) (md5 (e_crates E) body)) (empty_response 200)))"
    have key: "m_key m = new_key b k vid" using m by (simp add: put_manifest_of_def)
    have d1: "objects d1 = tbl_insert (objects (w_db w)) (encode (new_key b k vid)) m" "buckets d1 = buckets (w_db w)"
      using put key by (auto elim: put_manifest_cases)
    show thesis
    proof (rule that [OF cfg m _ now lock])
      show "if bc_versioning cfg = Enabled then \<exists>n. vid = e_uuid E n else vid = null_version_id" using v by simp
      show "objects (w_db w') = tbl_insert (objects (w_db w)) (encode (new_key b k vid)) m"
        "buckets (w_db w') = buckets (w_db w)"
        using d1 gc by (simp_all add: w2 same_objects_def w1)
      show "\<forall>h d. w_blobs w' h = Some d \<longrightarrow> w_blobs w h = Some d \<or> (h = blake3 (e_crates E) body \<and> w_blobs w h = None \<and> d = body)"
        using gc by (auto simp: w2 same_objects_def w1 split: if_splits)
      show "rs_status r = 200"
        by (simp add: r set_checksum_header_def set_version_header_def empty_response_def split: option.split)
    qed (use gc in \<open>auto simp: w2 same_objects_def w1\<close>)
  qed
qed

lemma latest_is_newest:
  assumes inv: "db_ok d" "keys_ok d" and nf: "nul \<notin> set b" "nul \<notin> set k"
    and m: "tbl_get (objects d) kb = Some m" "committed_at b k m"
    and newest: "\<And>kb' m'. tbl_get (objects d) kb' = Some m' \<Longrightarrow> committed_at b k m' \<Longrightarrow> m' \<noteq> m \<Longrightarrow>
      m_last_modified m' < m_last_modified m"
  shows "latest_in d b k = Some m"
proof -
  have "latest_in d b k = latest_of (versions_of d b k)"
    using get_latest_version_spec [OF inv nf] by (simp add: latest_in_def)
  moreover have mem: "m \<in> set (versions_of d b k)" using m by (auto simp: in_versions_of [OF inv(1)])
  moreover obtain m' where m': "latest_of (versions_of d b k) = Some m'"
    using mem latest_of_None [of "versions_of d b k"] by (cases "latest_of (versions_of d b k)") auto
  moreover have "m' = m"
    using latest_of_Some [OF m'] mem newest by (fastforce simp: in_versions_of [OF inv(1)])
  ultimately show ?thesis by simp
qed

text \<open>
  C1.  Read your write: after a successful PUT, a GET of the new version, and a GET without
  a version id when the stored versions of the key are older than the clock, returns status
  200 and exactly the bytes that were put.  (The file name is a hash: a different content
  already stored under the same name would be kept, so the property needs its absence.)
\<close>

theorem put_then_get:
  assumes "server_inv E w" "roomy (w_db w)" and nf: "nul \<notin> set b" "nul \<notin> set k" and ff: "faultless E"
    and put: "put_object E b k hs body w = (Ok r, w')"
    and no_collision: "w_blobs w (blake3 (e_crates E) body) \<in> {None, Some body}"
    and len: "length body < u64_mod"
    and older: "\<forall>kb m n. tbl_get (objects (w_db w)) kb = Some m \<longrightarrow> committed_at b k m \<longrightarrow> m_last_modified m < e_clock E n"
  shows "\<exists>vid. \<forall>v\<in>{None, Some vid}. \<exists>resp n. get_or_head_object E b k v [] False w' = (Ok resp, w'\<lparr>w_tick := n\<rparr>) \<and>
    rs_status resp = 200 \<and> rs_body resp = BodyBytes body"
proof -
  let ?X = "e_crates E" and ?h = "blake3 (e_crates E) body"
  from put obtain cfg m vid lock now where cfg: "tbl_get (buckets (w_db w)) b = Some cfg"
    and m: "put_manifest_of E b k hs body vid lock now m" and now: "\<exists>n. now = e_clock E n"
    and objs: "objects (w_db w') = tbl_insert (objects (w_db w)) (encode (new_key b k vid)) m"
    and bs: "buckets (w_db w') = buckets (w_db w)"
    and blobs: "\<forall>h d. w_blobs w' h = Some d \<longrightarrow> w_blobs w h = Some d \<or> (h = ?h \<and> w_blobs w h = None \<and> d = body)"
    by (rule put_object_effect) blast
  have inv': "server_inv E w'"
    using triple_snd [OF put_object_server [OF nf], of E w hs body] assms(1,2) put by simp
  then have db: "db_ok (w_db w')" "keys_ok (w_db w')" by (auto simp: server_inv_def world_inv_def dest: store_inv_D)
  have mk: "m_key m = new_key b k vid" "m_state m = Committed" "m_kind m = Object" "m_last_modified m = now"
    "m_parts m = [\<lparr>pr_part_number = 1, pr_hash = ?h, pr_md5 = md5 ?X body, pr_size = length body\<rparr>]" "m_size m = length body"
    "m_upload_mode m = SinglePut"
    using m len by (auto simp: put_manifest_of_def)
  have row: "tbl_get (objects (w_db w')) (encode (new_key b k vid)) = Some m" by (simp add: objs)
  have "stored (w_db w') m" using row by (auto simp: stored_def)
  then have "0 < refs (w_db w') ?h"
    using refs_0_iff [of "w_db w'" ?h] db(1) mk(5) by (fastforce simp: stored_def db_ok_def part_hashes_def)
  then obtain d where "w_blobs w' ?h = Some d" using inv' by (auto simp: server_inv_def world_inv_def)
  then have "w_blobs w' ?h = Some body" using blobs no_collision by fastforce
  then have files: "list_all2 (holds_bytes w') (m_parts m) [body]" by (simp add: mk holds_bytes_def)
  have at: "committed_at b k m" by (simp add: committed_at_def mk new_key_def)
  have "m_last_modified m' < m_last_modified m"
    if "tbl_get (objects (w_db w')) kb' = Some m'" "committed_at b k m'" "m' \<noteq> m" for kb' m'
    using that older now by (auto simp: objs mk split: if_splits)
  then have latest: "latest_in (w_db w') b k = Some m" using latest_is_newest [OF db nf row at] by blast
  have pre: "evaluate_preconditions ?X [] t l b k = None" for t l
    by (simp add: evaluate_preconditions_def header_str_def header_date_def header_get_def)
  have range: "parse_range_header ?X [] (m_size m) = Inr None" by (simp add: parse_range_header_def header_get_def)
  have tag: "etag ?X m = Some (quoted_hex ?X (md5 ?X body))" by (simp add: etag_def mk)
  have cfg': "tbl_get (buckets (w_db w')) b = Some cfg" by (simp add: bs cfg)
  have size: "m_size m = length (concat [body])" by (simp add: mk)
  note get = get_object_body [OF ff cfg' _ mk(2,3) files size tag pre range]
  have "\<exists>resp n. get_or_head_object E b k v [] False w' = (Ok resp, w'\<lparr>w_tick := n\<rparr>) \<and>
      rs_status resp = 200 \<and> rs_body resp = BodyBytes body" if "v \<in> {None, Some vid}" for v
    using get [of v] that latest row by (auto simp: version_found_def)
  then show ?thesis by blast
qed

theorem put_then_get_witness:
  "\<exists>vid. \<forall>v\<in>{None, Some vid}. \<exists>resp n. get_or_head_object toy_env ''bkt'' ''k'' v [] False toy_stored =
      (Ok resp, toy_stored\<lparr>w_tick := n\<rparr>) \<and> rs_status resp = 200 \<and> rs_body resp = BodyBytes ''hi''"
proof -
  obtain r where put: "put_object toy_env ''bkt'' ''k'' [] ''hi'' toy_start = (Ok r, toy_stored)" using toy_put by blast
  show ?thesis
    by (rule put_then_get [OF toy_inv(1) toy_roomy [OF toy_start_objects] _ _ toy_faultless put])
      (simp_all add: toy_start_def toy_world_def)
qed

text \<open>
  C10.  In a bucket with versioning enabled a PUT never touches a stored version: every
  manifest that was there is still there, unchanged.
\<close>

theorem versioned_put_keeps_versions:
  assumes "put_object E b k hs body w = (Ok r, w')"
    and "tbl_get (buckets (w_db w)) b = Some cfg" "bc_versioning cfg = Enabled"
    and fresh: "\<forall>n. tbl_get (objects (w_db w)) (encode (new_key b k (e_uuid E n))) = None"
    and "tbl_get (objects (w_db w)) kb = Some m"
  shows "tbl_get (objects (w_db w')) kb = Some m"
proof -
  from assms(1) obtain cfg' m' vid lock now where c: "tbl_get (buckets (w_db w)) b = Some cfg'"
    and v: "if bc_versioning cfg' = Enabled then \<exists>n. vid = e_uuid E n else vid = null_version_id"
    and objs: "objects (w_db w') = tbl_insert (objects (w_db w)) (encode (new_key b k vid)) m'"
    by (rule put_object_effect) blast
  have "\<exists>n. vid = e_uuid E n" using v c assms(2,3) by simp
  then have "kb \<noteq> encode (new_key b k vid)" using fresh assms(5) by auto
  then show ?thesis using assms(5) by (simp add: objs)
qed

definition toy_versioned :: world where
  "toy_versioned = toy_world [(''bkt'', toy_bucket Enabled)] [toy_object ''v'' ''hi'' None 0] [(''hi'', toy_row 1 2 0)] [] 0"

lemma toy_versioned_put: "\<exists>r w'. put_object toy_env ''bkt'' ''k'' [] ''ho'' toy_versioned = (Ok r, w')"
  by (simp add: put_eval toy_versioned_def toy_defs encode_def new_key_def less_char_def)

theorem versioned_put_keeps_versions_witness:
  "\<exists>r w'. put_object toy_env ''bkt'' ''k'' [] ''ho'' toy_versioned = (Ok r, w') \<and>
     tbl_get (objects (w_db w')) (encode (new_key ''bkt'' ''k'' ''v'')) = Some (toy_object ''v'' ''hi'' None 0)"
proof -
  obtain r w' where put: "put_object toy_env ''bkt'' ''k'' [] ''ho'' toy_versioned = (Ok r, w')"
    using toy_versioned_put by blast
  have "tbl_get (objects (w_db w')) (encode (new_key ''bkt'' ''k'' ''v'')) = Some (toy_object ''v'' ''hi'' None 0)"
    by (rule versioned_put_keeps_versions [OF put, of "toy_bucket Enabled"])
      (simp_all add: toy_versioned_def toy_defs tbl_get_def encode_def new_key_def)
  then show ?thesis using put by blast
qed

end
