(* ===== verification/LockProps.thy ===== *)
theory LockProps
  imports PutGet
begin

text \<open>
  Object Lock: what is protected (deleting a locked version, shortening a retention) and what is
  not (replacing the null version by a PUT, or by a DELETE while versioning is suspended).
\<close>

text \<open>A lock that forbids deletion whenever the clock is read.\<close>

definition always_locked :: "env \<Rightarrow> manifest \<Rightarrow> bool" where
  "always_locked E m \<longleftrightarrow> (\<exists>l. m_object_lock m = Some l \<and> (\<forall>n. forbids_delete l (e_clock E n)))"

subsection \<open>Deletion\<close>

lemma same_but_tick: "quiet m \<Longrightarrow> \<exists>n. snd (m w) = w\<lparr>w_tick := n\<rparr>"
  by (simp add: quiet_def)

lemma locked_now_locked:
  "always_locked E m \<Longrightarrow> locked_now E (Some m) w = (Ok True, tick w)"
  by (auto simp: always_locked_def locked_now_def bnd_def now_utc_def ret_def)

lemma delete_specific_locked:
  assumes "tbl_get (objects (w_db w)) (encode (new_key b k vid)) = Some m" and "always_locked E m"
  shows "\<exists>e n. delete_specific_version E b k vid w = (Err e, w\<lparr>w_tick := n\<rparr>)"
  using assms(1)
  by (auto simp: locked_now_locked [OF assms(2)] tick_def delete_specific_version_def Let_def bnd_def meta_def map_err_def catch_def read_eqs
      read_result_def fail_def ret_def fail_if_def split: option.split)

text \<open>
  C8.  A locked version cannot be deleted: a DELETE that names it, or an unversioned DELETE
  in a bucket without versioning, fails and leaves metadata, files and events as they were,
  whatever else goes wrong.
\<close>

theorem locked_version_not_deleted:
  assumes "tbl_get (objects (w_db w)) (encode (new_key b k vid)) = Some m" and "always_locked E m"
    and "v = Some vid \<or> (v = None \<and> vid = null_version_id \<and>
           (\<forall>cfg. tbl_get (buckets (w_db w)) b = Some cfg \<longrightarrow> bc_versioning cfg = Off))"
  shows "\<exists>e n. delete_object E b k v w = (Err e, w\<lparr>w_tick := n\<rparr>)"
proof -
  have tick1: "\<exists>e n. delete_specific_version E b k vid (tick w) = (Err e, w\<lparr>w_tick := n\<rparr>)"
    using delete_specific_locked [of "tick w" b k vid m E] assms(1,2) by (simp add: tick_def)
  show ?thesis
  proof (cases v)
    case (Some u)
    then have "u = vid" using assms(3) by simp
    then show ?thesis
      using tick1
      by (auto simp: tick_def Some delete_object_def Let_def bnd_def require_bucket_def meta_def map_err_def catch_def
          read_eqs read_result_def fail_def ret_def ok_or_def split: option.split)
  next
    case None
    then show ?thesis
      using assms
      by (auto simp: locked_now_locked [OF assms(2)] tick_def delete_object_def Let_def bnd_def require_bucket_def meta_def map_err_def catch_def
          read_eqs read_result_def fail_def ret_def ok_or_def fail_if_def split: option.split)
  qed
qed

definition toy_hold :: object_lock where
  "toy_hold = \<lparr>ol_retention = None, ol_legal_hold = True\<rparr>"

definition toy_locked :: world where
  "toy_locked = toy_world [(''bkt'', toy_bucket Off)] [toy_object ''null'' ''hi'' (Some toy_hold) 0] [(''hi'', toy_row 1 2 0)] [] 0"

lemma toy_locked_row:
  "tbl_get (objects (w_db toy_locked)) (encode (new_key ''bkt'' ''k'' ''null'')) = Some (toy_object ''null'' ''hi'' (Some toy_hold) 0)"
  "always_locked E (toy_object ''null'' ''hi'' (Some toy_hold) 0)"
  "tbl_get (buckets (w_db toy_locked)) ''bkt'' = Some (toy_bucket Off)"
  by (simp_all add: toy_locked_def toy_world_def tbl_get_def toy_object_def always_locked_def toy_hold_def forbids_delete_def)

theorem locked_version_not_deleted_witness:
  "\<exists>e n. delete_object toy_env ''bkt'' ''k'' None toy_locked = (Err e, toy_locked\<lparr>w_tick := n\<rparr>)"
  by (rule locked_version_not_deleted [OF toy_locked_row(1,2)])
    (simp add: toy_locked_row(3) null_version_id_def toy_bucket_def)

subsection \<open>Retention\<close>

text \<open>The retention deadline of a stored manifest, if it has one.\<close>

definition deadline :: "manifest \<Rightarrow> timestamp option" where
  "deadline m = (case m_object_lock m of Some l \<Rightarrow> map_option retain_until (ol_retention l) | None \<Rightarrow> None)"

definition hold :: "manifest \<Rightarrow> bool" where
  "hold m \<longleftrightarrow> (case m_object_lock m of Some l \<Rightarrow> ol_legal_hold l | None \<Rightarrow> False)"

lemma stored_own_key: "stored d m \<Longrightarrow> keys_ok d \<Longrightarrow> tbl_get (objects d) (encode (m_key m)) = Some m"
  by (auto simp: stored_def keys_ok_def)

lemma require_object_Ok:
  assumes "require_object_with_version E b k v w = (Ok m, w')" and "db_ok (w_db w)" and "keys_ok (w_db w)"
  shows "tbl_get (objects (w_db w)) (encode (m_key m)) = Some m" "w_db w' = w_db w"
proof -
  have "stored (w_db w) m \<and> w_db w' = w_db w"
    using assms(1) latest_in_stored(1) [OF _ assms(2)]
    by (auto simp: require_object_with_version_def bnd_Ok read_eqs get_latest_version_eq read_result_Ok
        filter_option_def stored_def split: option.splits if_splits)
  then show "tbl_get (objects (w_db w)) (encode (m_key m)) = Some m" "w_db w' = w_db w"
    using stored_own_key [OF _ assms(3)] by blast+
qed

lemma update_lock_rows:
  assumes "tbl_get (objects (w_db w)) (encode (m_key m)) = Some m"
    and "tbl_get (objects (w_db w)) kb = Some m0"
  shows "tbl_get (objects (w_db (snd (update_manifest_lock E (m_key m) l w)))) kb = Some m0 \<or>
    (m0 = m \<and> tbl_get (objects (w_db (snd (update_manifest_lock E (m_key m) l w)))) kb = Some (m\<lparr>m_object_lock := l\<rparr>))"
  using assms by (auto simp: write_eqs write_result_def handle_update_manifest_lock_def Let_def split: option.splits)

lemma bnd_cases:
  "snd (bnd m f w) = snd (m w) \<or> (\<exists>a w1. m w = (Ok a, w1) \<and> snd (bnd m f w) = snd (f a w1))"
  by (auto simp: bnd_def split: prod.split outcome.split)

lemma meta_snd [simp]: "snd (meta E m w) = snd (m w)"
  by (auto simp: meta_def map_err_def catch_def ret_def fail_def split: prod.split outcome.split)

lemma snd_bnd_ret [simp]: "snd (bnd m (\<lambda>_. ret c) w) = snd (m w)"
  by (auto simp: bnd_def ret_def split: prod.split outcome.split)

text \<open>
  Both handlers end in one lock update of the row they looked up; whether it happens, and
  with which lock, is up to the handler.
\<close>

lemma lock_update_effect:
  assumes m: "require_object_with_version E b k v w = (Ok m, w1)" and inv: "server_inv E w"
    and row: "tbl_get (objects (w_db w)) kb = Some m0"
  shows "tbl_get (objects (w_db (snd (bnd (meta E (update_manifest_lock E (m_key m) l)) (\<lambda>_. ret c) w1)))) kb = Some m0 \<or>
    (m0 = m \<and> tbl_get (objects (w_db (snd (bnd (meta E (update_manifest_lock E (m_key m) l)) (\<lambda>_. ret c) w1)))) kb =
       Some (m\<lparr>m_object_lock := l\<rparr>))"
proof -
  have "db_ok (w_db w)" "keys_ok (w_db w)" using inv by (auto simp: server_inv_def world_inv_def dest: store_inv_D)
  note found = require_object_Ok [OF m this]
  show ?thesis using update_lock_rows [of w1 m kb m0 E l] found row by simp
qed

lemma retention_row:
  assumes inv: "server_inv E w" and row: "tbl_get (objects (w_db w)) kb = Some m0"
    and w': "w' = snd (put_object_retention E b k v body w)"
  shows "tbl_get (objects (w_db w')) kb = Some m0 \<or>
    (\<exists>md t. tbl_get (objects (w_db w')) kb =
        Some (m0\<lparr>m_object_lock := Some \<lparr>ol_retention = Some \<lparr>ret_mode = md, retain_until = t\<rparr>, ol_legal_hold = hold m0\<rparr>\<rparr>) \<and>
      (\<forall>t0. deadline m0 = Some t0 \<longrightarrow> t0 \<le> t))"
proof (cases "parse_retention_xml (e_crates E) body")
  case (Inr xml)
  let ?X = "e_crates E"
  show ?thesis
  proof (cases "\<exists>md t. parse_mode (Some (rx_mode xml)) = Inr md \<and> parse_rfc3339 ?X (rx_retain_until_date xml) = Some t")
    case True
    then obtain md t where parsed: "parse_mode (Some (rx_mode xml)) = Inr md" "parse_rfc3339 ?X (rx_retain_until_date xml) = Some t"
      by blast
    obtain r w1 where req: "require_object_with_version E b k v w = (r, w1)" by fastforce
    show ?thesis
    proof (cases r)
      case (Ok m)
      note eff = lock_update_effect [OF req [unfolded Ok] inv row]
      have same: "tbl_get (objects (w_db w1)) kb = Some m0"
        using quiet_Ok(1) [OF quiet_lookups(4) req] row by simp
      show ?thesis
        using eff same
        by (fastforce simp: w' put_object_retention_def Inr parsed bnd_def [of "require_object_with_version E b k v"] req Ok
            fail_def deadline_def hold_def not_less split: option.splits)
    qed (use quiet_Ok(1) [OF quiet_lookups(4) req] row in
        \<open>simp_all add: w' put_object_retention_def Inr parsed bnd_def [of "require_object_with_version E b k v"] req\<close>)
  next
    case False
    then show ?thesis
      using row by (auto simp: w' put_object_retention_def Inr lift_def ok_or_def fail_def bnd_def ret_def
          split: sum.split option.split)
  qed
qed (use row in \<open>simp add: w' put_object_retention_def fail_def\<close>)

lemma legal_hold_row:
  assumes inv: "server_inv E w" and row: "tbl_get (objects (w_db w)) kb = Some m0"
    and w': "w' = snd (put_object_legal_hold E b k v body w)"
  shows "tbl_get (objects (w_db w')) kb = Some m0 \<or>
    (\<exists>on. tbl_get (objects (w_db w')) kb =
        Some (m0\<lparr>m_object_lock := Some \<lparr>ol_retention = (case m_object_lock m0 of Some l \<Rightarrow> ol_retention l | None \<Rightarrow> None),
          ol_legal_hold = on\<rparr>\<rparr>))"
proof (cases "parse_legal_hold_xml (e_crates E) body")
  case (Inr xml)
  obtain r w1 where req: "require_object_with_version E b k v w = (r, w1)" by fastforce
  have same: "tbl_get (objects (w_db w1)) kb = Some m0"
    using quiet_Ok(1) [OF quiet_lookups(4) req] row by simp
  show ?thesis
  proof (cases r)
    case (Ok m)
    note eff = lock_update_effect [OF req [unfolded Ok] inv row]
    show ?thesis
      using eff row
      by (auto simp: w' put_object_legal_hold_def Inr bnd_def [of "require_object_with_version E b k v"] req Ok fail_def)
  qed (use same row in \<open>auto simp: w' put_object_legal_hold_def Inr bnd_def [of "require_object_with_version E b k v"] req fail_def\<close>)
qed (use row in \<open>simp add: w' put_object_legal_hold_def fail_def\<close>)

lemma deadline_set:
  "deadline (m\<lparr>m_object_lock := Some \<lparr>ol_retention = Some \<lparr>ret_mode = md, retain_until = t\<rparr>, ol_legal_hold = l\<rparr>\<rparr>) = Some t"
  by (simp add: deadline_def)

lemma retention_accepted:
  assumes put: "put_object_retention E b k v body w = (Ok r, w')"
  shows "\<exists>xml t m w1. parse_retention_xml (e_crates E) body = Inr xml \<and>
     parse_rfc3339 (e_crates E) (rx_retain_until_date xml) = Some t \<and>
     require_object_with_version E b k v w = (Ok m, w1) \<and>
     (\<exists>m'. tbl_get (objects (w_db w')) (encode (m_key m)) = Some m' \<and> deadline m' = Some t)"
proof (cases "parse_retention_xml (e_crates E) body")
  case (Inr xml)
  obtain md t m w1 l where steps: "parse_rfc3339 (e_crates E) (rx_retain_until_date xml) = Some t"
    "require_object_with_version E b k v w = (Ok m, w1)"
    "meta E (update_manifest_lock E (m_key m)
       (Some \<lparr>ol_retention = Some \<lparr>ret_mode = md, retain_until = t\<rparr>, ol_legal_hold = l\<rparr>)) w1 = (Ok (), w')"
    using put by (auto simp: put_object_retention_def Inr bnd_Ok lift_def ok_or_def fail_def ret_def
        split: sum.splits option.splits if_splits)
  have "\<exists>m'. tbl_get (objects (w_db w')) (encode (m_key m)) = Some m' \<and> deadline m' = Some t"
    using steps(3) by (auto simp: meta_Ok write_eqs write_result_def handle_update_manifest_lock_def Let_def deadline_set
        split: option.splits)
  then show ?thesis using Inr steps by blast
qed (use put in \<open>simp add: put_object_retention_def fail_def\<close>)

lemma retention_refused:
  assumes "parse_retention_xml (e_crates E) body = Inr xml" "rx_mode xml = ''COMPLIANCE''"
    and "parse_rfc3339 (e_crates E) (rx_retain_until_date xml) = Some t"
    and "require_object_with_version E b k v w = (Ok m, w1)" "deadline m = Some t0" "t < t0"
  shows "\<exists>e. put_object_retention E b k v body w = (Err e, w1) \<and> se_code e = AccessForbidden"
  using assms(5,6)
  by (auto simp: put_object_retention_def assms(1-4) parse_mode_def lift_def ok_or_def ret_def fail_def
      bnd_def [of "require_object_with_version E b k v"] bnd_def [of "ret x" for x] deadline_def with_resource_def
      s3_error_new_def split: option.splits)

text \<open>
  C9.  The two Object Lock handlers never shorten a retention.  After a PutObjectRetention,
  whatever it answers, every stored manifest is still there, unchanged up to its lock; its
  retention deadline has not moved back and its legal hold is as before.  When it answers with
  success, the version it looked up has exactly the deadline of the request.  A request for an
  earlier deadline than the stored one is refused with \<^verbatim>\<open>AccessForbidden\<close> and changes nothing.  A
  PutObjectLegalHold leaves every deadline in place.
\<close>

theorem retention_never_shortened:
  assumes "server_inv E w" and "tbl_get (objects (w_db w)) kb = Some m0"
  shows "(\<exists>m1. tbl_get (objects (w_db (snd (put_object_retention E b k v body w)))) kb = Some m1 \<and>
      m1\<lparr>m_object_lock := m_object_lock m0\<rparr> = m0 \<and> hold m1 = hold m0 \<and>
      (\<forall>t0. deadline m0 = Some t0 \<longrightarrow> (\<exists>t. deadline m1 = Some t \<and> t0 \<le> t))) \<and>
    (\<forall>r w'. put_object_retention E b k v body w = (Ok r, w') \<longrightarrow>
      (\<exists>xml t m w1. parse_retention_xml (e_crates E) body = Inr xml \<and>
         parse_rfc3339 (e_crates E) (rx_retain_until_date xml) = Some t \<and>
         require_object_with_version E b k v w = (Ok m, w1) \<and>
         (\<exists>m'. tbl_get (objects (w_db w')) (encode (m_key m)) = Some m' \<and> deadline m' = Some t))) \<and>
    (\<forall>xml t m w1 t0. parse_retention_xml (e_crates E) body = Inr xml \<and> rx_mode xml = ''COMPLIANCE'' \<and>
         parse_rfc3339 (e_crates E) (rx_retain_until_date xml) = Some t \<and>
         require_object_with_version E b k v w = (Ok m, w1) \<and> deadline m = Some t0 \<and> t < t0 \<longrightarrow>
      (\<exists>e n. put_object_retention E b k v body w = (Err e, w\<lparr>w_tick := n\<rparr>) \<and> se_code e = AccessForbidden)) \<and>
    (\<exists>m2. tbl_get (objects (w_db (snd (put_object_legal_hold E b k v body w)))) kb = Some m2 \<and>
      m2\<lparr>m_object_lock := m_object_lock m0\<rparr> = m0 \<and> deadline m2 = deadline m0)"
proof (intro conjI allI impI)
  obtain m1 where m1: "tbl_get (objects (w_db (snd (put_object_retention E b k v body w)))) kb = Some m1"
    "m1\<lparr>m_object_lock := m_object_lock m0\<rparr> = m0" "hold m1 = hold m0"
    "\<forall>t0. deadline m0 = Some t0 \<longrightarrow> (\<exists>t. deadline m1 = Some t \<and> t0 \<le> t)"
    using retention_row [OF assms refl, of b k v body] by (elim disjE) (auto simp: deadline_def hold_def)
  then show "\<exists>m1. tbl_get (objects (w_db (snd (put_object_retention E b k v body w)))) kb = Some m1 \<and>
      m1\<lparr>m_object_lock := m_object_lock m0\<rparr> = m0 \<and> hold m1 = hold m0 \<and>
      (\<forall>t0. deadline m0 = Some t0 \<longrightarrow> (\<exists>t. deadline m1 = Some t \<and> t0 \<le> t))" by blast
  obtain m2 where m2: "tbl_get (objects (w_db (snd (put_object_legal_hold E b k v body w)))) kb = Some m2"
    "m2\<lparr>m_object_lock := m_object_lock m0\<rparr> = m0" "deadline m2 = deadline m0"
    using legal_hold_row [OF assms refl, of b k v body] by (elim disjE) (auto simp: deadline_def split: option.split)
  then show "\<exists>m2. tbl_get (objects (w_db (snd (put_object_legal_hold E b k v body w)))) kb = Some m2 \<and>
      m2\<lparr>m_object_lock := m_object_lock m0\<rparr> = m0 \<and> deadline m2 = deadline m0" by blast
next
  fix xml t m w1 t0
  assume early: "parse_retention_xml (e_crates E) body = Inr xml \<and> rx_mode xml = ''COMPLIANCE'' \<and>
         parse_rfc3339 (e_crates E) (rx_retain_until_date xml) = Some t \<and>
         require_object_with_version E b k v w = (Ok m, w1) \<and> deadline m = Some t0 \<and> t < t0"
  obtain n where "w1 = w\<lparr>w_tick := n\<rparr>"
    using early same_but_tick [OF quiet_lookups(4), of E b k v w] by auto
  with early show "\<exists>e n. put_object_retention E b k v body w = (Err e, w\<lparr>w_tick := n\<rparr>) \<and> se_code e = AccessForbidden"
    using retention_refused [of E body xml t b k v w m w1 t0] by blast
qed (rule retention_accepted)

definition lock_env :: env where
  "lock_env = toy_env\<lparr>e_crates := toy_crates\<lparr>
     parse_retention_xml := (\<lambda>b. Inr \<lparr>rx_mode = ''COMPLIANCE'', rx_retain_until_date = b\<rparr>),
     parse_rfc3339 := (\<lambda>s. Some (int (length s)))\<rparr>\<rparr>"

lemma lock_env_sel:
  "parse_retention_xml (e_crates lock_env) b = Inr \<lparr>rx_mode = ''COMPLIANCE'', rx_retain_until_date = b\<rparr>"
  "parse_rfc3339 (e_crates lock_env) s = Some (int (length s))" "e_meta_fault lock_env n = None"
  by (simp_all add: lock_env_def toy_env_def)

lemma lock_inv: "server_inv lock_env toy_stored"
  using toy_inv(2) by (simp add: server_inv_def world_inv_def lock_env_def toy_env_def blobs_ok_def)

lemma lock_eval:
  "tbl_get (objects (w_db w)) (encode (new_key ''bkt'' ''k'' ''null'')) = Some m \<Longrightarrow> m_state m = Committed \<Longrightarrow> m_kind m = Object \<Longrightarrow>
     require_object_with_version lock_env ''bkt'' ''k'' (Some ''null'') w = (Ok m, tick w)"
  by (simp add: require_object_with_version_def bnd_def meta_def map_err_def catch_def read_eqs read_result_def
      filter_option_def ok_or_def ret_def lock_env_def toy_env_def handle_get_manifest_def)

text \<open>
  A run: a retention up to 3 is set on a stored object and then extended to 5; the earlier
  deadline 1 is refused and the deadline 5 stays.
\<close>

definition lock_run :: "nat \<Rightarrow> world \<Rightarrow> (s3_error, response) outcome \<times> world" where
  "lock_run n = put_object_retention lock_env ''bkt'' ''k'' (Some ''null'') (replicate n CHR ''d'')"

definition lock_row :: "world \<Rightarrow> manifest \<Rightarrow> bool" where
  "lock_row w m \<longleftrightarrow> server_inv lock_env w \<and>
     tbl_get (objects (w_db w)) (encode (new_key ''bkt'' ''k'' ''null'')) = Some m \<and>
     m_state m = Committed \<and> m_kind m = Object \<and> m_key m = new_key ''bkt'' ''k'' ''null''"

lemma lock_row_start: "lock_row toy_stored (toy_object ''null'' ''hi'' None 4)"
  using lock_inv toy_stored_lookups(2) by (simp add: lock_row_def version_found_def toy_object_def)

lemma lock_run_accepts:
  assumes "lock_row w m" and "\<forall>t0. deadline m = Some t0 \<longrightarrow> t0 \<le> int n"
  shows "\<exists>r w'. lock_run n w = (Ok r, w')"
proof -
  have found: "require_object_with_version lock_env ''bkt'' ''k'' (Some ''null'') w = (Ok m, tick w)"
    and row: "tbl_get (objects (w_db w)) (encode (new_key ''bkt'' ''k'' ''null'')) = Some m" "m_key m = new_key ''bkt'' ''k'' ''null''"
    using assms(1) lock_eval [of w m] by (simp_all add: lock_row_def)
  have late: "\<not> (case m_object_lock m of
      Some l \<Rightarrow> (case ol_retention l of Some r \<Rightarrow> int n < retain_until r | None \<Rightarrow> False) | None \<Rightarrow> False)"
    using assms(2) by (auto simp: deadline_def split: option.splits)
  show ?thesis
    using late row
    by (simp add: lock_run_def put_object_retention_def lock_env_sel found parse_mode_def lift_def ok_or_def bnd_def ret_def
        meta_def map_err_def catch_def write_eqs write_result_def handle_update_manifest_lock_def)
qed

theorem retention_never_shortened_witness:
  "\<exists>r1 w1 r2 w2 e n m. lock_run 3 toy_stored = (Ok r1, w1) \<and> lock_run 5 w1 = (Ok r2, w2) \<and>
     lock_run 1 w2 = (Err e, w2\<lparr>w_tick := n\<rparr>) \<and> se_code e = AccessForbidden \<and>
     tbl_get (objects (w_db w2)) (encode (new_key ''bkt'' ''k'' ''null'')) = Some m \<and> deadline m = Some 5"
proof -
  let ?kb = "encode (new_key ''bkt'' ''k'' ''null'')"
  have step: "\<exists>r w' m'. lock_run n w = (Ok r, w') \<and> lock_row w' m' \<and> deadline m' = Some (int n)"
    if row: "lock_row w m" and le: "\<forall>t0. deadline m = Some t0 \<longrightarrow> t0 \<le> int n" for n w m
  proof -
    obtain r w' where run: "lock_run n w = (Ok r, w')" using lock_run_accepts [OF row le] by blast
    have m: "server_inv lock_env w" "tbl_get (objects (w_db w)) ?kb = Some m" "m_state m = Committed"
      "m_kind m = Object" "m_key m = new_key ''bkt'' ''k'' ''null''" using row by (simp_all add: lock_row_def)
    note never = retention_never_shortened [OF m(1,2), of "''bkt''" "''k''" "Some ''null''" "replicate n CHR ''d''"]
    obtain m1 where m1: "tbl_get (objects (w_db w')) ?kb = Some m1" "m1\<lparr>m_object_lock := m_object_lock m\<rparr> = m"
      using never run by (auto simp: lock_run_def)
    have "deadline m1 = Some (int n)"
      using never run lock_eval [OF m(2-4)] m1(1) m(5) by (auto simp: lock_run_def lock_env_sel)
    moreover have "server_inv lock_env w'"
      using keeps_metadata_handlers(3) [of lock_env "''bkt''" "''k''" "Some ''null''" "replicate n CHR ''d''"] m(1) run
      by (auto simp: lock_run_def keeps_def triple_def)
    moreover have "m_state m1 = m_state m" "m_kind m1 = m_kind m" "m_key m1 = m_key m"
      by (metis m1(2) manifest.select_convs manifest.surjective manifest.update_convs)+
    ultimately show ?thesis using run m1(1) m by (auto simp: lock_row_def)
  qed
  obtain r1 w1 m1 where one: "lock_run 3 toy_stored = (Ok r1, w1)" "lock_row w1 m1" "deadline m1 = Some 3"
    using step [OF lock_row_start, of 3] by (auto simp: deadline_def toy_object_def)
  then obtain r2 w2 m2 where two: "lock_run 5 w1 = (Ok r2, w2)" "lock_row w2 m2" "deadline m2 = Some 5"
    using step [of w1 m1 5] by auto
  then have row2: "server_inv lock_env w2" "tbl_get (objects (w_db w2)) ?kb = Some m2" "m_state m2 = Committed" "m_kind m2 = Object"
    by (simp_all add: lock_row_def)
  have "\<exists>e n. lock_run 1 w2 = (Err e, w2\<lparr>w_tick := n\<rparr>) \<and> se_code e = AccessForbidden"
    using retention_never_shortened [OF row2(1,2), of "''bkt''" "''k''" "Some ''null''" "replicate 1 CHR ''d''"]
      lock_eval [OF row2(2-4)] two(3) by (simp add: lock_run_def lock_env_sel)
  with one two row2(2) show ?thesis by blast
qed

subsection \<open>What the lock does not cover\<close>

text \<open>
  C20.  The lock of a null version does not survive a PUT: outside enabled versioning a
  successful PUT replaces the row of the null version, whatever lock the stored manifest has
  (a DELETE of the same object is refused, as shown above); what protects the
  row afterwards is only the lock that the new request or the bucket default asks for.
\<close>

theorem put_replaces_locked_object:
  assumes "put_object E b k hs body w = (Ok r, w')"
    and "tbl_get (buckets (w_db w)) b = Some cfg" "bc_versioning cfg \<noteq> Enabled" "bc_object_lock cfg = None"
    and "tbl_get (objects (w_db w)) (encode (new_key b k null_version_id)) = Some m" "always_locked E m"
    and "parse_lock_headers (e_crates E) hs = Inr None"
  shows "\<exists>m'. tbl_get (objects (w_db w')) (encode (new_key b k null_version_id)) = Some m' \<and>
    m_object_lock m' = None \<and> map pr_hash (m_parts m') = [blake3 (e_crates E) body]"
proof -
  from assms(1) obtain cfg' m' vid lock now where c: "tbl_get (buckets (w_db w)) b = Some cfg'"
    and m': "put_manifest_of E b k hs body vid lock now m'"
    and v: "if bc_versioning cfg' = Enabled then \<exists>n. vid = e_uuid E n else vid = null_version_id"
    and objs: "objects (w_db w') = tbl_insert (objects (w_db w)) (encode (new_key b k vid)) m'"
    and lock: "lock_chosen E hs cfg' lock"
    by (rule put_object_effect) blast
  have "lock = None"
    using lock c assms(2,4,7) by (auto simp: lock_chosen_def default_lock_for_bucket_def ret_def)
  then show ?thesis using c m' v objs assms(2,3) by (auto simp: put_manifest_of_def)
qed

lemma toy_locked_put: "\<exists>r w'. put_object toy_env ''bkt'' ''k'' [] ''ho'' toy_locked = (Ok r, w')"
  by (simp add: put_eval toy_locked_def toy_hold_def toy_defs encode_def new_key_def gc_one_def handle_mark_gc_pending_def
      dec_all_def dec_part_refcount_def less_char_def delete_part_def handle_remove_part_def tbl_remove_def)

lemma toy_locked_null:
  "tbl_get (objects (w_db toy_locked)) (encode (new_key ''bkt'' ''k'' null_version_id)) = Some (toy_object ''null'' ''hi'' (Some toy_hold) 0)"
  by (simp add: null_version_id_def toy_locked_row(1))

theorem put_replaces_locked_object_witness:
  "\<exists>r w' m'. put_object toy_env ''bkt'' ''k'' [] ''ho'' toy_locked = (Ok r, w') \<and>
     tbl_get (objects (w_db w')) (encode (new_key ''bkt'' ''k'' null_version_id)) = Some m' \<and> m_object_lock m' = None"
proof -
  obtain r w' where put: "put_object toy_env ''bkt'' ''k'' [] ''ho'' toy_locked = (Ok r, w')"
    using toy_locked_put by blast
  have "parse_lock_headers (e_crates toy_env) [] = Inr None" "bc_versioning (toy_bucket Off) \<noteq> Enabled"
    "bc_object_lock (toy_bucket Off) = None"
    by (simp_all add: parse_lock_headers_def header_str_def header_get_def toy_bucket_def)
  with put_replaces_locked_object [OF put toy_locked_row(3) _ _ toy_locked_null toy_locked_row(2)] put
  show ?thesis by blast
qed

text \<open>
  Nor does it survive an unversioned DELETE while versioning is suspended: the delete marker takes
  the row of the null version, whatever lock the object there has, and its parts are released.
  (The refusal in \<^verbatim>\<open>delete_object\<close> looks at buckets without versioning only.)
\<close>

theorem suspended_delete_replaces_locked:
  assumes "delete_object E b k None w = (Ok r, w')"
    and "tbl_get (buckets (w_db w)) b = Some cfg" "bc_versioning cfg = Suspended"
  shows "\<exists>m'. tbl_get (objects (w_db w')) (encode (new_key b k null_version_id)) = Some m' \<and>
    m_kind m' = Tombstone \<and> m_object_lock m' = None \<and> m_parts m' = []"
proof -
  obtain w1 w2 freed now where put: "put_manifest E (tombstone b k null_version_id now) w1 = (Ok freed, w2)"
    and gc: "\<exists>u w3. (gc_freed_parts E freed :: (s3_error, unit) action) w2 = (Ok u, w3) \<and> w_db w' = w_db w3"
    using assms by (auto simp: delete_object_def Let_def bnd_Ok require_bucket_def read_eqs read_result_Ok next_version_id_def)
  have "tbl_get (objects (w_db w2)) (encode (new_key b k null_version_id)) = Some (tombstone b k null_version_id now)"
    using put by (auto simp: write_eqs write_result_Ok tombstone_def elim!: put_manifest_cases)
  moreover have "objects (w_db w') = objects (w_db w2)"
    using gc gc_freed_parts_same [of w2 E freed, where ?'e = s3_error] by (auto simp: same_objects_def)
  ultimately show ?thesis by (simp add: tombstone_def)
qed

definition toy_suspended :: world where
  "toy_suspended = toy_world [(''bkt'', toy_bucket Suspended)] [toy_object ''null'' ''hi'' (Some toy_hold) 0] [(''hi'', toy_row 1 2 0)] [] 0"

text \<open>An object under legal hold, and the DELETE that removes it.\<close>

theorem suspended_delete_replaces_locked_witness:
  "\<exists>r w' m'. delete_object toy_env ''bkt'' ''k'' None toy_suspended = (Ok r, w') \<and>
     tbl_get (objects (w_db w')) (encode (new_key ''bkt'' ''k'' null_version_id)) = Some m' \<and>
     m_kind m' = Tombstone \<and> w_blobs w' ''hi'' = None"
proof -
  have "\<exists>r w'. delete_object toy_env ''bkt'' ''k'' None toy_suspended = (Ok r, w') \<and> w_blobs w' ''hi'' = None"
    by (simp add: put_eval delete_object_def tombstone_def toy_suspended_def toy_hold_def toy_defs encode_def new_key_def gc_one_def
        handle_mark_gc_pending_def dec_all_def dec_part_refcount_def less_char_def delete_part_def handle_remove_part_def
        tbl_remove_def)
  then obtain r w' where del: "delete_object toy_env ''bkt'' ''k'' None toy_suspended = (Ok r, w')" "w_blobs w' ''hi'' = None"
    by blast
  have "tbl_get (buckets (w_db toy_suspended)) ''bkt'' = Some (toy_bucket Suspended)"
    "bc_versioning (toy_bucket Suspended) = Suspended"
    by (simp_all add: toy_suspended_def toy_world_def tbl_get_def toy_bucket_def)
  with suspended_delete_replaces_locked [OF del(1)] del show ?thesis by blast
qed

end
