(* ===== verification/Config.thy ===== *)
theory Config
  imports Text
begin

text \<open>
  \<^verbatim>\<open>src/config.rs\<close>: the server configuration and the loading of \<^verbatim>\<open>config.toml\<close>.  Paths and
  socket addresses are strings; the TOML parser is third-party code and a parameter.
\<close>

subsection \<open>Configuration records\<close>

record root_key =
  rk_access_key_id :: string
  rk_secret_access_key :: string

definition event_str :: "event_type \<Rightarrow> string" where
  "event_str t =
     (case t of
        ObjectCreatedPut \<Rightarrow> ''s3:ObjectCreated:Put''
      | ObjectCreatedPost \<Rightarrow> ''s3:ObjectCreated:Post''
      | ObjectCreatedCopy \<Rightarrow> ''s3:ObjectCreated:Copy''
      | ObjectCreatedCompleteMultipartUpload \<Rightarrow> ''s3:ObjectCreated:CompleteMultipartUpload''
      | ObjectRemovedDelete \<Rightarrow> ''s3:ObjectRemoved:Delete''
      | ObjectRemovedDeleteMarkerCreated \<Rightarrow> ''s3:ObjectRemoved:DeleteMarkerCreated'')"

record webhook_subscription =
  ws_bucket :: string
  ws_events :: "event_type list"
  ws_prefix :: "string option"
  ws_suffix :: "string option"
  ws_url :: string

record tls_config =
  tls_cert_path :: string
  tls_key_path :: string

record server_config =
  sc_region :: string
  sc_root_key :: root_key
  sc_listen_addr :: string
  sc_endpoint_host :: "string option"
  sc_max_signed_body_bytes :: nat
  sc_webhook_subscriptions :: "webhook_subscription list"
  sc_allow_loopback_webhooks :: bool
  sc_tls :: "tls_config option"

definition default_max_body :: nat where
  "default_max_body = 64 * 1024 * 1024"

definition server_config_new :: "string \<Rightarrow> string \<Rightarrow> string \<Rightarrow> string \<Rightarrow> server_config" where
  "server_config_new region access_key secret listen =
     \<lparr>sc_region = region,
      sc_root_key = \<lparr>rk_access_key_id = access_key, rk_secret_access_key = secret\<rparr>,
      sc_listen_addr = listen, sc_endpoint_host = None, sc_max_signed_body_bytes = default_max_body,
      sc_webhook_subscriptions = [], sc_allow_loopback_webhooks = False, sc_tls = None\<rparr>"

subsection \<open>The configuration file\<close>

record webhook_file =
  wf_url :: string
  wf_bucket :: string
  wf_events :: "string list"
  wf_prefix :: "string option"
  wf_suffix :: "string option"

record config_file =
  cf_region :: string
  cf_access_key_id :: string
  cf_secret_access_key :: string
  cf_listen_addr :: string
  cf_data_dir :: string
  cf_endpoint_host :: "string option"
  cf_max_signed_body_bytes :: "nat option"
  cf_allow_loopback_webhooks :: bool
  cf_tls_cert_path :: "string option"
  cf_tls_key_path :: "string option"
  cf_webhooks :: "webhook_file list"

datatype config_error =
    ConfigIo string
  | ConfigToml string
  | UnknownEventType string
  | PartialTlsConfig

definition parse_event_type :: "string \<Rightarrow> config_error + event_type" where
  "parse_event_type s =
     (if s = ''ObjectCreated:Put'' \<or> s = ''s3:ObjectCreated:Put'' then Inr ObjectCreatedPut
      else if s = ''ObjectCreated:Post'' \<or> s = ''s3:ObjectCreated:Post'' then Inr ObjectCreatedPost
      else if s = ''ObjectCreated:Copy'' \<or> s = ''s3:ObjectCreated:Copy'' then Inr ObjectCreatedCopy
      else if s = ''ObjectCreated:CompleteMultipartUpload'' \<or> s = ''s3:ObjectCreated:CompleteMultipartUpload''
        then Inr ObjectCreatedCompleteMultipartUpload
      else if s = ''ObjectRemoved:Delete'' \<or> s = ''s3:ObjectRemoved:Delete'' then Inr ObjectRemovedDelete
      else if s = ''ObjectRemoved:DeleteMarkerCreated'' \<or> s = ''s3:ObjectRemoved:DeleteMarkerCreated''
        then Inr ObjectRemovedDeleteMarkerCreated
      else Inl (UnknownEventType s))"

text \<open>The two nested loops over the webhooks and their event names.\<close>

fun parse_events :: "string list \<Rightarrow> config_error + event_type list" where
  "parse_events [] = Inr []"
| "parse_events (e # es) =
     (case parse_event_type e of
        Inl x \<Rightarrow> Inl x
      | Inr t \<Rightarrow> (case parse_events es of Inl x \<Rightarrow> Inl x | Inr ts \<Rightarrow> Inr (t # ts)))"

fun parse_webhooks :: "webhook_file list \<Rightarrow> config_error + webhook_subscription list" where
  "parse_webhooks [] = Inr []"
| "parse_webhooks (w # ws) =
     (case parse_events (wf_events w) of
        Inl x \<Rightarrow> Inl x
      | Inr evs \<Rightarrow>
          (case parse_webhooks ws of
             Inl x \<Rightarrow> Inl x
           | Inr subs \<Rightarrow>
               Inr (\<lparr>ws_bucket = wf_bucket w, ws_events = evs, ws_prefix = wf_prefix w,
                     ws_suffix = wf_suffix w, ws_url = wf_url w\<rparr> # subs)))"

definition config_of_file :: "config_file \<Rightarrow> config_error + (server_config \<times> string)" where
  "config_of_file f =
     (case parse_webhooks (cf_webhooks f) of
        Inl x \<Rightarrow> Inl x
      | Inr subs \<Rightarrow>
          (case (case (cf_tls_cert_path f, cf_tls_key_path f) of
                   (Some cert, Some key) \<Rightarrow> Inr (Some \<lparr>tls_cert_path = cert, tls_key_path = key\<rparr>)
                 | (None, None) \<Rightarrow> Inr None
                 | _ \<Rightarrow> Inl PartialTlsConfig) of
             Inl x \<Rightarrow> Inl x
           | Inr tls \<Rightarrow>
               Inr (\<lparr>sc_region = cf_region f,
                     sc_root_key = \<lparr>rk_access_key_id = cf_access_key_id f,
                                    rk_secret_access_key = cf_secret_access_key f\<rparr>,
                     sc_listen_addr = cf_listen_addr f, sc_endpoint_host = cf_endpoint_host f,
                     sc_max_signed_body_bytes = (case cf_max_signed_body_bytes f of
                        Some n \<Rightarrow> n | None \<Rightarrow> 64 * 1024 * 1024),
                     sc_webhook_subscriptions = subs,
                     sc_allow_loopback_webhooks = cf_allow_loopback_webhooks f, sc_tls = tls\<rparr>,
                    cf_data_dir f)))"

text \<open>\<open>text\<close> is the outcome of \<^verbatim>\<open>read_to_string\<close>, \<open>toml\<close> stands for \<^verbatim>\<open>toml::from_str\<close>.\<close>

definition load_config ::
  "(string \<Rightarrow> string + config_file) \<Rightarrow> string + string \<Rightarrow> config_error + (server_config \<times> string)" where
  "load_config toml text =
     (case text of
        Inl e \<Rightarrow> Inl (ConfigIo e)
      | Inr s \<Rightarrow> (case toml s of Inl e \<Rightarrow> Inl (ConfigToml e) | Inr f \<Rightarrow> config_of_file f))"

subsection \<open>Facts\<close>

lemma parse_event_str: "parse_event_type (event_str t) = Inr t" "parse_event_type (drop 3 (event_str t)) = Inr t"
  by (cases t; simp add: parse_event_type_def event_str_def)+

lemma parse_event_type_Inr: "parse_event_type s = Inr t \<longleftrightarrow> s = event_str t \<or> s = drop 3 (event_str t)"
proof
  assume "parse_event_type s = Inr t"
  then show "s = event_str t \<or> s = drop 3 (event_str t)"
    unfolding parse_event_type_def by (auto simp: event_str_def split: if_splits)
qed (auto simp: parse_event_str)

lemma parse_events_Inr: "parse_events es = Inr ts \<longleftrightarrow> list_all2 (\<lambda>e t. parse_event_type e = Inr t) es ts"
proof (induction es arbitrary: ts)
  case (Cons e es)
  then show ?case
    by (cases ts; cases "parse_events es") (auto split: sum.split)
qed auto

end
