(* ===== verification/Presigned.thy ===== *)
theory Presigned
  imports Config Bucket "HOL-Library.Product_Lexorder"
begin

text \<open>
  \<^verbatim>\<open>src/http/middleware/presigned.rs\<close>: verification of presigned URLs (AWS Signature Version
  4 in the query).  The hash functions are third-party code and parameters; the constant-time
  comparisons are equality.
\<close>

subsection \<open>Requests\<close>

datatype http_method = GET | PUT | POST | DELETE | HEAD | OPTIONS | OtherMethod string

fun method_str :: "http_method \<Rightarrow> string" where
  "method_str GET = ''GET''"
| "method_str PUT = ''PUT''"
| "method_str POST = ''POST''"
| "method_str DELETE = ''DELETE''"
| "method_str HEAD = ''HEAD''"
| "method_str OPTIONS = ''OPTIONS''"
| "method_str (OtherMethod m) = m"

record http_request =
  rq_method :: http_method
  rq_path :: string
  rq_query :: "string option"
  rq_headers :: header_map
  rq_body :: bytes

subsection \<open>The query\<close>

definition query_token :: "string \<Rightarrow> string \<times> string" where
  "query_token token = (case split_once (CHR ''='') token of Some (k, v) \<Rightarrow> (k, v) | None \<Rightarrow> (token, []))"

definition query_tokens :: "string \<Rightarrow> (string \<times> string) list" where
  "query_tokens query = map query_token (filter (\<lambda>t. t \<noteq> []) (split_on (CHR ''&'') query))"

definition is_presigned :: "string option \<Rightarrow> bool" where
  "is_presigned query =
     (case query of
        None \<Rightarrow> False
      | Some q \<Rightarrow> list_ex (\<lambda>p. case split_once (CHR ''='') p of
                       Some (k, _) \<Rightarrow> eq_ignore_ascii_case k ''X-Amz-Signature''
                     | None \<Rightarrow> False) (split_on (CHR ''&'') q))"

definition parse_query_pairs :: "string \<Rightarrow> (string, string) table" where
  "parse_query_pairs query = tbl_collect (query_tokens query)"

definition malformed :: "string \<Rightarrow> s3_error" where
  "malformed msg = s3_error_new AuthorizationHeaderMalformed msg"

definition get_required :: "(string, string) table \<Rightarrow> string \<Rightarrow> s3_error + string" where
  "get_required params name =
     (case find (\<lambda>(k, _). eq_ignore_ascii_case k name) (tbl_iter params) of
        Some (_, v) \<Rightarrow> Inr v
      | None \<Rightarrow> Inl (malformed (''presigned URL is missing '' @ name)))"

text \<open>\<^verbatim>\<open>percent_decode_str\<close> is the loop of \<^verbatim>\<open>copy.rs\<close> again.\<close>

definition percent_decode_str :: "string \<Rightarrow> string" where
  "percent_decode_str s = utf8_lossy (decode_percent_bytes s)"

text \<open>\<^verbatim>\<open>str::parse::<i64>\<close>\<close>

definition parse_i64 :: "string \<Rightarrow> int option" where
  "parse_i64 s =
     (case s of
        c # ds \<Rightarrow>
          (if c = CHR ''-''
           then (if ds = [] \<or> \<not> list_all is_digit ds \<or> 9223372036854775808 < digits_value ds then None
                 else Some (- int (digits_value ds)))
           else map_option int (parse_unsigned 9223372036854775808 s))
      | [] \<Rightarrow> None)"

text \<open>\<^verbatim>\<open>s.get(..8).unwrap_or_default()\<close>: empty when the eighth byte is not a boundary.\<close>

definition first_eight :: "string \<Rightarrow> string" where
  "first_eight s =
     (if 8 < length s \<and> in_range 128 191 (s ! 8) \<or> length s < 8 then [] else take 8 s)"

subsection \<open>The canonical request\<close>

definition canonical_pairs :: "string \<Rightarrow> (string \<times> string) list" where
  "canonical_pairs raw = filter (\<lambda>(k, _). \<not> eq_ignore_ascii_case k ''X-Amz-Signature'') (query_tokens raw)"

definition canonical_query :: "string \<Rightarrow> string" where
  "canonical_query raw = join_with (CHR ''&'') (map (\<lambda>(k, v). k @ CHR ''='' # v) (sort (canonical_pairs raw)))"

definition canonical_uri :: "string \<Rightarrow> string" where
  "canonical_uri path = (if path = [] then ''/'' else path)"

text \<open>The values of the signed headers, by name; an unsigned header is skipped.\<close>

definition collect_header ::
  "crates \<Rightarrow> (string, string list) table \<Rightarrow> string \<times> bytes \<Rightarrow> s3_error + (string, string list) table" where
  "collect_header X by_name e =
     (let n = List.map lower (fst e)
      in case tbl_get by_name n of
           None \<Rightarrow> Inr by_name
         | Some values \<Rightarrow>
             (case header_to_str X (snd e) of
                None \<Rightarrow> Inl (s3_error_new InvalidRequest (''non-ascii header '' @ n))
              | Some v \<Rightarrow> Inr (tbl_insert by_name n (values @ [trim v]))))"

fun header_lines :: "(string \<times> string list) list \<Rightarrow> s3_error + string" where
  "header_lines [] = Inr []"
| "header_lines ((n, values) # es) =
     (if values = [] then Inl (malformed (''signed header '' @ [CHR 0x27] @ n @ [CHR 0x27] @ '' missing''))
      else case header_lines es of
             Inl e \<Rightarrow> Inl e
           | Inr out \<Rightarrow> Inr (n @ '':'' @ join_with (CHR '','') values @ [CHR 0x0A] @ out))"

definition canonical_headers :: "crates \<Rightarrow> header_map \<Rightarrow> string list \<Rightarrow> s3_error + string" where
  "canonical_headers X hs signed =
     (case try_fold (collect_header X) (foldl (\<lambda>t n. tbl_insert t n []) [] signed) hs of
        Inl e \<Rightarrow> Inl e
      | Inr by_name \<Rightarrow> header_lines (tbl_iter by_name))"

subsection \<open>Verification\<close>

text \<open>A fallible step and a check, in a function that may also panic.\<close>

definition otry :: "'e + 'a \<Rightarrow> ('a \<Rightarrow> ('e, 'b) outcome) \<Rightarrow> ('e, 'b) outcome" where
  "otry r f = (case r of Inl e \<Rightarrow> Err e | Inr a \<Rightarrow> f a)"

definition reject_if :: "bool \<Rightarrow> 'e \<Rightarrow> ('e, 'b) outcome \<Rightarrow> ('e, 'b) outcome" where
  "reject_if c e k = (if c then Err e else k)"

definition algorithm :: string where "algorithm = ''AWS4-HMAC-SHA256''"

definition terminator :: string where "terminator = ''aws4_request''"

definition max_expires :: int where "max_expires = 604800"

definition ns_per_sec :: int where "ns_per_sec = 1000000000"

definition clock_skew_secs :: int where "clock_skew_secs = 300"

record credential =
  cd_access_key :: string
  cd_date_scope :: string
  cd_region :: string
  cd_service :: string
  cd_terminator :: string

definition parse_credential :: "string \<Rightarrow> s3_error + credential" where
  "parse_credential raw =
     (case split_on (CHR ''/'') (percent_decode_str raw) of
        [ak, d, r, sv, t] \<Rightarrow>
          Inr \<lparr>cd_access_key = ak, cd_date_scope = d, cd_region = r, cd_service = sv, cd_terminator = t\<rparr>
      | _ \<Rightarrow> Inl (malformed ''X-Amz-Credential must have 5 slash-delimited components''))"

definition signed_header_names :: "string \<Rightarrow> string list" where
  "signed_header_names raw =
     filter (\<lambda>s. s \<noteq> []) (map (\<lambda>s. List.map lower (trim s)) (split_on (CHR '';'') (percent_decode_str raw)))"

definition canonical_request :: "http_method \<Rightarrow> string \<Rightarrow> string \<Rightarrow> string \<Rightarrow> string list \<Rightarrow> string" where
  "canonical_request mth path query header_block signed =
     join_with (CHR 0x0A)
       [method_str mth, canonical_uri path, canonical_query query, header_block,
        join_with (CHR '';'') signed, ''UNSIGNED-PAYLOAD'']"

definition string_to_sign :: "crates \<Rightarrow> string \<Rightarrow> credential \<Rightarrow> string \<Rightarrow> string" where
  "string_to_sign X date_full c creq =
     (let scope = cd_date_scope c @ ''/'' @ cd_region c @ ''/'' @ cd_service c @ ''/aws4_request''
      in join_with (CHR 0x0A) [algorithm, date_full, scope, hex_encode X (sha256 X creq)])"

definition signature :: "crates \<Rightarrow> string \<Rightarrow> credential \<Rightarrow> string \<Rightarrow> string" where
  "signature X secret c sts =
     (let k_date = hmac_sha256 X (''AWS4'' @ secret) (cd_date_scope c);
          k_region = hmac_sha256 X k_date (cd_region c);
          k_service = hmac_sha256 X k_region (cd_service c);
          k_signing = hmac_sha256 X k_service ''aws4_request''
      in hex_encode X (hmac_sha256 X k_signing sts))"

text \<open>
  \<open>signed_at + Duration::seconds(expires)\<close> panics past the year 9999; the difference of two
  timestamps is a \<^verbatim>\<open>Duration\<close> and cannot overflow.
\<close>

definition check_window :: "timestamp \<Rightarrow> timestamp \<Rightarrow> int \<Rightarrow> (s3_error, unit) outcome" where
  "check_window now signed_at expires =
     reject_if (clock_skew_secs * ns_per_sec < \<bar>signed_at - now\<bar>)
       (s3_error_new RequestTimeTooSkewed ''request time is outside the allowed clock skew'')
     (if \<not> datetime_ok (signed_at + expires * ns_per_sec) then Panic
      else reject_if (signed_at + expires * ns_per_sec < now)
             (s3_error_new AccessForbidden ''presigned URL has expired'') (Ok ()))"

definition then_o :: "('e, unit) outcome \<Rightarrow> ('e, 'b) outcome \<Rightarrow> ('e, 'b) outcome" where
  "then_o r k = (case r of Ok _ \<Rightarrow> k | Err e \<Rightarrow> Err e | Panic \<Rightarrow> Panic)"

definition verify_presigned :: "crates \<Rightarrow> server_config \<Rightarrow> timestamp \<Rightarrow> http_request \<Rightarrow> (s3_error, unit) outcome" where
  "verify_presigned X cfg now rq =
     (case rq_query rq of
        None \<Rightarrow> Err (malformed ''presigned URL has no query string'')
      | Some query \<Rightarrow>
          (let params = parse_query_pairs query in
           otry (get_required params ''X-Amz-Algorithm'') (\<lambda>alg.
           reject_if (alg \<noteq> algorithm) (malformed (''unsupported X-Amz-Algorithm '' @ [CHR 0x27] @ alg @ [CHR 0x27]))
           (otry (get_required params ''X-Amz-Credential'') (\<lambda>credential_raw.
           otry (parse_credential credential_raw) (\<lambda>c.
           reject_if (cd_terminator c \<noteq> terminator) (malformed ''X-Amz-Credential must end with aws4_request'')
           (reject_if (cd_service c \<noteq> ''s3'') (malformed ''X-Amz-Credential service must be s3'')
           (reject_if (cd_access_key c \<noteq> rk_access_key_id (sc_root_key cfg))
             (s3_error_new InvalidAccessKeyId ''unknown access key id'')
           (otry (get_required params ''X-Amz-Date'') (\<lambda>date_full_raw.
           let date_full = percent_decode_str date_full_raw in
           otry (case parse_amz_datetime X date_full of
                   Some t \<Rightarrow> Inr t
                 | None \<Rightarrow> Inl (malformed ''X-Amz-Date is not ISO-8601 basic (yyyyMMddTHHmmssZ)'')) (\<lambda>signed_at.
           reject_if (first_eight date_full \<noteq> cd_date_scope c)
             (malformed ''X-Amz-Credential date does not match X-Amz-Date'')
           (otry (get_required params ''X-Amz-Expires'') (\<lambda>expires_raw.
           otry (case parse_i64 expires_raw of
                   Some n \<Rightarrow> Inr n
                 | None \<Rightarrow> Inl (malformed ''X-Amz-Expires must be a non-negative integer'')) (\<lambda>expires.
           reject_if (\<not> (1 \<le> expires \<and> expires \<le> max_expires)) (malformed ''X-Amz-Expires must be in 1..=604800'')
           (then_o (check_window now signed_at expires)
           (otry (get_required params ''X-Amz-SignedHeaders'') (\<lambda>signed_raw.
           let signed = signed_header_names signed_raw in
           reject_if (signed = []) (malformed ''X-Amz-SignedHeaders is empty'')
           (otry (get_required params ''X-Amz-Signature'') (\<lambda>provided.
           otry (canonical_headers X (rq_headers rq) signed) (\<lambda>header_block.
           let creq = canonical_request (rq_method rq) (rq_path rq) query header_block signed;
               computed = signature X (rk_secret_access_key (sc_root_key cfg)) c (string_to_sign X date_full c creq)
           in reject_if (computed \<noteq> provided)
                (s3_error_new SignatureDoesNotMatch ''presigned signature did not match'') (Ok ())))))))))))))))))))))"

end
