(* ===== verification/Auth.thy ===== *)
theory Auth
  imports Presigned Calls
begin

text \<open>
  \<^verbatim>\<open>src/http/middleware/auth.rs\<close>: the authentication middleware.  Header signatures are checked by
  the crate \<^verbatim>\<open>scratchstack-aws-signature\<close>, which is third-party code and a parameter (\<open>au_validate\<close>);
  it calls back into the signing-key service of this module.
\<close>

subsection \<open>The signature library's errors\<close>

datatype signature_error =
    InvalidClientTokenId
  | MissingAuthenticationToken
  | IncompleteSignature
  | MalformedQueryString
  | InvalidURIPath
  | InvalidBodyEncoding
  | InvalidContentType
  | InvalidRequestMethod
  | ExpiredToken
  | SigDoesNotMatch
  | SigIO
  | InternalServiceError
  | OtherSignatureError

text \<open>\<^verbatim>\<open>msg.contains(needle)\<close>\<close>

fun contains :: "string \<Rightarrow> string \<Rightarrow> bool" where
  "contains needle [] = (needle = [])"
| "contains needle (c # s) = (prefix needle (c # s) \<or> contains needle s)"

text \<open>An error is its variant and its \<^verbatim>\<open>Display\<close> text.\<close>

definition map_sigv4_error :: "signature_error \<times> string \<Rightarrow> s3_error" where
  "map_sigv4_error err =
     (let msg = snd err;
          code = (case fst err of
             InvalidClientTokenId \<Rightarrow> InvalidAccessKeyId
           | MissingAuthenticationToken \<Rightarrow> MissingSecurityHeader
           | IncompleteSignature \<Rightarrow> AuthorizationHeaderMalformed
           | MalformedQueryString \<Rightarrow> AuthorizationHeaderMalformed
           | InvalidURIPath \<Rightarrow> InvalidRequest
           | InvalidBodyEncoding \<Rightarrow> InvalidRequest
           | InvalidContentType \<Rightarrow> InvalidRequest
           | InvalidRequestMethod \<Rightarrow> InvalidRequest
           | ExpiredToken \<Rightarrow> RequestTimeTooSkewed
           | SigDoesNotMatch \<Rightarrow>
               (if contains ''Signature expired'' msg \<or> contains ''Signature not yet current'' msg
                then RequestTimeTooSkewed else SignatureDoesNotMatch)
           | SigIO \<Rightarrow> InternalError
           | InternalServiceError \<Rightarrow> InternalError
           | OtherSignatureError \<Rightarrow> SignatureDoesNotMatch)
      in s3_error_new code msg)"

subsection \<open>The signing-key service\<close>

text \<open>
  \<^verbatim>\<open>RootKeyService::call\<close>: the secret of the one access key.  Deriving the signing key from it
  is the library's \<^verbatim>\<open>KSecretKey\<close>.
\<close>

definition root_key_service :: "root_key \<Rightarrow> string \<Rightarrow> (signature_error \<times> string) + string" where
  "root_key_service rk access_key =
     (if access_key \<noteq> rk_access_key_id rk
      then Inl (InvalidClientTokenId,
                ''access key '' @ [CHR 0x27] @ access_key @ [CHR 0x27] @ '' is not registered'')
      else Inr (rk_secret_access_key rk))"

text \<open>
  \<^verbatim>\<open>sigv4_validate_request\<close>: key service, region, service, time and request; it fails with an
  error or returns the request it has checked.
\<close>

record auth_lib =
  au_validate :: "(string \<Rightarrow> (signature_error \<times> string) + string) \<Rightarrow> string \<Rightarrow> string \<Rightarrow> timestamp \<Rightarrow>
     http_request \<Rightarrow> (signature_error \<times> string) + http_request"

subsection \<open>The middleware\<close>

text \<open>\<^verbatim>\<open>axum::body::to_bytes(body, limit)\<close> refuses a longer body.\<close>

definition to_bytes :: "bytes \<Rightarrow> nat \<Rightarrow> bytes option" where
  "to_bytes body limit = (if limit < length body then None else Some body)"

definition decorate_auth :: "string \<Rightarrow> request_id option \<Rightarrow> s3_error \<Rightarrow> s3_error" where
  "decorate_auth path rid e =
     (let e = with_resource e path in case rid of Some i \<Rightarrow> with_request_id e i | None \<Rightarrow> e)"

text \<open>
  \<open>next\<close> is the rest of the stack; it gets the identity that the middleware puts into the
  request's extensions, and the request.
\<close>

definition sigv4_mw ::
  "env \<Rightarrow> auth_lib \<Rightarrow> server_config \<Rightarrow> request_id option \<Rightarrow>
     (string option \<Rightarrow> http_request \<Rightarrow> response handler) \<Rightarrow> http_request \<Rightarrow> response handler" where
  "sigv4_mw E A cfg rid nxt rq =
     (if rq_method rq = OPTIONS then nxt None rq
      else if is_presigned (rq_query rq)
      then bnd (now_utc E) (\<lambda>now.
           case verify_presigned (e_crates E) cfg now rq of
             Ok _ \<Rightarrow> nxt (Some (rk_access_key_id (sc_root_key cfg))) rq
           | Err e \<Rightarrow> fail (decorate_auth (rq_path rq) rid e)
           | Panic \<Rightarrow> panic)
      else case to_bytes (rq_body rq) (sc_max_signed_body_bytes cfg) of
             None \<Rightarrow> fail (decorate_auth (rq_path rq) rid
                       (s3_error_new InvalidRequest ''request body too large to verify signature''))
           | Some body \<Rightarrow>
               bnd (now_utc E) (\<lambda>now.
               case au_validate A (root_key_service (sc_root_key cfg)) (sc_region cfg) ''s3'' now
                      (rq\<lparr>rq_body := body\<rparr>) of
                 Inl e \<Rightarrow> fail (decorate_auth (rq_path rq) rid (map_sigv4_error e))
               | Inr rq' \<Rightarrow> nxt (Some (rk_access_key_id (sc_root_key cfg))) rq'))"

text \<open>What it takes to get past the middleware with an identity.\<close>

definition authentic :: "env \<Rightarrow> auth_lib \<Rightarrow> server_config \<Rightarrow> timestamp \<Rightarrow> http_request \<Rightarrow> http_request \<Rightarrow> bool" where
  "authentic E A cfg now rq rq' \<longleftrightarrow>
     (if is_presigned (rq_query rq)
      then rq' = rq \<and> verify_presigned (e_crates E) cfg now rq = Ok ()
      else length (rq_body rq) \<le> sc_max_signed_body_bytes cfg \<and>
           au_validate A (root_key_service (sc_root_key cfg)) (sc_region cfg) ''s3'' now rq = Inr rq')"

lemma sigv4_mw_cases:
  "rq_method rq = OPTIONS \<and> sigv4_mw E A cfg rid nxt rq w = nxt None rq w \<or>
   (\<exists>rq'. rq_method rq \<noteq> OPTIONS \<and> authentic E A cfg (e_clock E (w_tick w)) rq rq' \<and>
      sigv4_mw E A cfg rid nxt rq w = nxt (Some (rk_access_key_id (sc_root_key cfg))) rq' (tick w)) \<or>
   (rq_method rq \<noteq> OPTIONS \<and> (\<forall>rq'. \<not> authentic E A cfg (e_clock E (w_tick w)) rq rq') \<and>
      (\<exists>r. (r = Panic \<or> (\<exists>e. r = Err e)) \<and> sigv4_mw E A cfg rid nxt rq w \<in> {(r, w), (r, tick w)}))"
  by (auto simp: sigv4_mw_def authentic_def to_bytes_def bnd_def now_utc_def fail_def panic_def
      split: option.split outcome.split sum.split)

end
