(* ===== verification/Addressing.thy ===== *)
theory Addressing
  imports Config
begin

text \<open>
  \<^verbatim>\<open>src/s3/addressing.rs\<close>: which bucket and key a request names, from the \<^verbatim>\<open>Host\<close> header and
  the URI path.
\<close>

record addressing =
  ad_bucket :: "string option"
  ad_key :: "string option"

definition strip_port :: "string \<Rightarrow> string" where
  "strip_port host =
     (case rsplit_once (CHR '':'') host of
        Some (h, _) \<Rightarrow> (if h \<noteq> [] then h else host)
      | None \<Rightarrow> host)"

definition virtual_hosted_bucket :: "string \<Rightarrow> string \<Rightarrow> string option" where
  "virtual_hosted_bucket host endpoint =
     (case strip_suffix (CHR ''.'' # endpoint) host of
        None \<Rightarrow> None
      | Some p \<Rightarrow> (if p = [] \<or> CHR ''.'' \<in> set p then None else Some p))"

definition bucket_byte :: "char \<Rightarrow> bool" where
  "bucket_byte b \<longleftrightarrow> in_range 97 122 b \<or> in_range 48 57 b"

definition is_ipv4_like :: "string \<Rightarrow> bool" where
  "is_ipv4_like name =
     (let ps = split_on (CHR ''.'') name
      in length ps = 4 \<and> list_all (\<lambda>p. p \<noteq> [] \<and> list_all (in_range 48 57) p) ps)"

definition invalid_bucket :: "string \<Rightarrow> s3_error" where
  "invalid_bucket reason = s3_error_new InvalidBucketName (''invalid bucket name: '' @ reason)"

definition validate_bucket_name :: "string \<Rightarrow> s3_error + unit" where
  "validate_bucket_name name =
     (if \<not> (3 \<le> length name \<and> length name \<le> 63) then Inl (invalid_bucket ''length must be 3-63 characters'')
      else if \<not> bucket_byte (hd name) \<or> \<not> bucket_byte (last name)
        then Inl (invalid_bucket ''must start and end with a letter or digit'')
      else if \<not> list_all (\<lambda>b. bucket_byte b \<or> b = CHR ''-'') name
        then Inl (invalid_bucket ''only lowercase letters, digits, and hyphens are allowed'')
      else if is_ipv4_like name then Inl (invalid_bucket ''must not be formatted as an IPv4 address'')
      else Inr ())"

definition trimmed_path :: "string \<Rightarrow> string" where
  "trimmed_path uri = (case strip_prefix ''/'' uri of Some t \<Rightarrow> t | None \<Rightarrow> uri)"

definition path_to_key :: "string \<Rightarrow> string option" where
  "path_to_key uri = (let t = trimmed_path uri in if t = [] then None else Some t)"

definition path_style :: "string \<Rightarrow> s3_error + addressing" where
  "path_style uri =
     (let t = trimmed_path uri
      in if t = [] then Inr \<lparr>ad_bucket = None, ad_key = None\<rparr>
         else let (b, k) = (case split_once (CHR ''/'') t of
                              Some (b, k) \<Rightarrow> (b, Some k) | None \<Rightarrow> (t, None))
              in case validate_bucket_name b of
                   Inl e \<Rightarrow> Inl e
                 | Inr _ \<Rightarrow> Inr \<lparr>ad_bucket = Some b,
                                ad_key = (case k of Some k \<Rightarrow> (if k \<noteq> [] then Some k else None) | None \<Rightarrow> None)\<rparr>)"

definition extract_addressing :: "string option \<Rightarrow> string \<Rightarrow> server_config \<Rightarrow> s3_error + addressing" where
  "extract_addressing host_header uri cfg =
     (let host = (case host_header of Some h \<Rightarrow> strip_port h | None \<Rightarrow> []);
          virtual = (case sc_endpoint_host cfg of
                       None \<Rightarrow> None
                     | Some endpoint \<Rightarrow> (if endpoint = [] then None else virtual_hosted_bucket host endpoint))
      in case virtual of
           Some b \<Rightarrow>
             (case validate_bucket_name b of
                Inl e \<Rightarrow> Inl e
              | Inr _ \<Rightarrow> Inr \<lparr>ad_bucket = Some b, ad_key = path_to_key uri\<rparr>)
         | None \<Rightarrow> path_style uri)"

subsection \<open>Valid bucket names\<close>

definition valid_bucket :: "string \<Rightarrow> bool" where
  "valid_bucket b \<longleftrightarrow> validate_bucket_name b = Inr ()"

lemma not_ipv4: "CHR ''.'' \<notin> set name \<Longrightarrow> \<not> is_ipv4_like name"
proof -
  assume "CHR ''.'' \<notin> set name"
  then have "split_on (CHR ''.'') name = [name]" by (induction name) auto
  then show ?thesis by (simp add: is_ipv4_like_def)
qed

lemma bucket_byte_not: "bucket_byte b \<or> b = CHR ''-'' \<Longrightarrow> b \<notin> {CHR ''.'', CHR ''/'', CHR '':'', nul}"
  by (auto simp: bucket_byte_def in_range_def)

lemma valid_bucket_iff:
  "valid_bucket b \<longleftrightarrow> 3 \<le> length b \<and> length b \<le> 63 \<and> bucket_byte (hd b) \<and> bucket_byte (last b) \<and>
     (\<forall>c\<in>set b. bucket_byte c \<or> c = CHR ''-'')"
proof -
  have "is_ipv4_like b \<Longrightarrow> \<not> (\<forall>c\<in>set b. bucket_byte c \<or> c = CHR ''-'')"
    using not_ipv4 [of b] bucket_byte_not by fastforce
  then show ?thesis by (auto simp: valid_bucket_def validate_bucket_name_def list_all_iff)
qed

lemma valid_bucket_bytes: "valid_bucket b \<Longrightarrow> c \<in> set b \<Longrightarrow> c \<notin> {CHR ''.'', CHR ''/'', CHR '':'', nul}"
  using bucket_byte_not unfolding valid_bucket_iff by blast

lemma valid_bucket_nonempty: "valid_bucket b \<Longrightarrow> b \<noteq> []"
  by (auto simp: valid_bucket_iff)

lemma trimmed_path_slash [simp]: "trimmed_path (CHR ''/'' # t) = t"
  by (simp add: trimmed_path_def strip_prefix_def)

lemma set_trimmed_path: "set (trimmed_path uri) \<subseteq> set uri"
  by (auto simp: trimmed_path_def strip_prefix_def dest: in_set_dropD)

text \<open>Whatever the request, the bucket it names is valid and the key is not empty.\<close>

lemma extract_wf:
  assumes "extract_addressing host uri cfg = Inr a"
  shows "ad_bucket a = Some b \<Longrightarrow> valid_bucket b" "ad_bucket a = None \<Longrightarrow> ad_key a = None"
    "ad_key a = Some k \<Longrightarrow> k \<noteq> [] \<and> set k \<subseteq> set uri"
  using assms set_trimmed_path [of uri]
  by (auto simp: extract_addressing_def Let_def path_style_def path_to_key_def valid_bucket_def split_once_Some_iff
      split: option.splits sum.splits if_splits prod.splits)

lemma path_style_object:
  "valid_bucket b \<Longrightarrow> path_style (CHR ''/'' # b @ CHR ''/'' # k) =
     Inr \<lparr>ad_bucket = Some b, ad_key = (if k = [] then None else Some k)\<rparr>"
proof -
  assume v: "valid_bucket b"
  then have "split_once (CHR ''/'') (b @ CHR ''/'' # k) = Some (b, k)"
    using valid_bucket_bytes [OF v] by (auto simp: split_once_Some_iff)
  then show ?thesis using v by (simp add: path_style_def valid_bucket_def)
qed

lemma path_style_bucket:
  "valid_bucket b \<Longrightarrow> path_style (CHR ''/'' # b) = Inr \<lparr>ad_bucket = Some b, ad_key = None\<rparr>"
proof -
  assume v: "valid_bucket b"
  then have "split_once (CHR ''/'') b = None"
    using valid_bucket_bytes [OF v] by (auto simp: split_once_None_iff)
  then show ?thesis using v valid_bucket_nonempty [OF v] by (simp add: path_style_def valid_bucket_def)
qed

lemma strip_port_plain: "CHR '':'' \<notin> set h \<Longrightarrow> strip_port h = h"
  using split_once_None_iff [of "CHR '':''" "rev h"] by (simp add: strip_port_def rsplit_once_def)

lemma strip_port_port: "h \<noteq> [] \<Longrightarrow> CHR '':'' \<notin> set p \<Longrightarrow> strip_port (h @ CHR '':'' # p) = h"
proof -
  assume "h \<noteq> []" "CHR '':'' \<notin> set p"
  then have "split_once (CHR '':'') (rev (h @ CHR '':'' # p)) = Some (rev p, rev h)"
    by (simp add: split_once_Some_iff)
  with \<open>h \<noteq> []\<close> show ?thesis by (simp add: strip_port_def rsplit_once_def)
qed

lemma virtual_hosted_of: "valid_bucket b \<Longrightarrow> virtual_hosted_bucket (b @ CHR ''.'' # e) e = Some b"
  using valid_bucket_nonempty [of b] valid_bucket_bytes [of b "CHR ''.''"]
  by (auto simp: virtual_hosted_bucket_def strip_suffix_def suffix_def)

end
