(* ===== verification/Cors.thy ===== *)
theory Cors
  imports Calls
begin

text \<open>
  \<^verbatim>\<open>src/s3/cors.rs\<close>: the CORS configuration of a bucket, the preflight answer and the headers
  added to cross-origin responses.
\<close>

subsection \<open>Configuration handlers\<close>

definition cors_rule_of_xml :: "cors_rule_xml \<Rightarrow> cors_rule" where
  "cors_rule_of_xml r =
     \<lparr>cr_id = cx_id r, cr_allowed_origins = cx_allowed_origin r, cr_allowed_methods = cx_allowed_method r,
      cr_allowed_headers = cx_allowed_header r, cr_expose_headers = cx_expose_header r,
      cr_max_age_seconds = cx_max_age_seconds r\<rparr>"

definition xml_of_cors_rule :: "cors_rule \<Rightarrow> cors_rule_xml" where
  "xml_of_cors_rule r =
     \<lparr>cx_id = cr_id r, cx_allowed_origin = cr_allowed_origins r, cx_allowed_method = cr_allowed_methods r,
      cx_allowed_header = cr_allowed_headers r, cx_expose_header = cr_expose_headers r,
      cx_max_age_seconds = cr_max_age_seconds r\<rparr>"

definition update_cors_or_404 :: "env \<Rightarrow> string \<Rightarrow> cors_rule list \<Rightarrow> nat \<Rightarrow> response handler" where
  "update_cors_or_404 E bucket rules ok_status =
     catch (update_bucket_cors E bucket rules) (\<lambda>r.
       case r of
         Inr () \<Rightarrow> ret (empty_response ok_status)
       | Inl (BucketNotFound _) \<Rightarrow> fail (no_such_bucket bucket)
       | Inl e \<Rightarrow> fail (map_meta_err E e))"

definition put_bucket_cors :: "env \<Rightarrow> string \<Rightarrow> bytes \<Rightarrow> response handler" where
  "put_bucket_cors E bucket body =
     (case parse_cors_xml (e_crates E) body of
        Inl e \<Rightarrow>
          fail (with_resource (s3_error_new InvalidRequest
                  (''malformed CORSConfiguration body: '' @ e)) (bucket_path bucket))
      | Inr parsed \<Rightarrow> update_cors_or_404 E bucket (List.map cors_rule_of_xml (cx_rules parsed)) 200)"

definition get_bucket_cors :: "env \<Rightarrow> string \<Rightarrow> response handler" where
  "get_bucket_cors E bucket =
     bnd (meta E (get_bucket E bucket)) (\<lambda>r.
     bnd (ok_or r (no_such_bucket bucket)) (\<lambda>cfg.
     if bc_cors_rules cfg = []
     then fail (with_resource (s3_error_new NoSuchCorsConfiguration ''no CORS configuration found'')
                 (bucket_path bucket))
     else ret (xml_response (e_crates E)
            (CorsDoc \<lparr>cx_rules = List.map xml_of_cors_rule (bc_cors_rules cfg)\<rparr>))))"

definition delete_bucket_cors :: "env \<Rightarrow> string \<Rightarrow> response handler" where
  "delete_bucket_cors E bucket = update_cors_or_404 E bucket [] 204"

subsection \<open>Matching\<close>

text \<open>A pattern without a star is the origin itself; \<open>splitn(2, '*')\<close> splits at the first star.\<close>

definition origin_matches :: "string \<Rightarrow> string \<Rightarrow> bool" where
  "origin_matches allowed candidate =
     (if allowed = ''*'' then True
      else case split_once (CHR ''*'') allowed of
        None \<Rightarrow> allowed = candidate
      | Some (head, tail) \<Rightarrow>
          prefix head candidate \<and> suffix tail candidate \<and> length head + length tail \<le> length candidate)"

definition cors_rule_matches :: "cors_rule \<Rightarrow> string \<Rightarrow> string \<Rightarrow> string list \<Rightarrow> bool" where
  "cors_rule_matches rule origin mth requested \<longleftrightarrow>
     list_ex (\<lambda>a. origin_matches a origin) (cr_allowed_origins rule) \<and>
     list_ex (\<lambda>m. eq_ignore_ascii_case m mth) (cr_allowed_methods rule) \<and>
     list_all (\<lambda>h. list_ex (\<lambda>a. a = ''*'' \<or> eq_ignore_ascii_case a h) (cr_allowed_headers rule)) requested"

definition pick_rule :: "cors_rule list \<Rightarrow> string \<Rightarrow> string \<Rightarrow> string list \<Rightarrow> cors_rule option" where
  "pick_rule rules origin mth requested = find (\<lambda>r. cors_rule_matches r origin mth requested) rules"

definition echo_origin :: "cors_rule \<Rightarrow> string \<Rightarrow> string" where
  "echo_origin rule origin =
     (if list_ex (\<lambda>a. a = ''*'') (cr_allowed_origins rule) \<and> \<not> list_ex (\<lambda>a. a = origin) (cr_allowed_origins rule)
      then ''*'' else origin)"

subsection \<open>Preflight\<close>

fun join_sep :: "string \<Rightarrow> string list \<Rightarrow> string" where
  "join_sep s [] = []"
| "join_sep s [x] = x"
| "join_sep s (x # y # ys) = x @ s @ join_sep s (y # ys)"

definition requested_headers :: "crates \<Rightarrow> header_map \<Rightarrow> string list" where
  "requested_headers X hs =
     (case header_str X hs ''access-control-request-headers'' of
        None \<Rightarrow> []
      | Some s \<Rightarrow> filter (\<lambda>h. h \<noteq> []) (List.map (\<lambda>p. List.map lower (trim p)) (split_on (CHR '','') s)))"

definition preflight_response :: "crates \<Rightarrow> cors_rule \<Rightarrow> string \<Rightarrow> string list \<Rightarrow> response" where
  "preflight_response X rule origin requested =
     (let resp = set_header X ''access-control-allow-origin'' (echo_origin rule origin) (empty_response 200);
          resp = set_header X ''access-control-allow-methods'' (join_sep '', '' (cr_allowed_methods rule)) resp;
          allow = (if requested = [] then join_sep '', '' (cr_allowed_headers rule) else join_sep '', '' requested);
          resp = (if allow \<noteq> [] then set_header X ''access-control-allow-headers'' allow resp else resp);
          resp = (if cr_expose_headers rule \<noteq> []
                  then set_header X ''access-control-expose-headers'' (join_sep '', '' (cr_expose_headers rule)) resp
                  else resp);
          resp = (case cr_max_age_seconds rule of
                    Some age \<Rightarrow> set_header X ''access-control-max-age'' (show_nat age) resp | None \<Rightarrow> resp)
      in set_header X ''vary'' ''Origin, Access-Control-Request-Method, Access-Control-Request-Headers'' resp)"

definition preflight :: "env \<Rightarrow> string \<Rightarrow> header_map \<Rightarrow> response handler" where
  "preflight E bucket hs =
     (let X = e_crates E
      in bnd (ok_or (header_str X hs ''origin'')
               (s3_error_new InvalidRequest ''preflight requires Origin header'')) (\<lambda>origin.
         bnd (ok_or (header_str X hs ''access-control-request-method'')
               (s3_error_new InvalidRequest ''preflight requires Access-Control-Request-Method'')) (\<lambda>mth.
         bnd (meta E (get_bucket E bucket)) (\<lambda>r.
         bnd (ok_or r (no_such_bucket bucket)) (\<lambda>cfg.
         bnd (ok_or (pick_rule (bc_cors_rules cfg) origin mth (requested_headers X hs))
               (s3_error_new AccessForbidden ''no CORS rule matches the preflight request'')) (\<lambda>rule.
         ret (preflight_response X rule origin (requested_headers X hs))))))))"

subsection \<open>Headers of a real response\<close>

text \<open>
  A failed bucket lookup leaves the response as it is.  Nothing in the crate calls this
  function: its doc comment says that the dispatcher does.
\<close>

definition apply_response_cors ::
  "env \<Rightarrow> string option \<Rightarrow> header_map \<Rightarrow> response \<Rightarrow> string \<Rightarrow> response handler" where
  "apply_response_cors E bucket hs resp mth =
     (let X = e_crates E
      in case header_str X hs ''origin'' of
           None \<Rightarrow> ret resp
         | Some origin \<Rightarrow>
             (case bucket of
                None \<Rightarrow> ret resp
              | Some b \<Rightarrow>
                  catch (get_bucket E b) (\<lambda>r.
                    case r of
                      Inr (Some cfg) \<Rightarrow>
                        (case pick_rule (bc_cors_rules cfg) origin mth [] of
                           None \<Rightarrow> ret resp
                         | Some rule \<Rightarrow>
                             (let resp = set_header X ''access-control-allow-origin'' (echo_origin rule origin) resp;
                                  resp = (if cr_expose_headers rule \<noteq> []
                                          then set_header X ''access-control-expose-headers''
                                                 (join_sep '', '' (cr_expose_headers rule)) resp
                                          else resp)
                              in ret (set_header X ''vary'' ''Origin'' resp)))
                    | _ \<Rightarrow> ret resp)))"

subsection \<open>Facts\<close>

lemma cors_rule_of_xml_of_rule [simp]: "cors_rule_of_xml (xml_of_cors_rule r) = r"
  by (cases r) (simp add: cors_rule_of_xml_def xml_of_cors_rule_def)

text \<open>A star stands for any sequence of bytes, a slash included.\<close>

lemma origin_matches_star:
  "CHR ''*'' \<notin> set head \<Longrightarrow>
     origin_matches (head @ CHR ''*'' # tail) origin \<longleftrightarrow> (\<exists>mid. origin = head @ mid @ tail)"
proof -
  assume "CHR ''*'' \<notin> set head"
  then have split: "split_once (CHR ''*'') (head @ CHR ''*'' # tail) = Some (head, tail)"
    by (simp add: split_once_Some_iff)
  have "prefix head origin \<and> suffix tail origin \<and> length head + length tail \<le> length origin \<longleftrightarrow>
      (\<exists>mid. origin = head @ mid @ tail)"
  proof
    assume *: "prefix head origin \<and> suffix tail origin \<and> length head + length tail \<le> length origin"
    then obtain x where x: "origin = head @ x" by (auto simp: prefix_def)
    then have "suffix tail x" using * by (auto simp: suffix_append)
    then show "\<exists>mid. origin = head @ mid @ tail" using x by (auto simp: suffix_def)
  qed (auto simp: prefix_def suffix_def)
  moreover have "head @ CHR ''*'' # tail = ''*'' \<longleftrightarrow> head = [] \<and> tail = []"
    by (auto simp: append_eq_Cons_conv)
  ultimately show ?thesis using split by (auto simp: origin_matches_def)
qed

lemma origin_matches_plain: "CHR ''*'' \<notin> set allowed \<Longrightarrow> origin_matches allowed origin \<longleftrightarrow> allowed = origin"
  using split_once_None_iff [of "CHR ''*''" allowed] by (auto simp: origin_matches_def)

lemma quiet_cors [simp, intro]: "quiet (get_bucket_cors E b)" "quiet (preflight E b hs)"
  "quiet (apply_response_cors E ob hs resp mth)"
  by (auto simp: get_bucket_cors_def preflight_def apply_response_cors_def Let_def intro!: quiet_rules
      split: option.split sum.split)

end
