(* ===== verification/Dispatch.thy ===== *)
theory Dispatch
  imports Auth Addressing Cors Listing Copy
begin

text \<open>
  \<^verbatim>\<open>src/s3/dispatch.rs\<close> and \<^verbatim>\<open>src/http/router.rs\<close>: the choice of the handler for a request, the
  public routes, and the request-id middleware (\<^verbatim>\<open>src/http/middleware/request_id.rs\<close>).
\<close>

subsection \<open>The query\<close>

definition query_value :: "string \<Rightarrow> string \<Rightarrow> string option" where
  "query_value query key =
     (if query = [] then None
      else map_option (\<lambda>(_, v). percent_decode_str v)
             (find (\<lambda>(n, _). n = key) (map query_token (split_on (CHR ''&'') query))))"

definition has_query_flag :: "string \<Rightarrow> string \<Rightarrow> bool" where
  "has_query_flag query flag \<longleftrightarrow>
     query \<noteq> [] \<and>
     list_ex (\<lambda>p. (case split_once (CHR ''='') p of Some (n, _) \<Rightarrow> n | None \<Rightarrow> p) = flag) (split_on (CHR ''&'') query)"

definition parse_copy_source_header :: "crates \<Rightarrow> header_map \<Rightarrow> s3_error + copy_source" where
  "parse_copy_source_header X hs =
     (case header_str X hs ''x-amz-copy-source'' of
        None \<Rightarrow> Inl (s3_error_new InvalidArgument ''missing x-amz-copy-source header'')
      | Some raw \<Rightarrow> parse_copy_source raw)"

definition part_number_of :: "string \<Rightarrow> s3_error + nat" where
  "part_number_of s =
     (case parse_u32 s of
        None \<Rightarrow> Inl (s3_error_new InvalidArgument ''partNumber must be a number'')
      | Some n \<Rightarrow> Inr n)"

subsection \<open>Dispatch\<close>

definition not_implemented :: "response handler" where
  "not_implemented = fail (with_resource (s3_error_new NotImplemented ''operation not implemented'') [])"

text \<open>
  The arms of the \<^verbatim>\<open>match\<close> with a bucket and no key, and those with a key; the code
  interleaves the two groups, which exclude each other.
\<close>

definition handle_bucket ::
  "env \<Rightarrow> server_config \<Rightarrow> http_method \<Rightarrow> string \<Rightarrow> string \<Rightarrow> header_map \<Rightarrow> bytes \<Rightarrow> response handler" where
  "handle_bucket E cfg mth b query hs body =
     (let flag = has_query_flag query
      in if mth = PUT \<and> flag ''versioning'' then put_bucket_versioning E b body
         else if mth = GET \<and> flag ''versioning'' then get_bucket_versioning E b
         else if mth = GET \<and> flag ''location'' then get_bucket_location E b
         else if mth = GET \<and> flag ''versions'' then handler_list_object_versions E b query
         else if mth = PUT \<and> flag ''cors'' then put_bucket_cors E b body
         else if mth = GET \<and> flag ''cors'' then get_bucket_cors E b
         else if mth = DELETE \<and> flag ''cors'' then delete_bucket_cors E b
         else if mth = PUT \<and> flag ''object-lock'' then put_bucket_object_lock_config E b body
         else if mth = GET \<and> flag ''object-lock'' then get_bucket_object_lock_config E b
         else if mth = PUT \<and> flag ''lifecycle'' then put_bucket_lifecycle E b body
         else if mth = GET \<and> flag ''lifecycle'' then get_bucket_lifecycle E b
         else if mth = DELETE \<and> flag ''lifecycle'' then delete_bucket_lifecycle E b
         else if mth = OPTIONS then preflight E b hs
         else if mth = PUT then handler_create_bucket E (sc_region cfg) b hs
         else if mth = DELETE then handler_delete_bucket E b
         else if mth = HEAD then head_bucket E b
         else if mth = GET then handler_list_objects E b query
         else not_implemented)"

definition handle_object ::
  "env \<Rightarrow> http_method \<Rightarrow> string \<Rightarrow> string \<Rightarrow> string \<Rightarrow> header_map \<Rightarrow> bytes \<Rightarrow> response handler" where
  "handle_object E mth b k query hs body =
     (let flag = has_query_flag query; upload_id = query_value query ''uploadId'';
          part_number = query_value query ''partNumber''; vid = query_value query ''versionId'';
          copies = header_get hs ''x-amz-copy-source'' \<noteq> None; X = e_crates E
      in if mth = OPTIONS then preflight E b hs
         else if mth = POST \<and> flag ''uploads'' then create_multipart_upload E b k hs
         else if mth = POST \<and> upload_id \<noteq> None then complete_multipart_upload E b k (the upload_id) body
         else if mth = PUT \<and> upload_id \<noteq> None \<and> part_number \<noteq> None \<and> copies then
           bnd (lift (part_number_of (the part_number))) (\<lambda>pn.
           bnd (lift (parse_copy_source_header X hs)) (\<lambda>src.
           upload_part_copy E b k (the upload_id) pn src hs))
         else if mth = PUT \<and> upload_id \<noteq> None \<and> part_number \<noteq> None then
           bnd (lift (part_number_of (the part_number))) (\<lambda>pn.
           upload_part E b k (the upload_id) pn hs body)
         else if mth = DELETE \<and> upload_id \<noteq> None then abort_multipart_upload E b k (the upload_id)
         else if mth = GET \<and> upload_id \<noteq> None then list_parts E b k (the upload_id)
         else if mth = PUT \<and> flag ''tagging'' then put_object_tagging E b k vid body
         else if mth = GET \<and> flag ''tagging'' then get_object_tagging E b k vid
         else if mth = DELETE \<and> flag ''tagging'' then delete_object_tagging E b k vid
         else if mth = PUT \<and> flag ''retention'' then put_object_retention E b k vid body
         else if mth = GET \<and> flag ''retention'' then get_object_retention E b k vid
         else if mth = PUT \<and> flag ''legal-hold'' then put_object_legal_hold E b k vid body
         else if mth = GET \<and> flag ''legal-hold'' then get_object_legal_hold E b k vid
         else if mth = PUT \<and> copies then
           bnd (lift (parse_copy_source_header X hs)) (\<lambda>src. copy_object E b k src hs)
         else if mth = PUT then put_object E b k hs body
         else if mth = GET then get_or_head_object E b k vid hs False
         else if mth = HEAD then
           bnd (get_or_head_object E b k vid hs True) (\<lambda>resp. ret (resp\<lparr>rs_body := NoBody\<rparr>))
         else if mth = DELETE then delete_object E b k vid
         else not_implemented)"

definition handle_request ::
  "env \<Rightarrow> server_config \<Rightarrow> http_method \<Rightarrow> addressing \<Rightarrow> string \<Rightarrow> header_map \<Rightarrow> bytes \<Rightarrow> response handler" where
  "handle_request E cfg mth ad query hs body =
     (case ad_bucket ad of
        None \<Rightarrow> (if mth = GET then handler_list_buckets E else not_implemented)
      | Some b \<Rightarrow>
          (case ad_key ad of
             None \<Rightarrow> handle_bucket E cfg mth b query hs body
           | Some k \<Rightarrow> handle_object E mth b k query hs body))"

definition decorate :: "s3_error \<Rightarrow> request_id option \<Rightarrow> string \<Rightarrow> s3_error" where
  "decorate e rid path =
     (let e = (if se_resource e = None then with_resource e path else e)
      in case rid of Some i \<Rightarrow> with_request_id e i | None \<Rightarrow> e)"

definition respond :: "crates \<Rightarrow> (s3_error \<Rightarrow> s3_error) \<Rightarrow> response handler \<Rightarrow> response handler" where
  "respond X f m = catch m (\<lambda>r. case r of Inr resp \<Rightarrow> ret resp | Inl e \<Rightarrow> ret (error_response X (f e)))"

definition dispatch :: "env \<Rightarrow> server_config \<Rightarrow> request_id option \<Rightarrow> http_request \<Rightarrow> response handler" where
  "dispatch E cfg rid rq =
     (let X = e_crates E; query = (case rq_query rq of Some q \<Rightarrow> q | None \<Rightarrow> [])
      in respond X (\<lambda>e. decorate e rid (rq_path rq))
           (bnd (lift (extract_addressing (header_str X (rq_headers rq) ''host'') (rq_path rq) cfg)) (\<lambda>ad.
            bnd (ok_or (to_bytes (rq_body rq) (sc_max_signed_body_bytes cfg))
                   (s3_error_new InvalidRequest ''request body too large'')) (\<lambda>body.
            handle_request E cfg (rq_method rq) ad query (rq_headers rq) body))))"

subsection \<open>Request ids\<close>

text \<open>\<^verbatim>\<open>generate\<close>, from the 8 and the 32 bytes of the random number generator.\<close>

definition generate_request_id :: "crates \<Rightarrow> bytes \<Rightarrow> bytes \<Rightarrow> request_id" where
  "generate_request_id X req_bytes host_bytes =
     \<lparr>ri_request_id = hex_encode X req_bytes, ri_host_id = base64_encode X host_bytes\<rparr>"

definition echo_id :: "crates \<Rightarrow> string \<Rightarrow> string \<Rightarrow> response \<Rightarrow> response" where
  "echo_id X n v resp =
     (if \<not> list_ex (\<lambda>e. fst e = n) (rs_headers resp) \<and> header_value_ok X v then insert_header n v resp else resp)"

definition request_id_mw ::
  "crates \<Rightarrow> request_id \<Rightarrow> (request_id option \<Rightarrow> http_request \<Rightarrow> response handler) \<Rightarrow> http_request \<Rightarrow> response handler" where
  "request_id_mw X rid nxt rq =
     bnd (nxt (Some rid) rq) (\<lambda>resp.
     ret (echo_id X ''x-amz-id-2'' (ri_host_id rid) (echo_id X ''x-amz-request-id'' (ri_request_id rid) resp)))"

subsection \<open>The router\<close>

definition nl :: string where "nl = [CHR 0x0A]"

definition metrics_text :: "nat option \<Rightarrow> nat option \<Rightarrow> string \<Rightarrow> string" where
  "metrics_text nb nd version =
     ''# HELP s3lite_buckets_total Number of buckets currently present.'' @ nl @
     ''# TYPE s3lite_buckets_total gauge'' @ nl @
     ''s3lite_buckets_total '' @ show_nat (case nb of Some n \<Rightarrow> n | None \<Rightarrow> 0) @ nl @
     ''# HELP s3lite_dlq_entries_total Number of failed webhook deliveries queued for inspection.'' @ nl @
     ''# TYPE s3lite_dlq_entries_total gauge'' @ nl @
     ''s3lite_dlq_entries_total '' @ show_nat (case nd of Some n \<Rightarrow> n | None \<Rightarrow> 0) @ nl @
     ''# HELP s3lite_build_info Build identification for the running binary.'' @ nl @
     ''# TYPE s3lite_build_info gauge'' @ nl @
     ''s3lite_build_info{version=\"'' @ version @ ''\"} 1'' @ nl"

definition count_or_none :: "(meta_error, 'a list) action \<Rightarrow> (s3_error, nat option) action" where
  "count_or_none m w =
     (case m w of
        (Ok v, w') \<Rightarrow> (Ok (Some (length v)), w')
      | (Err _, w') \<Rightarrow> (Ok None, w')
      | (Panic, w') \<Rightarrow> (Panic, w'))"

definition metrics_handler :: "env \<Rightarrow> response handler" where
  "metrics_handler E =
     bnd (count_or_none (list_buckets E)) (\<lambda>nb.
     bnd (count_or_none (list_dlq E)) (\<lambda>nd.
     ret (insert_header ''content-type'' ''text/plain; version=0.0.4''
       \<lparr>rs_status = 200, rs_headers = [], rs_body = BodyBytes (metrics_text nb nd ''0.1.0'')\<rparr>)))"

definition health_handler :: "response handler" where
  "health_handler =
     ret (insert_header ''content-type'' ''text/plain; charset=utf-8''
       \<lparr>rs_status = 200, rs_headers = [], rs_body = BodyBytes ''ok''\<rparr>)"

text \<open>
  \<^verbatim>\<open>build_app\<close>.  A route made with \<^verbatim>\<open>get(handler)\<close> answers GET, answers HEAD with the body
  dropped, and answers any other method with 405; all other paths fall back to the
  authenticated dispatcher.  An error of the middleware becomes its response.
\<close>

definition get_route :: "response handler \<Rightarrow> http_method \<Rightarrow> response handler" where
  "get_route h mth =
     (if mth = GET then h
      else if mth = HEAD then bnd h (\<lambda>resp. ret (resp\<lparr>rs_body := NoBody\<rparr>))
      else ret (insert_header ''allow'' ''GET,HEAD'' (empty_response 405)))"

definition s3_service :: "env \<Rightarrow> auth_lib \<Rightarrow> server_config \<Rightarrow> request_id option \<Rightarrow> http_request \<Rightarrow> response handler" where
  "s3_service E A cfg rid rq =
     respond (e_crates E) id (sigv4_mw E A cfg rid (\<lambda>_. dispatch E cfg rid) rq)"

definition build_app :: "env \<Rightarrow> auth_lib \<Rightarrow> server_config \<Rightarrow> request_id \<Rightarrow> http_request \<Rightarrow> response handler" where
  "build_app E A cfg rid =
     request_id_mw (e_crates E) rid (\<lambda>rid rq.
       if rq_path rq = ''/health'' then get_route health_handler (rq_method rq)
       else if rq_path rq = ''/metrics'' then get_route (metrics_handler E) (rq_method rq)
       else s3_service E A cfg rid rq)"

end
