(* ===== verification/Events.thy ===== *)
theory Events
  imports Config Calls "HOL-Library.Word"
begin

text \<open>
  \<^verbatim>\<open>src/s3/events.rs\<close>: which webhooks an event is sent to, its payload, the delivery with one
  retry, the address policy, and the dead-letter queue.  \<open>emit\<close> of theory \<^theory_text>\<open>World\<close> only
  records that a handler handed an event over; \<open>emit_tasks\<close> is what the call spawns for it, and
  a task runs \<open>deliver_with_retry\<close> at some later time.
\<close>

unbundle bit_operations_syntax

subsection \<open>Subscriptions\<close>

definition matches_subscription :: "webhook_subscription \<Rightarrow> object_event \<Rightarrow> bool" where
  "matches_subscription sub ev =
     (if ws_bucket sub \<noteq> [] \<and> ws_bucket sub \<noteq> oe_bucket ev then False
      else if ws_events sub \<noteq> [] \<and> oe_type ev \<notin> set (ws_events sub) then False
      else if (case ws_prefix sub of Some p \<Rightarrow> \<not> prefix p (oe_key ev) | None \<Rightarrow> False) then False
      else if (case ws_suffix sub of Some s \<Rightarrow> \<not> suffix s (oe_key ev) | None \<Rightarrow> False) then False
      else True)"

subsection \<open>The payload\<close>

record event_record =
  er_event_version :: string
  er_event_source :: string
  er_aws_region :: string
  er_event_time :: string
  er_event_name :: string
  er_schema_version :: string
  er_bucket_name :: string
  er_bucket_arn :: string
  er_object_key :: string
  er_object_size :: nat
  er_object_etag :: string
  er_object_version_id :: "string option"
  er_object_sequencer :: string

record dlq_record =
  dq_url :: string
  dq_payload :: string
  dq_last_error :: string
  dq_attempted_at :: string

subsection \<open>Addresses\<close>

datatype ip_addr = V4 "32 word" | V6 "128 word"

record parsed_url =
  pu_scheme :: string
  pu_host :: "string option"
  pu_port_or_known_default :: "nat option"

text \<open>
  The third-party libraries and the network: URL parsing, JSON and \<^verbatim>\<open>bincode\<close> text, the HTTP
  client, name lookup and requests.  What depends on the moment is numbered by the call.
\<close>

record net =
  nt_url :: "string \<Rightarrow> parsed_url option"
  nt_json :: "event_record list \<Rightarrow> string + string"     \<comment> \<open>\<^verbatim>\<open>serde_json::to_string(&EventPayload { records })\<close>\<close>
  nt_dlq_bytes :: "dlq_record \<Rightarrow> string + bytes"
  nt_dlq_of_bytes :: "bytes \<Rightarrow> string + dlq_record"
  nt_client_ok :: "nat \<Rightarrow> bool"
  nt_lookup :: "nat \<Rightarrow> string \<Rightarrow> nat \<Rightarrow> ip_addr list option"
  nt_post :: "nat \<Rightarrow> string \<Rightarrow> string \<Rightarrow> string + (bool \<times> string)"  \<comment> \<open>an error text, or success and status text\<close>

text \<open>\<^verbatim>\<open>std::net\<close>: octets, segments, and the predicates on addresses.\<close>

definition octet0 :: "32 word \<Rightarrow> nat" where "octet0 a = unat (drop_bit 24 a)"

definition octet1 :: "32 word \<Rightarrow> nat" where "octet1 a = unat (take_bit 8 (drop_bit 16 a))"

definition segment0 :: "128 word \<Rightarrow> 16 word" where "segment0 a = ucast (drop_bit 112 a)"

fun is_loopback :: "ip_addr \<Rightarrow> bool" where
  "is_loopback (V4 a) = (octet0 a = 127)"
| "is_loopback (V6 a) = (a = 1)"

fun is_unspecified :: "ip_addr \<Rightarrow> bool" where
  "is_unspecified (V4 a) = (a = 0)"
| "is_unspecified (V6 a) = (a = 0)"

fun is_multicast :: "ip_addr \<Rightarrow> bool" where
  "is_multicast (V4 a) = (224 \<le> octet0 a \<and> octet0 a \<le> 239)"
| "is_multicast (V6 a) = (segment0 a AND 0xFF00 = 0xFF00)"

definition is_private :: "32 word \<Rightarrow> bool" where
  "is_private a \<longleftrightarrow> octet0 a = 10 \<or> (octet0 a = 172 \<and> 16 \<le> octet1 a \<and> octet1 a \<le> 31) \<or>
     (octet0 a = 192 \<and> octet1 a = 168)"

definition is_link_local :: "32 word \<Rightarrow> bool" where
  "is_link_local a \<longleftrightarrow> octet0 a = 169 \<and> octet1 a = 254"

definition ip_allowed :: "ip_addr \<Rightarrow> bool \<Rightarrow> bool" where
  "ip_allowed ip allow_loopback =
     (if is_loopback ip then allow_loopback
      else if is_unspecified ip \<or> is_multicast ip then False
      else case ip of
        V4 a \<Rightarrow> \<not> (is_private a \<or> is_link_local a \<or> octet0 a = 100)
      | V6 a \<Rightarrow>
          (let first = segment0 a
           in \<not> (first AND 0xFE00 = 0xFC00 \<or> first AND 0xFFC0 = 0xFE80)))"

subsection \<open>Emission\<close>

definition event_record_of :: "server_config \<Rightarrow> string \<Rightarrow> string \<Rightarrow> object_event \<Rightarrow> event_record" where
  "event_record_of cfg time sequencer ev =
     \<lparr>er_event_version = ''2.1'', er_event_source = ''s3lite'', er_aws_region = sc_region cfg,
      er_event_time = time, er_event_name = event_str (oe_type ev), er_schema_version = ''1.0'',
      er_bucket_name = oe_bucket ev, er_bucket_arn = ''arn:s3lite:::'' @ oe_bucket ev,
      er_object_key = oe_key ev, er_object_size = oe_size ev, er_object_etag = oe_etag ev,
      er_object_version_id = oe_version_id ev, er_object_sequencer = sequencer\<rparr>"

definition build_payload :: "env \<Rightarrow> net \<Rightarrow> server_config \<Rightarrow> object_event \<Rightarrow> (string, string) action" where
  "build_payload E N cfg ev =
     bnd (now_utc E) (\<lambda>now.
     bnd (new_uuid E) (\<lambda>seq.
     lift (nt_json N [event_record_of cfg (format_rfc3339 (e_crates E) now) seq ev])))"

text \<open>A spawned task: the arguments of \<^verbatim>\<open>deliver_with_retry\<close>.\<close>

record delivery_task =
  dt_url :: string
  dt_payload :: string
  dt_allow_loopback :: bool

definition emit_tasks :: "env \<Rightarrow> net \<Rightarrow> server_config \<Rightarrow> object_event \<Rightarrow> ('e, delivery_task list) action" where
  "emit_tasks E N cfg ev =
     (let subs = filter (\<lambda>s. matches_subscription s ev) (sc_webhook_subscriptions cfg)
      in if subs = [] then ret []
         else catch (build_payload E N cfg ev) (\<lambda>r.
           case r of
             Inl _ \<Rightarrow> ret []
           | Inr p \<Rightarrow> ret (map (\<lambda>s. \<lparr>dt_url = ws_url s, dt_payload = p,
                                    dt_allow_loopback = sc_allow_loopback_webhooks cfg\<rparr>) subs)))"

subsection \<open>Delivery\<close>

text \<open>A task has no caller: it cannot fail, so its error type is \<^typ>\<open>unit\<close>.\<close>

definition lookup_host :: "net \<Rightarrow> string \<Rightarrow> nat \<Rightarrow> (unit, ip_addr list option) action" where
  "lookup_host N host port w = (Ok (nt_lookup N (w_tick w) host port), tick w)"

definition ssrf_safe :: "net \<Rightarrow> string \<Rightarrow> bool \<Rightarrow> (unit, bool) action" where
  "ssrf_safe N url allow_loopback =
     (case nt_url N url of
        None \<Rightarrow> ret False
      | Some parsed \<Rightarrow>
          (if pu_scheme parsed \<noteq> ''http'' \<and> pu_scheme parsed \<noteq> ''https'' then ret False
           else case pu_host parsed of
             None \<Rightarrow> ret False
           | Some host \<Rightarrow>
               bnd (lookup_host N host (case pu_port_or_known_default parsed of Some p \<Rightarrow> p | None \<Rightarrow> 80)) (\<lambda>found.
               ret (case found of
                      None \<Rightarrow> False
                    | Some ips \<Rightarrow> list_all (\<lambda>ip. ip_allowed ip allow_loopback) ips))))"

definition post :: "net \<Rightarrow> string \<Rightarrow> string \<Rightarrow> (unit, string + (bool \<times> string)) action" where
  "post N url payload w = (Ok (nt_post N (w_tick w) url payload), tick w)"

text \<open>How the loop ends, with the number of requests that were sent.\<close>

datatype delivery = Delivered nat | GaveUp nat "string option"

fun delivery_loop ::
  "net \<Rightarrow> string \<Rightarrow> string \<Rightarrow> bool \<Rightarrow> nat \<Rightarrow> nat \<Rightarrow> string option \<Rightarrow> (unit, delivery) action" where
  "delivery_loop N url payload lb 0 sent last_error = ret (GaveUp sent last_error)"
| "delivery_loop N url payload lb (Suc left) sent last_error =
     bnd (ssrf_safe N url lb) (\<lambda>safe.
     if \<not> safe then ret (GaveUp sent (Some (''blocked by SSRF policy: '' @ url)))
     else bnd (post N url payload) (\<lambda>r.
       case r of
         Inr (success, st) \<Rightarrow>
           (if success then ret (Delivered (Suc sent))
            else delivery_loop N url payload lb left (Suc sent) (Some (''HTTP '' @ st)))
       | Inl e \<Rightarrow> delivery_loop N url payload lb left (Suc sent) (Some (''transport error: '' @ e))))"

definition max_retries :: nat where "max_retries = 1"

text \<open>The number of requests sent; a failure to record the failure is only logged.\<close>

definition deliver_with_retry :: "env \<Rightarrow> net \<Rightarrow> delivery_task \<Rightarrow> (unit, nat) action" where
  "deliver_with_retry E N t w =
     (if \<not> nt_client_ok N (w_tick w) then (Ok 0, tick w)
      else bnd (delivery_loop N (dt_url t) (dt_payload t) (dt_allow_loopback t) (Suc max_retries) 0 None) (\<lambda>d.
           case d of
             Delivered sent \<Rightarrow> ret sent
           | GaveUp sent last_error \<Rightarrow>
               bnd (now_utc E) (\<lambda>now.
               case nt_dlq_bytes N
                      \<lparr>dq_url = dt_url t, dq_payload = dt_payload t,
                       dq_last_error = (case last_error of Some e \<Rightarrow> e | None \<Rightarrow> ''unknown''),
                       dq_attempted_at = format_rfc3339 (e_crates E) now\<rparr> of
                 Inl _ \<Rightarrow> ret sent
               | Inr entry \<Rightarrow> catch (insert_dlq_entry E entry) (\<lambda>_. ret sent))) (tick w))"

definition decode_dlq_entry :: "net \<Rightarrow> bytes \<Rightarrow> string + dlq_record" where
  "decode_dlq_entry N entry =
     (case nt_dlq_of_bytes N entry of
        Inl e \<Rightarrow> Inl e
      | Inr rec \<Rightarrow>
          Inr \<lparr>dq_url = dq_url rec, dq_payload = dq_payload rec, dq_last_error = dq_last_error rec,
               dq_attempted_at = dq_attempted_at rec\<rparr>)"

end
