(* ===== verification/EventProps.thy ===== *)
theory EventProps
  imports Events
begin

text \<open>
  Webhooks: the address policy as address ranges, delivery never sends to a host with a
  forbidden address, and a failed delivery ends in the dead-letter queue without touching
  older entries.
\<close>

subsection \<open>Address ranges\<close>

text \<open>The addresses of a prefix: \<open>a.b.0.0/n\<close> as the first and the last number.\<close>

definition within :: "nat \<Rightarrow> nat \<Rightarrow> nat \<Rightarrow> bool" where
  "within lo hi n \<longleftrightarrow> lo \<le> n \<and> n \<le> hi"

lemma div_eq_within: "0 < d \<Longrightarrow> n div d = k \<longleftrightarrow> within (k * d) (k * d + (d - 1)) n" for d n k :: nat
proof
  assume "0 < d" "n div d = k"
  then show "within (k * d) (k * d + (d - 1)) n"
    using mod_less_divisor [OF \<open>0 < d\<close>, of n] div_mult_mod_eq [of n d] unfolding within_def \<open>n div d = k\<close> by linarith
next
  assume "0 < d" "within (k * d) (k * d + (d - 1)) n"
  then show "n div d = k" by (auto simp: within_def mult.commute intro!: div_nat_eqI)
qed

lemma octet0_div: "octet0 a = unat a div 16777216"
  using unat_drop_bit_eq [of 24 a] by (simp add: octet0_def drop_bit_eq_div [of 24 "unat a"])

lemma octet1_div: "octet1 a = unat a div 65536 mod 256"
proof -
  have "octet1 a = take_bit 8 (unat (drop_bit 16 a))" unfolding octet1_def by (rule unsigned_take_bit_eq)
  also have "\<dots> = unat a div 65536 mod 256"
    using unat_drop_bit_eq [of 16 a] drop_bit_eq_div [of 16 "unat a"] by (simp add: take_bit_eq_mod)
  finally show ?thesis .
qed

text \<open>The first two octets together are the upper half of the address.\<close>

lemma octets_half: "octet0 a * 256 + octet1 a = unat a div 65536"
proof -
  have "unat a div 16777216 = unat a div 65536 div 256" by (simp add: div_mult2_eq [symmetric])
  then show ?thesis by (simp add: octet0_div octet1_div)
qed

lemma two_digits: "r < 256 \<Longrightarrow> j < 256 \<Longrightarrow> q * 256 + r = i * 256 + j \<longleftrightarrow> q = i \<and> r = (j :: nat)"
proof
  assume "r < 256" "j < 256" "q * 256 + r = i * 256 + j"
  then have "(q * 256 + r) div 256 = (i * 256 + j) div 256" "(q * 256 + r) mod 256 = (i * 256 + j) mod 256" by simp_all
  with \<open>r < 256\<close> \<open>j < 256\<close> show "q = i \<and> r = j" by simp
qed simp

lemma octets_iff: "j < 256 \<Longrightarrow> octet0 a = i \<and> octet1 a = j \<longleftrightarrow> unat a div 65536 = i * 256 + j"
proof -
  assume "j < 256"
  moreover have "octet1 a < 256" by (simp add: octet1_div)
  ultimately show ?thesis using octets_half [of a, symmetric] by (simp add: two_digits)
qed

lemma private_ranges:
  "is_private a \<longleftrightarrow> within 0x0A000000 0x0AFFFFFF (unat a) \<or> within 0xAC100000 0xAC1FFFFF (unat a) \<or>
     within 0xC0A80000 0xC0A8FFFF (unat a)"
proof -
  have "octet1 a < 256" by (simp add: octet1_div)
  then have "octet0 a = 172 \<and> 16 \<le> octet1 a \<and> octet1 a \<le> 31 \<longleftrightarrow>
      44048 \<le> octet0 a * 256 + octet1 a \<and> octet0 a * 256 + octet1 a \<le> 44063"
    by (cases "octet0 a" "172 :: nat" rule: linorder_cases) auto
  also have "\<dots> \<longleftrightarrow> within 0xAC100000 0xAC1FFFFF (unat a)" by (auto simp: octets_half within_def)
  finally show ?thesis
    using octets_iff [of 168 a 192] by (simp add: is_private_def octet0_div div_eq_within)
qed

lemma link_local_range: "is_link_local a \<longleftrightarrow> within 0xA9FE0000 0xA9FEFFFF (unat a)"
  using octets_iff [of 254 a 169] by (simp add: is_link_local_def div_eq_within)

text \<open>
  C38.  The address policy for IPv4 in terms of address ranges: an address passes unless it is
  unspecified, private (10/8, 172.16/12, 192.168/16), link-local (169.254/16), multicast
  (224/4), or anywhere in 100/8 (the comment names only carrier-grade NAT, 100.64/10); a
  loopback address (127/8) passes exactly when loopback webhooks are allowed.
\<close>

theorem ipv4_policy_ranges:
  "ip_allowed (V4 a) lb \<longleftrightarrow>
     (if within 0x7F000000 0x7FFFFFFF (unat a) then lb
      else unat a \<noteq> 0 \<and> \<not> within 0x0A000000 0x0AFFFFFF (unat a) \<and> \<not> within 0x64000000 0x64FFFFFF (unat a) \<and>
        \<not> within 0xA9FE0000 0xA9FEFFFF (unat a) \<and> \<not> within 0xAC100000 0xAC1FFFFF (unat a) \<and>
        \<not> within 0xC0A80000 0xC0A8FFFF (unat a) \<and> \<not> within 0xE0000000 0xEFFFFFFF (unat a))"
proof -
  have "224 \<le> octet0 a \<and> octet0 a \<le> 239 \<longleftrightarrow> within 0xE0000000 0xEFFFFFFF (unat a)"
    by (auto simp: octet0_div within_def)
  moreover have "a = 0 \<longleftrightarrow> unat a = 0" by (simp add: unat_eq_0)
  ultimately show ?thesis
    by (auto simp: ip_allowed_def private_ranges link_local_range octet0_div div_eq_within)
qed

lemma low_v6_allowed: "drop_bit 112 m = 0 \<Longrightarrow> m \<noteq> 0 \<Longrightarrow> m \<noteq> 1 \<Longrightarrow> ip_allowed (V6 m) False"
  by (simp add: ip_allowed_def segment0_def Let_def)

text \<open>
  C39.  The policy misses the IPv4 addresses that come as IPv6 addresses: every IPv4-mapped
  address \<^verbatim>\<open>::ffff:a.b.c.d\<close>, the mapped loopback and private ones included, passes with loopback
  webhooks off.
\<close>

theorem mapped_addresses_pass: "ip_allowed (V6 (push_bit 32 0xFFFF OR ucast (a :: 32 word))) False"
proof -
  let ?m = "push_bit 32 0xFFFF OR ucast a :: 128 word"
  have top: "drop_bit 112 ?m = 0"
    by (rule bit_word_eqI) (auto simp: bit_simps dest: bit_imp_le_length)
  have "bit ?m 32" by (simp only: bit_or_iff bit_push_bit_iff) simp
  moreover have "\<not> bit (0 :: 128 word) 32" "\<not> bit (1 :: 128 word) 32" by (simp_all add: bit_1_iff)
  ultimately have "?m \<noteq> 0" "?m \<noteq> 1" by metis+
  with top show ?thesis by (rule low_v6_allowed)
qed

subsection \<open>Delivery\<close>

lemma quiet_net [simp, intro]: "quiet (lookup_host N h p)" "quiet (post N url payload)"
  by (rule quietI; simp add: lookup_host_def post_def)+

lemma quiet_ssrf [simp, intro]: "quiet (ssrf_safe N url lb)"
  by (auto simp: ssrf_safe_def intro!: quiet_bnd split: option.split)

lemma quiet_loop [simp, intro]: "quiet (delivery_loop N url payload lb left sent e)"
  by (induction left arbitrary: sent e) (auto intro!: quiet_bnd split: sum.split)

text \<open>The number of requests a loop reports.\<close>

fun sent_of :: "delivery \<Rightarrow> nat" where
  "sent_of (Delivered n) = n"
| "sent_of (GaveUp n e) = n"

lemma ssrf_safe_total: "\<exists>b w'. ssrf_safe N url lb w = (Ok b, w' :: world)"
  by (auto simp: ssrf_safe_def lookup_host_def bnd_def ret_def split: option.split)

lemma loop_total:
  "\<exists>d w'. (delivery_loop N url payload lb left sent e) w = (Ok d, w') \<and> sent_of d \<le> sent + left"
proof (induction left arbitrary: sent e w)
  case 0
  show ?case by (simp add: ret_def)
next
  case (Suc left)
  obtain b w1 where safe: "ssrf_safe N url lb w = (Ok b, w1)" using ssrf_safe_total by blast
  have "\<exists>d w'. (delivery_loop N url payload lb left (Suc sent) e') w2 = (Ok d, w') \<and>
      sent_of d \<le> sent + Suc left" for e' w2
    using Suc [of "Suc sent" e' w2] by simp
  then show ?case
    by (cases b) (auto simp: bnd_def [of "ssrf_safe N url lb"] bnd_def [of "post N url payload"] safe post_def ret_def
        split: sum.split)
qed

text \<open>What a recorded failure does to the queue.\<close>

definition next_dlq_id :: "db \<Rightarrow> nat" where
  "next_dlq_id d = (case events_dlq d of [] \<Rightarrow> 1 | es \<Rightarrow> (fst (last es) + 1) mod u64_mod)"

definition queued :: "db \<Rightarrow> bytes \<Rightarrow> db" where
  "queued d entry = d\<lparr>events_dlq := tbl_insert (events_dlq d) (next_dlq_id d) entry\<rparr>"

lemma insert_dlq_queued: "handle_insert_dlq d entry = Inr (next_dlq_id d, queued d entry)"
  by (simp add: handle_insert_dlq_def next_dlq_id_def queued_def tbl_iter_def Let_def)

lemma last_is_greatest:
  assumes "tbl_ok t" and "tbl_get t k = Some v"
  shows "t \<noteq> [] \<and> k \<le> fst (last t)"
proof -
  have mem: "(k, v) \<in> set t" using assms(2) by (auto simp: tbl_get_def dest: map_of_SomeD)
  moreover have "\<forall>e\<in>set t. fst e \<le> fst (last t)"
    using assms(1) by (induction t) (auto simp: tbl_ok_def intro: less_imp_le)
  ultimately show ?thesis by force
qed

lemma next_dlq_fresh:
  assumes "tbl_ok (events_dlq d)" and "\<forall>id e. tbl_get (events_dlq d) id = Some e \<longrightarrow> id < u64_mod - 1"
  shows "tbl_get (events_dlq d) (next_dlq_id d) = None"
proof (rule ccontr)
  assume "tbl_get (events_dlq d) (next_dlq_id d) \<noteq> None"
  then obtain v where v: "tbl_get (events_dlq d) (next_dlq_id d) = Some v" by blast
  note le = last_is_greatest [OF assms(1) v]
  then have l: "last (events_dlq d) \<in> set (events_dlq d)" by simp
  have "tbl_get (events_dlq d) (fst (last (events_dlq d))) = Some (snd (last (events_dlq d)))"
    using l assms(1) by (simp add: tbl_get_def tbl_ok_def strict_sorted_iff map_of_is_SomeI)
  then have "fst (last (events_dlq d)) + 1 < u64_mod" using assms(2) by force
  then show False using le by (auto simp: next_dlq_id_def split: list.splits)
qed

lemma queued_sel [simp]:
  "objects (queued d e) = objects d" "parts (queued d e) = parts d" "buckets (queued d e) = buckets d"
  by (simp_all add: queued_def)

lemma deliver_effect:
  "\<exists>sent n. sent \<le> 2 \<and> (deliver_with_retry E N t w = (Ok sent, w\<lparr>w_tick := n\<rparr>) \<or>
     (\<exists>entry. deliver_with_retry E N t w = (Ok sent, w\<lparr>w_tick := n, w_db := queued (w_db w) entry\<rparr>)))"
proof (cases "nt_client_ok N (w_tick w)")
  case False
  then show ?thesis by (auto simp: deliver_with_retry_def tick_def)
next
  case True
  let ?loop = "delivery_loop N (dt_url t) (dt_payload t) (dt_allow_loopback t) (Suc max_retries) 0 None"
  obtain d w1 where loop: "?loop (tick w) = (Ok d, w1)" and d: "sent_of d \<le> 2"
    using loop_total [of N "dt_url t" "dt_payload t" "dt_allow_loopback t" "Suc max_retries" 0 None "tick w"]
    by (auto simp: max_retries_def simp del: delivery_loop.simps)
  obtain n where w1: "w1 = w\<lparr>w_tick := n\<rparr>"
    using quiet_loop [of N "dt_url t" "dt_payload t" "dt_allow_loopback t" "Suc max_retries" 0 None] loop
    by (auto simp: quiet_def tick_def simp del: delivery_loop.simps dest: spec [of _ "tick w"])
  show ?thesis
  proof (cases d)
    case (Delivered k)
    then show ?thesis using True loop d w1 by (auto simp: deliver_with_retry_def bnd_def ret_def simp del: delivery_loop.simps)
  next
    case (GaveUp k e)
    then show ?thesis
      using True loop d w1
      by (auto simp: deliver_with_retry_def bnd_def ret_def now_utc_def tick_def catch_def write_eqs write_result_def
          insert_dlq_queued simp del: delivery_loop.simps split: sum.split option.split)
  qed
qed

text \<open>
  C26.  A delivery sends at most two requests, cannot fail or panic, leaves objects, part rows,
  buckets and files as they are, and keeps every entry of the dead-letter queue (as long as the
  64-bit entry ids do not wrap).
\<close>

theorem delivery_bounded_keeps_queue:
  assumes "tbl_ok (events_dlq (w_db w))" and "\<forall>id e. tbl_get (events_dlq (w_db w)) id = Some e \<longrightarrow> id < u64_mod - 1"
  shows "\<exists>sent w'. deliver_with_retry E N t w = (Ok sent, w') \<and> sent \<le> 2 \<and>
     objects (w_db w') = objects (w_db w) \<and> parts (w_db w') = parts (w_db w) \<and> buckets (w_db w') = buckets (w_db w) \<and>
     w_blobs w' = w_blobs w \<and>
     (\<forall>id e. tbl_get (events_dlq (w_db w)) id = Some e \<longrightarrow> tbl_get (events_dlq (w_db w')) id = Some e)"
  using deliver_effect [of E N t w] next_dlq_fresh [OF assms] by (auto simp: queued_def)

text \<open>When every request fails, the loop gives up.\<close>

definition never_succeeds :: "net \<Rightarrow> string \<Rightarrow> string \<Rightarrow> bool" where
  "never_succeeds N url payload \<longleftrightarrow> (\<forall>n st. nt_post N n url payload \<noteq> Inr (True, st))"

lemma loop_gives_up:
  "never_succeeds N url payload \<Longrightarrow> \<exists>k e w'. delivery_loop N url payload lb left sent e0 w = (Ok (GaveUp k e), w')"
proof (induction left arbitrary: sent e0 w)
  case (Suc left)
  obtain b w1 where safe: "ssrf_safe N url lb w = (Ok b, w1)" using ssrf_safe_total by blast
  show ?case
    using Suc by (cases b; cases "nt_post N (w_tick w1) url payload")
      (auto simp: bnd_def [of "ssrf_safe N url lb"] bnd_def [of "post N url payload"] safe post_def ret_def never_succeeds_def)
qed (simp add: ret_def)

text \<open>
  C27.  A delivery that does not succeed is recorded: when no request is answered with success
  and the store accepts the write, the dead-letter queue gets one new entry, under an id that
  was not used, with the URL and the payload of the delivery.
\<close>

theorem failed_delivery_recorded:
  assumes "never_succeeds N (dt_url t) (dt_payload t)" and "\<forall>n. nt_client_ok N n" and "\<forall>n. e_meta_fault E n = None"
    and "\<forall>r. \<exists>entry. nt_dlq_bytes N r = Inr entry"
    and "tbl_ok (events_dlq (w_db w))" and "\<forall>id e. tbl_get (events_dlq (w_db w)) id = Some e \<longrightarrow> id < u64_mod - 1"
  shows "\<exists>sent w' r entry id. deliver_with_retry E N t w = (Ok sent, w') \<and>
     tbl_get (events_dlq (w_db w)) id = None \<and> events_dlq (w_db w') = tbl_insert (events_dlq (w_db w)) id entry \<and>
     nt_dlq_bytes N r = Inr entry \<and> dq_url r = dt_url t \<and> dq_payload r = dt_payload t"
proof -
  let ?loop = "delivery_loop N (dt_url t) (dt_payload t) (dt_allow_loopback t) (Suc max_retries) 0 None"
  obtain k e w1 where loop: "?loop (tick w) = (Ok (GaveUp k e), w1)"
    using loop_gives_up [OF assms(1)] by blast
  then have db: "w_db w1 = w_db w"
    using quiet_Ok(1) [OF quiet_loop loop] by simp
  let ?r = "\<lparr>dq_url = dt_url t, dq_payload = dt_payload t, dq_last_error = (case e of Some x \<Rightarrow> x | None \<Rightarrow> ''unknown''),
      dq_attempted_at = format_rfc3339 (e_crates E) (e_clock E (w_tick w1))\<rparr>"
  obtain entry where entry: "nt_dlq_bytes N ?r = Inr entry" using assms(4) by blast
  have "\<exists>w'. deliver_with_retry E N t w = (Ok k, w') \<and> w_db w' = queued (w_db w) entry"
    using loop assms(2,3) entry db
    by (simp add: deliver_with_retry_def bnd_def ret_def now_utc_def catch_def write_eqs write_result_def
        insert_dlq_queued del: delivery_loop.simps)
  then obtain w' where "deliver_with_retry E N t w = (Ok k, w')" "w_db w' = queued (w_db w) entry" by blast
  then show ?thesis
    using next_dlq_fresh [OF assms(5,6)] entry by (fastforce simp: queued_def)
qed

text \<open>Every answer of the name lookup has a forbidden address, or the URL is not one to look up.\<close>

definition blocked :: "net \<Rightarrow> string \<Rightarrow> bool \<Rightarrow> bool" where
  "blocked N url lb \<longleftrightarrow>
     (\<forall>n. case nt_url N url of None \<Rightarrow> True
        | Some p \<Rightarrow> pu_scheme p \<notin> {''http'', ''https''} \<or>
            (case pu_host p of None \<Rightarrow> True
             | Some h \<Rightarrow> (case nt_lookup N n h (case pu_port_or_known_default p of Some q \<Rightarrow> q | None \<Rightarrow> 80) of
                 None \<Rightarrow> True | Some ips \<Rightarrow> \<exists>ip\<in>set ips. \<not> ip_allowed ip lb)))"

lemma blocked_not_safe: "blocked N url lb \<Longrightarrow> \<exists>w'. ssrf_safe N url lb w = (Ok False, w')"
  by (cases "nt_url N url"; cases "pu_host (the (nt_url N url))"; cases "pu_port_or_known_default (the (nt_url N url))")
    (auto simp: blocked_def ssrf_safe_def lookup_host_def bnd_def ret_def list_all_iff split: option.splits
      dest!: spec [of _ "w_tick w"])

text \<open>
  C28.  A webhook whose host resolves to a forbidden address (or does not resolve, or whose URL
  is not an HTTP one) is never sent to: the delivery ends without a request.
\<close>

theorem blocked_webhook_not_sent:
  assumes "blocked N (dt_url t) (dt_allow_loopback t)"
  shows "\<exists>w'. deliver_with_retry E N t w = (Ok 0, w')"
proof (cases "nt_client_ok N (w_tick w)")
  case True
  obtain w1 where "ssrf_safe N (dt_url t) (dt_allow_loopback t) (tick w) = (Ok False, w1)"
    using blocked_not_safe [OF assms] by blast
  with True show ?thesis
    by (auto simp: deliver_with_retry_def max_retries_def bnd_def ret_def now_utc_def catch_def
        write_eqs write_result_def insert_dlq_queued split: sum.split option.split)
qed (simp add: deliver_with_retry_def)

subsection \<open>Witnesses\<close>

definition toy_net :: net where
  "toy_net = \<lparr>nt_url = (\<lambda>_. Some \<lparr>pu_scheme = ''http'', pu_host = Some ''h'', pu_port_or_known_default = None\<rparr>),
     nt_json = (\<lambda>_. Inr []), nt_dlq_bytes = (\<lambda>r. Inr (dq_url r)), nt_dlq_of_bytes = (\<lambda>_. Inl []),
     nt_client_ok = (\<lambda>_. True), nt_lookup = (\<lambda>_ _ _. Some [V4 0x7F000001]), nt_post = (\<lambda>_ _ _. Inl ''refused'')\<rparr>"

definition toy_task :: delivery_task where
  "toy_task = \<lparr>dt_url = ''http://h/'', dt_payload = ''p'', dt_allow_loopback = False\<rparr>"

definition toy_net_env :: env where
  "toy_net_env =
     \<lparr>e_crates = toy_crates, e_meta_text = (\<lambda>_. []), e_cursor_bytes = (\<lambda>_. Inr []),
      e_cursor_of_bytes = (\<lambda>_. None), e_meta_fault = (\<lambda>_. None), e_io_fault = (\<lambda>_. None),
      e_clock = (\<lambda>n. int n), e_uuid = (\<lambda>_. ''u'')\<rparr>"

definition toy_queue :: world where
  "toy_queue = \<lparr>w_db = bootstrap_tables\<lparr>events_dlq := [(1, ''old'')]\<rparr>, w_blobs = (\<lambda>_. None), w_events = [], w_tick = 0\<rparr>"

lemma toy_queue_facts:
  "tbl_ok (events_dlq (w_db toy_queue))" "\<forall>id e. tbl_get (events_dlq (w_db toy_queue)) id = Some e \<longrightarrow> id < u64_mod - 1"
  by (auto simp: toy_queue_def tbl_ok_def tbl_get_def)

theorem delivery_bounded_keeps_queue_witness:
  "\<exists>sent w'. deliver_with_retry toy_net_env toy_net toy_task toy_queue = (Ok sent, w') \<and> sent \<le> 2 \<and>
     tbl_get (events_dlq (w_db w')) 1 = Some ''old''"
  using delivery_bounded_keeps_queue [OF toy_queue_facts, of toy_net_env toy_net toy_task]
  by (auto simp: toy_queue_def tbl_get_def)

theorem failed_delivery_recorded_witness:
  "\<exists>sent w' id. deliver_with_retry toy_net_env toy_net toy_task toy_queue = (Ok sent, w') \<and>
     tbl_get (events_dlq (w_db w')) id = Some ''http://h/''"
proof -
  have pre: "never_succeeds toy_net (dt_url toy_task) (dt_payload toy_task)" "\<forall>n. nt_client_ok toy_net n"
    "\<forall>n. e_meta_fault toy_net_env n = None" "\<forall>r. \<exists>entry. nt_dlq_bytes toy_net r = Inr entry"
    by (simp_all add: never_succeeds_def toy_net_def toy_net_env_def)
  obtain sent w' r entry id where
    "deliver_with_retry toy_net_env toy_net toy_task toy_queue = (Ok sent, w')"
    "events_dlq (w_db w') = tbl_insert (events_dlq (w_db toy_queue)) id entry"
    "nt_dlq_bytes toy_net r = Inr entry" "dq_url r = dt_url toy_task"
    using failed_delivery_recorded [OF pre toy_queue_facts] by blast
  then show ?thesis by (auto simp: toy_net_def toy_task_def)
qed

theorem blocked_webhook_not_sent_witness:
  "\<exists>w'. deliver_with_retry toy_net_env toy_net toy_task toy_queue = (Ok 0, w')"
proof (rule blocked_webhook_not_sent)
  have "octet0 0x7F000001 = 127" by (simp add: octet0_div)
  then show "blocked toy_net (dt_url toy_task) (dt_allow_loopback toy_task)"
    by (simp add: blocked_def toy_net_def toy_task_def ip_allowed_def)
qed

end
