(* ===== verification/PresignedProps.thy ===== *)
theory PresignedProps
  imports Presigned "HOL-Library.Multiset"
begin

text \<open>
  Presigned URLs: a URL signed by the holder of the root key is accepted inside its time
  window and any other signature is refused; the signed text determines the method, the path
  and every query parameter; and the clock-skew check bounds the life of every URL.
\<close>

subsection \<open>Steps of the verification\<close>

lemma otry_simps [simp]: "otry (Inl e) f = Err e" "otry (Inr a) f = f a"
  by (simp_all add: otry_def)

lemma reject_if_simps [simp]: "reject_if True e k = Err e" "reject_if False e k = k"
  by (simp_all add: reject_if_def)

lemma then_o_simps [simp]: "then_o (Ok u) k = k" "then_o (Err e) k = Err e" "then_o Panic k = Panic"
  by (simp_all add: then_o_def)

lemma step_Ok:
  "otry r f = Ok x \<longleftrightarrow> (\<exists>a. r = Inr a \<and> f a = Ok x)"
  "reject_if c e k = Ok x \<longleftrightarrow> \<not> c \<and> k = Ok x"
  "then_o o1 k = Ok x \<longleftrightarrow> (\<exists>u. o1 = Ok u) \<and> k = Ok x"
  by (auto simp: otry_def reject_if_def then_o_def split: sum.split outcome.split)

lemma some_Inr: "(case x of None \<Rightarrow> Inl e | Some t \<Rightarrow> Inr t) = Inr a \<longleftrightarrow> x = Some a"
  by (cases x) auto

lemma check_window_Ok:
  "check_window now t n = Ok u \<longleftrightarrow>
     \<bar>t - now\<bar> \<le> clock_skew_secs * ns_per_sec \<and> datetime_ok (t + n * ns_per_sec) \<and> now \<le> t + n * ns_per_sec"
  by (auto simp: check_window_def reject_if_def)

subsection \<open>Query parameters\<close>

lemma split_on_append: "split_on c (a @ c # b) = split_on c a @ split_on c b"
  by (induction a) (auto split: list.split)

lemma split_on_single: "c \<notin> set s \<Longrightarrow> split_on c s = [s]"
  by (induction s) auto

lemma query_tokens_append: "query_tokens (q @ CHR ''&'' # r) = query_tokens q @ query_tokens r"
  by (simp add: query_tokens_def split_on_append)

lemma query_tokens_single: "CHR ''&'' \<notin> set t \<Longrightarrow> t \<noteq> [] \<Longrightarrow> query_tokens t = [query_token t]"
  by (simp add: query_tokens_def split_on_single)

lemma find_insert_other: "\<not> P k \<Longrightarrow> find (\<lambda>(k, _). P k) (tbl_insert t k v) = find (\<lambda>(k, _). P k) t"
  by (induction t k v rule: tbl_insert.induct) auto

lemma find_insert_only: "P k \<Longrightarrow> (\<forall>e\<in>set t. \<not> P (fst e)) \<Longrightarrow> find (\<lambda>(k, _). P k) (tbl_insert t k v) = Some (k, v)"
  by (induction t k v rule: tbl_insert.induct) auto

lemma collect_snoc: "tbl_collect (es @ [(k, v)]) = tbl_insert (tbl_collect es) k v"
  by (simp add: tbl_collect_def)

lemma fst_set_collect: "fst ` set (tbl_collect es) = fst ` set es"
proof (induction es rule: rev_induct)
  case (snoc e es)
  then show ?case by (cases e) (simp add: collect_snoc fst_set_tbl_insert)
qed (simp add: tbl_collect_def)

definition sig_name :: string where "sig_name = ''X-Amz-Signature''"

lemma sig_name_bytes: "CHR ''&'' \<notin> set sig_name" "CHR ''='' \<notin> set sig_name" "sig_name \<noteq> []"
  by (simp_all add: sig_name_def)

text \<open>The signed URL: the signature is the last parameter.\<close>

definition signed_query :: "string \<Rightarrow> string \<Rightarrow> string" where
  "signed_query q sig = q @ CHR ''&'' # sig_name @ CHR ''='' # sig"

definition unsigned_query :: "string \<Rightarrow> bool" where
  "unsigned_query q \<longleftrightarrow> (\<forall>(k, v)\<in>set (query_tokens q). \<not> eq_ignore_ascii_case k sig_name)"

lemma signed_query_tokens:
  assumes "CHR ''&'' \<notin> set sig"
  shows "query_tokens (signed_query q sig) = query_tokens q @ [(sig_name, sig)]"
proof -
  have "split_once (CHR ''='') (sig_name @ CHR ''='' # sig) = Some (sig_name, sig)"
    by (simp add: split_once_Some_iff sig_name_bytes)
  then have "query_token (sig_name @ CHR ''='' # sig) = (sig_name, sig)" by (simp add: query_token_def)
  moreover have "query_tokens (sig_name @ CHR ''='' # sig) = [query_token (sig_name @ CHR ''='' # sig)]"
    by (rule query_tokens_single) (use assms sig_name_bytes in auto)
  ultimately show ?thesis by (simp only: signed_query_def query_tokens_append)
qed

lemma get_required_signed:
  assumes "CHR ''&'' \<notin> set sig" and "\<not> eq_ignore_ascii_case sig_name name"
  shows "get_required (parse_query_pairs (signed_query q sig)) name = get_required (parse_query_pairs q) name"
  by (simp only: get_required_def parse_query_pairs_def signed_query_tokens [OF assms(1)] collect_snoc tbl_iter_def
      find_insert_other [of "\<lambda>k. eq_ignore_ascii_case k name", OF assms(2)])

lemma get_signature_signed:
  assumes "CHR ''&'' \<notin> set sig" and "unsigned_query q"
  shows "get_required (parse_query_pairs (signed_query q sig)) sig_name = Inr sig"
proof -
  let ?P = "\<lambda>k. eq_ignore_ascii_case k sig_name"
  have "\<forall>e\<in>set (tbl_collect (query_tokens q)). \<not> ?P (fst e)"
  proof
    fix e
    assume "e \<in> set (tbl_collect (query_tokens q))"
    then have "fst e \<in> fst ` set (query_tokens q)" by (metis fst_set_collect imageI)
    then obtain v where "(fst e, v) \<in> set (query_tokens q)" by force
    with assms(2) show "\<not> ?P (fst e)" unfolding unsigned_query_def by blast
  qed
  then have "find (\<lambda>(k, _). ?P k) (tbl_insert (tbl_collect (query_tokens q)) sig_name sig) = Some (sig_name, sig)"
    by (intro find_insert_only) (simp_all add: eq_ignore_ascii_case_def)
  then show ?thesis
    by (simp only: get_required_def parse_query_pairs_def signed_query_tokens [OF assms(1)] collect_snoc tbl_iter_def
        option.case prod.case)
qed

lemma canonical_query_signed:
  assumes "CHR ''&'' \<notin> set sig"
  shows "canonical_query (signed_query q sig) = canonical_query q"
proof -
  have "canonical_pairs (signed_query q sig) = canonical_pairs q"
    by (simp only: canonical_pairs_def sig_name_def [symmetric] signed_query_tokens [OF assms] filter_append)
      (simp add: eq_ignore_ascii_case_def)
  then show ?thesis by (simp add: canonical_query_def)
qed

lemma names_differ:
  "\<not> eq_ignore_ascii_case sig_name ''X-Amz-Algorithm''" "\<not> eq_ignore_ascii_case sig_name ''X-Amz-Credential''"
  "\<not> eq_ignore_ascii_case sig_name ''X-Amz-Date''" "\<not> eq_ignore_ascii_case sig_name ''X-Amz-Expires''"
  "\<not> eq_ignore_ascii_case sig_name ''X-Amz-SignedHeaders''"
  by (simp_all add: sig_name_def eq_ignore_ascii_case_def lower_def in_range_def)

subsection \<open>Accepted URLs\<close>

text \<open>
  What the holder of the key fixes when a URL is made: the parameters of the unsigned query,
  decoded the way the server decodes them, and the block of signed headers.
\<close>

record signing =
  sg_credential :: credential
  sg_date_full :: string
  sg_signed_at :: timestamp
  sg_expires :: int
  sg_names :: "string list"
  sg_header_block :: string

definition signs :: "crates \<Rightarrow> server_config \<Rightarrow> string \<Rightarrow> header_map \<Rightarrow> signing \<Rightarrow> bool" where
  "signs X cfg q hs g \<longleftrightarrow>
     (let params = parse_query_pairs q; c = sg_credential g
      in get_required params ''X-Amz-Algorithm'' = Inr algorithm \<and>
         (\<exists>raw. get_required params ''X-Amz-Credential'' = Inr raw \<and> parse_credential raw = Inr c) \<and>
         cd_terminator c = terminator \<and> cd_service c = ''s3'' \<and>
         cd_access_key c = rk_access_key_id (sc_root_key cfg) \<and>
         (\<exists>raw. get_required params ''X-Amz-Date'' = Inr raw \<and> sg_date_full g = percent_decode_str raw) \<and>
         parse_amz_datetime X (sg_date_full g) = Some (sg_signed_at g) \<and>
         first_eight (sg_date_full g) = cd_date_scope c \<and>
         (\<exists>raw. get_required params ''X-Amz-Expires'' = Inr raw \<and> parse_i64 raw = Some (sg_expires g)) \<and>
         1 \<le> sg_expires g \<and> sg_expires g \<le> max_expires \<and>
         (\<exists>raw. get_required params ''X-Amz-SignedHeaders'' = Inr raw \<and> sg_names g = signed_header_names raw) \<and>
         sg_names g \<noteq> [] \<and> canonical_headers X hs (sg_names g) = Inr (sg_header_block g))"

definition presign :: "crates \<Rightarrow> server_config \<Rightarrow> http_method \<Rightarrow> string \<Rightarrow> string \<Rightarrow> signing \<Rightarrow> string" where
  "presign X cfg mth path q g =
     signature X (rk_secret_access_key (sc_root_key cfg)) (sg_credential g)
       (string_to_sign X (sg_date_full g) (sg_credential g)
         (canonical_request mth path q (sg_header_block g) (sg_names g)))"

lemma verify_signed_query:
  assumes "signs X cfg q (rq_headers rq) g" and "unsigned_query q" and "CHR ''&'' \<notin> set sig"
    and "rq_query rq = Some (signed_query q sig)"
  shows "verify_presigned X cfg now rq = then_o (check_window now (sg_signed_at g) (sg_expires g))
     (if presign X cfg (rq_method rq) (rq_path rq) q g = sig then Ok ()
      else Err (s3_error_new SignatureDoesNotMatch ''presigned signature did not match''))"
proof -
  note get = get_required_signed [OF assms(3) names_differ(1)] get_required_signed [OF assms(3) names_differ(2)]
    get_required_signed [OF assms(3) names_differ(3)] get_required_signed [OF assms(3) names_differ(4)]
    get_required_signed [OF assms(3) names_differ(5)]
    get_signature_signed [OF assms(3,2), unfolded sig_name_def]
  have creq: "canonical_request mth path (signed_query q sig) blk ns = canonical_request mth path q blk ns" for mth path blk ns
    by (simp only: canonical_request_def canonical_query_signed [OF assms(3)])
  from assms(1) obtain r1 r2 r3 r4 where parts:
    "get_required (parse_query_pairs q) ''X-Amz-Algorithm'' = Inr algorithm"
    "get_required (parse_query_pairs q) ''X-Amz-Credential'' = Inr r1" "parse_credential r1 = Inr (sg_credential g)"
    "get_required (parse_query_pairs q) ''X-Amz-Date'' = Inr r2" "percent_decode_str r2 = sg_date_full g"
    "get_required (parse_query_pairs q) ''X-Amz-Expires'' = Inr r3" "parse_i64 r3 = Some (sg_expires g)"
    "get_required (parse_query_pairs q) ''X-Amz-SignedHeaders'' = Inr r4" "signed_header_names r4 = sg_names g"
    by (auto simp: signs_def Let_def)
  have fits: "cd_terminator (sg_credential g) = terminator" "cd_service (sg_credential g) = ''s3''"
    "cd_access_key (sg_credential g) = rk_access_key_id (sc_root_key cfg)"
    "parse_amz_datetime X (sg_date_full g) = Some (sg_signed_at g)"
    "first_eight (sg_date_full g) = cd_date_scope (sg_credential g)"
    "1 \<le> sg_expires g" "sg_expires g \<le> max_expires" "sg_names g \<noteq> []"
    "canonical_headers X (rq_headers rq) (sg_names g) = Inr (sg_header_block g)"
    using assms(1) by (simp_all add: signs_def Let_def)
  show ?thesis
    by (simp add: verify_presigned_def assms(4) get parts fits creq presign_def reject_if_def)
qed

text \<open>The time window: five minutes of clock skew either way, and the lifetime of the URL.\<close>

definition in_window :: "timestamp \<Rightarrow> signing \<Rightarrow> bool" where
  "in_window now g \<longleftrightarrow>
     sg_signed_at g - 300 * 1000000000 \<le> now \<and> now \<le> sg_signed_at g + 300 * 1000000000 \<and>
     now \<le> sg_signed_at g + sg_expires g * 1000000000 \<and> datetime_ok (sg_signed_at g + sg_expires g * 1000000000)"

lemma check_window_in_window: "check_window now (sg_signed_at g) (sg_expires g) = Ok u \<longleftrightarrow> in_window now g"
  by (auto simp: check_window_Ok in_window_def clock_skew_secs_def ns_per_sec_def abs_le_iff)

lemma verify_presigned_Ok:
  assumes q: "rq_query rq = Some q"
  shows "verify_presigned X cfg now rq = Ok () \<longleftrightarrow>
     (\<exists>g. signs X cfg q (rq_headers rq) g \<and> in_window now g \<and>
        get_required (parse_query_pairs q) sig_name = Inr (presign X cfg (rq_method rq) (rq_path rq) q g))"
proof
  assume "verify_presigned X cfg now rq = Ok ()"
  then obtain craw c draw t xraw n hraw sig blk where found:
    "get_required (parse_query_pairs q) ''X-Amz-Algorithm'' = Inr algorithm"
    "get_required (parse_query_pairs q) ''X-Amz-Credential'' = Inr craw" "parse_credential craw = Inr c"
    "cd_terminator c = terminator" "cd_service c = ''s3''" "cd_access_key c = rk_access_key_id (sc_root_key cfg)"
    "get_required (parse_query_pairs q) ''X-Amz-Date'' = Inr draw"
    "parse_amz_datetime X (percent_decode_str draw) = Some t" "first_eight (percent_decode_str draw) = cd_date_scope c"
    "get_required (parse_query_pairs q) ''X-Amz-Expires'' = Inr xraw" "parse_i64 xraw = Some n"
    "1 \<le> n \<and> n \<le> max_expires" "\<exists>u. check_window now t n = Ok u"
    "get_required (parse_query_pairs q) ''X-Amz-SignedHeaders'' = Inr hraw" "signed_header_names hraw \<noteq> []"
    "get_required (parse_query_pairs q) ''X-Amz-Signature'' = Inr sig"
    "canonical_headers X (rq_headers rq) (signed_header_names hraw) = Inr blk"
    "signature X (rk_secret_access_key (sc_root_key cfg)) c (string_to_sign X (percent_decode_str draw) c
       (canonical_request (rq_method rq) (rq_path rq) q blk (signed_header_names hraw))) = sig"
    by (simp only: verify_presigned_def q option.case Let_def step_Ok some_Inr not_not) blast
  let ?g = "\<lparr>sg_credential = c, sg_date_full = percent_decode_str draw, sg_signed_at = t, sg_expires = n,
    sg_names = signed_header_names hraw, sg_header_block = blk\<rparr>"
  have "signs X cfg q (rq_headers rq) ?g" using found by (simp add: signs_def Let_def)
  moreover have "in_window now ?g" using found(13) check_window_in_window [of now ?g] by simp
  ultimately show "\<exists>g. signs X cfg q (rq_headers rq) g \<and> in_window now g \<and>
      get_required (parse_query_pairs q) sig_name = Inr (presign X cfg (rq_method rq) (rq_path rq) q g)"
    using found(16,18) by (intro exI [of _ ?g]) (simp add: presign_def sig_name_def)
next
  assume "\<exists>g. signs X cfg q (rq_headers rq) g \<and> in_window now g \<and>
      get_required (parse_query_pairs q) sig_name = Inr (presign X cfg (rq_method rq) (rq_path rq) q g)"
  then obtain g where g: "signs X cfg q (rq_headers rq) g" "in_window now g"
    and sig: "get_required (parse_query_pairs q) ''X-Amz-Signature'' = Inr (presign X cfg (rq_method rq) (rq_path rq) q g)"
    by (auto simp: sig_name_def)
  from g(1) obtain r1 r2 r3 r4 where parts:
    "get_required (parse_query_pairs q) ''X-Amz-Algorithm'' = Inr algorithm"
    "get_required (parse_query_pairs q) ''X-Amz-Credential'' = Inr r1" "parse_credential r1 = Inr (sg_credential g)"
    "get_required (parse_query_pairs q) ''X-Amz-Date'' = Inr r2" "percent_decode_str r2 = sg_date_full g"
    "get_required (parse_query_pairs q) ''X-Amz-Expires'' = Inr r3" "parse_i64 r3 = Some (sg_expires g)"
    "get_required (parse_query_pairs q) ''X-Amz-SignedHeaders'' = Inr r4" "signed_header_names r4 = sg_names g"
    by (auto simp: signs_def Let_def)
  have fits: "cd_terminator (sg_credential g) = terminator" "cd_service (sg_credential g) = ''s3''"
    "cd_access_key (sg_credential g) = rk_access_key_id (sc_root_key cfg)"
    "parse_amz_datetime X (sg_date_full g) = Some (sg_signed_at g)"
    "first_eight (sg_date_full g) = cd_date_scope (sg_credential g)"
    "1 \<le> sg_expires g" "sg_expires g \<le> max_expires" "sg_names g \<noteq> []"
    "canonical_headers X (rq_headers rq) (sg_names g) = Inr (sg_header_block g)"
    using g(1) by (simp_all add: signs_def Let_def)
  have "check_window now (sg_signed_at g) (sg_expires g) = Ok ()"
    using g(2) check_window_in_window by blast
  then show "verify_presigned X cfg now rq = Ok ()"
    by (simp add: verify_presigned_def q sig parts fits presign_def)
qed

text \<open>
  C15.  A presigned URL is accepted exactly when its parameters are well formed and name the
  root access key (\<^verbatim>\<open>signs\<close> lists the conditions), the clock is within five minutes of
  its date and before the end of its lifetime, and its signature is the one the holder of the
  secret key makes for this method, path, query and block of signed headers.  So a URL that
  the holder made by signing a query and appending the signature is accepted inside its
  window with that signature, and with no other signature and at no other time.
\<close>

theorem presigned_accepts_iff_signed:
  "(verify_presigned X cfg now rq = Ok () \<longleftrightarrow>
     (\<exists>q g. rq_query rq = Some q \<and> signs X cfg q (rq_headers rq) g \<and> in_window now g \<and>
        get_required (parse_query_pairs q) sig_name = Inr (presign X cfg (rq_method rq) (rq_path rq) q g))) \<and>
   (signs X cfg q (rq_headers rq) g \<and> unsigned_query q \<and> CHR ''&'' \<notin> set sig \<and>
      rq_query rq = Some (signed_query q sig) \<longrightarrow>
     (verify_presigned X cfg now rq = Ok () \<longleftrightarrow>
        in_window now g \<and> sig = presign X cfg (rq_method rq) (rq_path rq) q g))"
proof (intro conjI impI)
  show "verify_presigned X cfg now rq = Ok () \<longleftrightarrow>
     (\<exists>q g. rq_query rq = Some q \<and> signs X cfg q (rq_headers rq) g \<and> in_window now g \<and>
        get_required (parse_query_pairs q) sig_name = Inr (presign X cfg (rq_method rq) (rq_path rq) q g))"
    by (cases "rq_query rq") (simp add: verify_presigned_def, simp add: verify_presigned_Ok)
next
  assume made: "signs X cfg q (rq_headers rq) g \<and> unsigned_query q \<and> CHR ''&'' \<notin> set sig \<and>
    rq_query rq = Some (signed_query q sig)"
  then have "verify_presigned X cfg now rq = then_o (check_window now (sg_signed_at g) (sg_expires g))
     (if presign X cfg (rq_method rq) (rq_path rq) q g = sig then Ok ()
      else Err (s3_error_new SignatureDoesNotMatch ''presigned signature did not match''))"
    by (intro verify_signed_query) auto
  then show "verify_presigned X cfg now rq = Ok () \<longleftrightarrow>
      in_window now g \<and> sig = presign X cfg (rq_method rq) (rq_path rq) q g"
    by (auto simp: step_Ok check_window_in_window split: if_splits)
qed

definition hex_text :: "bytes \<Rightarrow> string" where
  "hex_text b = concat (map (\<lambda>c. [hex_digit (of_char c div 16), hex_digit (of_char c mod 16)]) b)"

definition toy_hex :: crates where "toy_hex = toy_crates\<lparr>hex_encode := hex_text\<rparr>"

lemma hex_digit_alnum: "n < 16 \<Longrightarrow> hex_digit n \<noteq> CHR ''&''"
proof
  assume "n < 16" "hex_digit n = CHR ''&''"
  then have "of_char (hex_digit n) = (38 :: nat)" by simp
  with \<open>n < 16\<close> show False by (simp add: hex_digit_def of_char_of take_bit_eq_mod split: if_splits)
qed

lemma hex_text_plain: "CHR ''&'' \<notin> set (hex_text b)"
  using hex_digit_alnum [OF byte_nibbles(1)] hex_digit_alnum [OF byte_nibbles(2)] by (auto simp: hex_text_def eq_commute)

definition toy_config :: server_config where
  "toy_config = server_config_new ''eu'' ''AK'' ''SK'' ''127.0.0.1:9000''"

definition toy_query :: string where
  "toy_query = ''X-Amz-Algorithm=AWS4-HMAC-SHA256&X-Amz-Credential=AK/20240101/eu/s3/aws4_request&X-Amz-Date=20240101T000000Z&X-Amz-Expires=900&X-Amz-SignedHeaders=host''"

definition toy_headers :: header_map where "toy_headers = [(''host'', ''h'')]"

definition toy_signing :: signing where
  "toy_signing = \<lparr>sg_credential = \<lparr>cd_access_key = ''AK'', cd_date_scope = ''20240101'', cd_region = ''eu'',
       cd_service = ''s3'', cd_terminator = ''aws4_request''\<rparr>, sg_date_full = ''20240101T000000Z'',
     sg_signed_at = 0, sg_expires = 900, sg_names = [''host''], sg_header_block = ''host:h'' @ [CHR 0x0A]\<rparr>"

lemma toy_tokens:
  "query_tokens toy_query =
     [(''X-Amz-Algorithm'', ''AWS4-HMAC-SHA256''), (''X-Amz-Credential'', ''AK/20240101/eu/s3/aws4_request''),
      (''X-Amz-Date'', ''20240101T000000Z''), (''X-Amz-Expires'', ''900''), (''X-Amz-SignedHeaders'', ''host'')]"
  by (simp add: toy_query_def query_tokens_def query_token_def)

lemma toy_table: "parse_query_pairs toy_query = query_tokens toy_query"
  by (simp add: parse_query_pairs_def toy_tokens tbl_collect_def less_char_def)

lemma toy_decoded:
  "percent_decode_str ''AK/20240101/eu/s3/aws4_request'' = ''AK/20240101/eu/s3/aws4_request''"
  "percent_decode_str ''20240101T000000Z'' = ''20240101T000000Z''" "percent_decode_str ''host'' = ''host''"
  by (simp_all add: percent_decode_str_def decode_percent_bytes.simps utf8_lossy.simps continuations_def in_range_def)

lemma toy_trim: "trim ''host'' = ''host''" "trim ''h'' = ''h''"
  by (simp_all add: trim_def trim_start.simps whitespace_def)

lemma toy_get:
  "get_required (parse_query_pairs toy_query) ''X-Amz-Algorithm'' = Inr ''AWS4-HMAC-SHA256''"
  "get_required (parse_query_pairs toy_query) ''X-Amz-Credential'' = Inr ''AK/20240101/eu/s3/aws4_request''"
  "get_required (parse_query_pairs toy_query) ''X-Amz-Date'' = Inr ''20240101T000000Z''"
  "get_required (parse_query_pairs toy_query) ''X-Amz-Expires'' = Inr ''900''"
  "get_required (parse_query_pairs toy_query) ''X-Amz-SignedHeaders'' = Inr ''host''"
  by (simp_all add: toy_table toy_tokens get_required_def tbl_iter_def eq_ignore_ascii_case_def lower_def in_range_def)

lemma toy_signs: "signs toy_hex toy_config toy_query toy_headers toy_signing"
  by (simp add: signs_def Let_def toy_get toy_decoded parse_credential_def signed_header_names_def toy_trim
      toy_signing_def toy_config_def server_config_new_def algorithm_def terminator_def max_expires_def
      first_eight_def parse_i64_def parse_unsigned_def is_digit_def digits_value_def digit_value_def
      canonical_headers_def collect_header_def toy_headers_def toy_hex_def toy_crates_def tbl_get_def tbl_iter_def
      lower_def in_range_def)

lemma toy_unsigned: "unsigned_query toy_query"
  by (simp add: unsigned_query_def toy_tokens sig_name_def eq_ignore_ascii_case_def lower_def in_range_def)

definition toy_url :: http_request where
  "toy_url = \<lparr>rq_method = GET, rq_path = ''/b/k'',
      rq_query = Some (signed_query toy_query (presign toy_hex toy_config GET ''/b/k'' toy_query toy_signing)),
      rq_headers = toy_headers, rq_body = []\<rparr>"

lemma toy_url_facts:
  "signs toy_hex toy_config toy_query (rq_headers toy_url) toy_signing"
  "CHR ''&'' \<notin> set (presign toy_hex toy_config GET ''/b/k'' toy_query toy_signing)"
  "rq_query toy_url = Some (signed_query toy_query (presign toy_hex toy_config GET ''/b/k'' toy_query toy_signing))"
  by (simp_all add: toy_url_def toy_signs) (simp add: presign_def signature_def toy_hex_def hex_text_plain)

lemma toy_url_accepted: "verify_presigned toy_hex toy_config 7 toy_url = Ok ()"
proof -
  have "check_window 7 (sg_signed_at toy_signing) (sg_expires toy_signing) = Ok ()"
    by (simp add: check_window_def reject_if_def clock_skew_secs_def ns_per_sec_def toy_signing_def datetime_ok_def)
  then show ?thesis
    by (simp add: verify_signed_query [OF toy_url_facts(1) toy_unsigned toy_url_facts(2,3)]) (simp add: toy_url_def)
qed

lemma length_hex_text: "length (hex_text b) = 2 * length b"
  by (induction b) (simp_all add: hex_text_def)

lemma toy_not_forged: "''bad'' \<noteq> presign toy_hex toy_config mth path q g"
proof
  assume "''bad'' = presign toy_hex toy_config mth path q g"
  then obtain b where "''bad'' = hex_text b" by (auto simp: presign_def signature_def toy_hex_def)
  then have "length ''bad'' = 2 * length b" by (simp only: length_hex_text)
  then have "even (length ''bad'')" by (metis dvd_triv_left)
  then show False by simp
qed

text \<open>The URL is accepted; a moment past five minutes, or with a forged signature, it is not.\<close>

theorem presigned_accepts_iff_signed_witness:
  "verify_presigned toy_hex toy_config 7 toy_url = Ok () \<and>
   verify_presigned toy_hex toy_config 300000000001 toy_url \<noteq> Ok () \<and>
   verify_presigned toy_hex toy_config 7 (toy_url\<lparr>rq_query := Some (signed_query toy_query ''bad'')\<rparr>) \<noteq> Ok ()"
proof -
  note made = presigned_accepts_iff_signed [THEN conjunct2, rule_format, OF conjI [OF _ conjI [OF toy_unsigned conjI]]]
  let ?bad = "toy_url\<lparr>rq_query := Some (signed_query toy_query ''bad'')\<rparr>"
  have "verify_presigned toy_hex toy_config now toy_url = Ok () \<longleftrightarrow> in_window now toy_signing" for now
    using made [OF toy_url_facts] by (simp add: toy_url_def)
  moreover have "in_window 7 toy_signing" "\<not> in_window 300000000001 toy_signing"
    by (simp_all add: in_window_def toy_signing_def datetime_ok_def)
  moreover have "verify_presigned toy_hex toy_config 7 ?bad \<noteq> Ok ()"
    using made [of toy_hex toy_config ?bad toy_signing "''bad''" 7] toy_url_facts(1) toy_not_forged by simp
  ultimately show ?thesis by simp
qed

text \<open>
  C17.  No accepted URL was signed more than five minutes ago (or ahead), whatever lifetime
  of up to seven days it was signed with: the clock-skew check is applied to presigned URLs
  too.  An accepted URL also names the root access key and is within its own lifetime.
\<close>

theorem presigned_life_is_five_minutes:
  assumes "verify_presigned X cfg now rq = Ok ()"
  shows "\<exists>q raw t expires c. rq_query rq = Some q \<and> get_required (parse_query_pairs q) ''X-Amz-Date'' = Inr raw \<and>
     parse_amz_datetime X (percent_decode_str raw) = Some t \<and>
     t - 300 * 1000000000 \<le> now \<and> now \<le> t + 300 * 1000000000 \<and>
     now \<le> t + expires * 1000000000 \<and> 1 \<le> expires \<and> expires \<le> 604800 \<and>
     cd_access_key c = rk_access_key_id (sc_root_key cfg) \<and> (\<exists>craw. parse_credential craw = Inr c)"
proof -
  obtain q where q: "rq_query rq = Some q" using assms by (auto simp: verify_presigned_def split: option.splits)
  from assms obtain craw c raw t n where
    "parse_credential craw = Inr c" "\<not> cd_access_key c \<noteq> rk_access_key_id (sc_root_key cfg)"
    "get_required (parse_query_pairs q) ''X-Amz-Date'' = Inr raw"
    "parse_amz_datetime X (percent_decode_str raw) = Some t"
    "\<not> \<not> (1 \<le> n \<and> n \<le> max_expires)" "\<exists>u. check_window now t n = Ok u"
    by (simp only: verify_presigned_def q option.case Let_def step_Ok some_Inr) blast
  note found = this
  have "t - 300 * 1000000000 \<le> now" "now \<le> t + 300 * 1000000000" "now \<le> t + n * 1000000000" "1 \<le> n" "n \<le> 604800"
    using found(5,6) by (simp_all add: check_window_Ok clock_skew_secs_def ns_per_sec_def max_expires_def abs_le_iff)
  with q found(1-4) show ?thesis by blast
qed

theorem presigned_life_is_five_minutes_witness:
  "\<exists>q t expires. rq_query toy_url = Some q \<and> t - 300 * 1000000000 \<le> 7 \<and> 7 \<le> t + 300 * (1000000000 :: int) \<and>
     7 \<le> t + expires * 1000000000 \<and> expires \<le> 604800"
  using presigned_life_is_five_minutes [OF toy_url_accepted] by blast

subsection \<open>What the signed text determines\<close>

lemma append_sep_inject:
  fixes c :: char
  shows "c \<notin> set a \<Longrightarrow> c \<notin> set a' \<Longrightarrow> a @ c # x = a' @ c # x' \<longleftrightarrow> a = a' \<and> x = x'"
proof (induction a arbitrary: a')
  case Nil
  then show ?case by (cases a') auto
next
  case (Cons d a)
  then show ?case by (cases a') auto
qed

lemma split_join_with: "ps \<noteq> [] \<Longrightarrow> \<forall>p\<in>set ps. c \<notin> set p \<Longrightarrow> split_on c (join_with c ps) = ps"
  by (induction c ps rule: join_with.induct) (simp_all add: split_on_append split_on_single)

lemma join_with_nonempty: "join_with c xs = [] \<Longrightarrow> \<forall>p\<in>set xs. p \<noteq> [] \<Longrightarrow> xs = []"
  by (induction c xs rule: join_with.induct) auto

lemma join_with_inject:
  assumes "\<forall>p\<in>set ps \<union> set ps'. p \<noteq> [] \<and> c \<notin> set p" and "join_with c ps = join_with c ps'"
  shows "ps = ps'"
proof -
  let ?F = "\<lambda>s. if s = [] then [] else split_on c s"
  have parts: "xs = ?F (join_with c xs)" if "\<forall>p\<in>set xs. p \<noteq> [] \<and> c \<notin> set p" for xs
    using that join_with_nonempty [of c xs] split_join_with [of xs c] by (cases "xs = []") auto
  have "ps = ?F (join_with c ps)" by (rule parts) (use assms(1) in blast)
  also have "\<dots> = ?F (join_with c ps')" by (simp only: assms(2))
  also have "\<dots> = ps'" by (rule parts [symmetric]) (use assms(1) in blast)
  finally show ?thesis .
qed

lemma query_tokens_bytes:
  assumes "(k, v) \<in> set (query_tokens q)"
  shows "CHR ''&'' \<notin> set k" "CHR ''&'' \<notin> set v" "CHR ''='' \<notin> set k" "set k \<subseteq> set q" "set v \<subseteq> set q"
proof -
  have pieces: "p \<in> set (split_on c s) \<Longrightarrow> set p \<subseteq> set s" for p c s
    by (induction s arbitrary: p) (fastforce split: if_splits list.splits)+
  obtain t where t: "t \<in> set (split_on (CHR ''&'') q)" "query_token t = (k, v)"
    using assms by (auto simp: query_tokens_def)
  note split_on_pieces [OF t(1)] pieces [OF t(1)]
  with t(2) show "CHR ''&'' \<notin> set k" "CHR ''&'' \<notin> set v" "CHR ''='' \<notin> set k" "set k \<subseteq> set q" "set v \<subseteq> set q"
    by (auto simp: query_token_def split_once_Some_iff split_once_None_iff split: option.splits)
qed

lemma canonical_query_inject:
  assumes "canonical_query q = canonical_query q'"
  shows "mset (canonical_pairs q) = mset (canonical_pairs q')"
proof -
  let ?f = "\<lambda>(k, v). k @ CHR ''='' # v :: string" and ?ps = "canonical_pairs q" and ?qs = "canonical_pairs q'"
  have bytes: "CHR ''&'' \<notin> set k \<and> CHR ''&'' \<notin> set v \<and> CHR ''='' \<notin> set k"
    if "(k, v) \<in> set ?ps \<union> set ?qs" for k v
    using that query_tokens_bytes(1-3) [of k v q] query_tokens_bytes(1-3) [of k v q'] by (auto simp: canonical_pairs_def)
  have "map ?f (sort ?ps) = map ?f (sort ?qs)"
  proof (rule join_with_inject)
    show "\<forall>p\<in>set (map ?f (sort ?ps)) \<union> set (map ?f (sort ?qs)). p \<noteq> [] \<and> CHR ''&'' \<notin> set p"
      using bytes by fastforce
  qed (use assms in \<open>simp add: canonical_query_def\<close>)
  moreover have "inj_on ?f (set (sort ?ps) \<union> set (sort ?qs))"
  proof (rule inj_onI)
    fix x y
    assume "x \<in> set (sort ?ps) \<union> set (sort ?qs)" "y \<in> set (sort ?ps) \<union> set (sort ?qs)" and eq: "?f x = ?f y"
    then have "CHR ''='' \<notin> set (fst x)" "CHR ''='' \<notin> set (fst y)"
      using bytes [of "fst x" "snd x"] bytes [of "fst y" "snd y"] by auto
    with eq show "x = y" by (simp add: case_prod_beta append_sep_inject prod_eq_iff)
  qed
  ultimately have "sort ?ps = sort ?qs" by (rule map_inj_on)
  then show ?thesis by (metis mset_sort)
qed

lemma canonical_query_bytes: "set (canonical_query q) \<subseteq> set q \<union> {CHR ''='', CHR ''&''}"
proof -
  have "set (join_with c ps) \<subseteq> \<Union> (set ` set ps) \<union> {c}" for c ps
    by (induction c ps rule: join_with.induct) auto
  from this [of "CHR ''&''" "map (\<lambda>(k, v). k @ CHR ''='' # v) (sort (canonical_pairs q))"]
  have "set (canonical_query q) \<subseteq> (\<Union>(k, v)\<in>set (canonical_pairs q). set k \<union> set v) \<union> {CHR ''='', CHR ''&''}"
    by (fastforce simp: canonical_query_def)
  moreover have "set k \<union> set v \<subseteq> set q" if "(k, v) \<in> set (canonical_pairs q)" for k v
    using that query_tokens_bytes(4,5) [of k v q] by (simp add: canonical_pairs_def)
  ultimately show ?thesis by blast
qed

lemma join_with_bytes: "set (join_with c ps) \<subseteq> \<Union> (set ` set ps) \<union> {c}"
  by (induction c ps rule: join_with.induct) auto

lemma append_sep_inject_last:
  fixes c :: char
  assumes "c \<notin> set y" "c \<notin> set y'"
  shows "x @ c # y = x' @ c # y' \<longleftrightarrow> x = x' \<and> y = y'"
proof -
  have "x @ c # y = x' @ c # y' \<longleftrightarrow> rev y @ c # rev x = rev y' @ c # rev x'"
    by (metis append.assoc append_Cons append_Nil rev.simps(2) rev_append rev_rev_ident)
  then show ?thesis using assms append_sep_inject [of c "rev y" "rev y'" "rev x" "rev x'"] by auto
qed

lemma set_trim_start: "set (trim_start ws s) \<subseteq> set s"
proof (induction ws s rule: trim_start.induct)
  case (1 ws s)
  show ?case
  proof (cases "find (\<lambda>p. p \<noteq> [] \<and> prefix p s) ws")
    case (Some p)
    have "set (trim_start ws s) \<subseteq> set (drop (length p) s)"
      using "1" [OF Some] by (subst trim_start.simps) (simp add: Some)
    then show ?thesis using set_drop_subset by fastforce
  qed (subst trim_start.simps, simp)
qed

lemma set_trim: "set (trim s) \<subseteq> set s"
  using set_trim_start [of "map rev whitespace" "rev (trim_start whitespace s)"] set_trim_start [of whitespace s]
  by (simp add: trim_def)

lemma lower_semicolon: "lower c = CHR '';'' \<Longrightarrow> c = CHR '';''"
proof (rule ccontr)
  assume eq: "lower c = CHR '';''" and "c \<noteq> CHR '';''"
  then have c: "lower c = char_of (of_char c + 32 :: nat)" "in_range 65 90 c" by (auto simp: lower_def split: if_splits)
  have "(of_char (lower c) :: nat) = 59" by (simp add: eq)
  then show False using c by (simp add: c of_char_of take_bit_eq_mod in_range_def)
qed

text \<open>The parsed header names: none is empty or holds the separator.\<close>

lemma signed_header_names_clean:
  assumes "n \<in> set (signed_header_names raw)"
  shows "n \<noteq> [] \<and> CHR '';'' \<notin> set n"
proof -
  obtain p where p: "p \<in> set (split_on (CHR '';'') (percent_decode_str raw))" "n = List.map lower (trim p)" "n \<noteq> []"
    using assms by (auto simp: signed_header_names_def)
  have "CHR '';'' \<notin> set p" using split_on_pieces [OF p(1)] by auto
  then have "CHR '';'' \<notin> set (trim p)" using set_trim by blast
  then have "\<forall>x\<in>set (trim p). CHR '';'' \<noteq> lower x" using lower_semicolon by metis
  then show ?thesis using p(2,3) by auto
qed

text \<open>
  C16.  The signed text determines the request: two requests with the same canonical text
  have the same method, the same path and the same query parameters, each as often as in the
  other (their order, and the signature itself, apart), and the same signed headers, names
  and values.  So nothing in the query of an accepted URL is unsigned, and no signed header
  can change.  (A request line and a header name have no line breaks.)
\<close>

theorem signed_text_binds_request:
  assumes "canonical_request m p q blk (signed_header_names r) = canonical_request m' p' q' blk' (signed_header_names r')"
    and "\<forall>s\<in>{method_str m, p, q, method_str m', p', q'} \<union> set (signed_header_names r) \<union> set (signed_header_names r').
           CHR 0x0A \<notin> set s"
  shows "method_str m = method_str m' \<and> canonical_uri p = canonical_uri p' \<and>
     mset (canonical_pairs q) = mset (canonical_pairs q') \<and>
     blk = blk' \<and> signed_header_names r = signed_header_names r'"
proof -
  let ?ns = "signed_header_names r" and ?ns' = "signed_header_names r'"
  have lines: "CHR 0x0A \<notin> set (canonical_uri p)" "CHR 0x0A \<notin> set (canonical_uri p')"
    "CHR 0x0A \<notin> set (canonical_query q)" "CHR 0x0A \<notin> set (canonical_query q')"
    "CHR 0x0A \<notin> set (join_with (CHR '';'') ?ns)" "CHR 0x0A \<notin> set (join_with (CHR '';'') ?ns')"
    using assms(2) canonical_query_bytes [of q] canonical_query_bytes [of q']
      join_with_bytes [of "CHR '';''" ?ns] join_with_bytes [of "CHR '';''" ?ns'] by (auto simp: canonical_uri_def)
  have "method_str m = method_str m' \<and> canonical_uri p = canonical_uri p' \<and> canonical_query q = canonical_query q' \<and>
      (blk @ CHR 0x0A # join_with (CHR '';'') ?ns) @ CHR 0x0A # ''UNSIGNED-PAYLOAD'' =
      (blk' @ CHR 0x0A # join_with (CHR '';'') ?ns') @ CHR 0x0A # ''UNSIGNED-PAYLOAD''"
    using assms lines(1-4) by (simp add: canonical_request_def append_sep_inject)
  then have same: "method_str m = method_str m'" "canonical_uri p = canonical_uri p'" "canonical_query q = canonical_query q'"
    "blk = blk'" "join_with (CHR '';'') ?ns = join_with (CHR '';'') ?ns'"
    using lines(5,6) by (simp_all add: append_sep_inject_last)
  have "?ns = ?ns'"
    by (rule join_with_inject [OF _ same(5)]) (use signed_header_names_clean in blast)
  then show ?thesis using same canonical_query_inject by blast
qed

theorem signed_text_binds_request_witness:
  "mset (canonical_pairs ''a=1&b=2'') = mset (canonical_pairs ''b=2&X-Amz-Signature=s&a=1'') \<and>
   signed_header_names ''host'' = signed_header_names ''host;''"
proof -
  have pairs: "canonical_pairs ''a=1&b=2'' = [(''a'', ''1''), (''b'', ''2'')]"
    "canonical_pairs ''b=2&X-Amz-Signature=s&a=1'' = [(''b'', ''2''), (''a'', ''1'')]"
    by (simp_all add: canonical_pairs_def query_tokens_def query_token_def eq_ignore_ascii_case_def lower_def in_range_def)
  have names: "signed_header_names ''host'' = [''host'']" "signed_header_names ''host;'' = [''host'']"
    by (simp_all add: signed_header_names_def percent_decode_str_def decode_percent_bytes.simps utf8_lossy.simps
        continuations_def in_range_def trim_def trim_start.simps whitespace_def lower_def)
  have "canonical_request GET ''/k'' ''a=1&b=2'' ''host:h'' (signed_header_names ''host'') =
      canonical_request GET ''/k'' ''b=2&X-Amz-Signature=s&a=1'' ''host:h'' (signed_header_names ''host;'')"
    by (simp add: canonical_request_def canonical_query_def pairs names less_char_def)
  from signed_text_binds_request [OF this] show ?thesis by (simp add: names)
qed

end
