(* ===== verification/HttpProps.thy ===== *)
theory HttpProps
  imports Dispatch EventProps PresignedProps Toy
begin

text \<open>
  The whole server: every HTTP request, webhook delivery and maintenance sweep keeps the
  server invariant, whatever fails on the way; a request that is not authentic changes
  nothing and learns nothing.
\<close>

subsection \<open>Requests keep the invariant\<close>

definition safe :: "env \<Rightarrow> ('e, 'a) action \<Rightarrow> bool" where
  "safe E m \<longleftrightarrow> triple (\<lambda>w. server_inv E w \<and> roomy (w_db w)) m (\<lambda>_. server_inv E)"

named_theorems safe_intros \<open>actions that keep the server invariant\<close>

lemma safe_keeps: "keeps (server_inv E) m \<Longrightarrow> safe E m"
  by (auto simp: safe_def keeps_def triple_def)

lemma safe_quiet: "quiet m \<Longrightarrow> safe E m"
  by (rule safe_keeps) simp

lemma timeless_pre [simp]: "timeless (\<lambda>w. server_inv E w \<and> roomy (w_db w))"
  using timeless_server(1) [of E] by (auto simp: timeless_def)

lemma safe_after_quiet: "quiet m \<Longrightarrow> (\<And>a. safe E (f a)) \<Longrightarrow> safe E (bnd m f)"
  unfolding safe_def by (rule before_quiet) auto

lemma safe_then_keeps: "safe E m \<Longrightarrow> (\<And>a. keeps (server_inv E) (f a)) \<Longrightarrow> safe E (bnd m f)"
  unfolding safe_def by (rule then_keeps)

lemma safe_if: "(c \<Longrightarrow> safe E m) \<Longrightarrow> (\<not> c \<Longrightarrow> safe E m') \<Longrightarrow> safe E (if c then m else m')"
  by simp

lemma safe_catch: "safe E m \<Longrightarrow> (\<And>r. keeps (server_inv E) (f r)) \<Longrightarrow> safe E (catch m f)"
  unfolding safe_def
  by (rule triple_catch [where R = "\<lambda>_. server_inv E"]) (auto simp: keeps_def triple_def split: outcome.split)

lemma safe_handlers [safe_intros]:
  "nul \<notin> set b \<Longrightarrow> nul \<notin> set k \<Longrightarrow> safe E (put_object E b k hs body)"
  "nul \<notin> set b \<Longrightarrow> nul \<notin> set k \<Longrightarrow> safe E (copy_object E b k src hs)"
  "nul \<notin> set b \<Longrightarrow> nul \<notin> set k \<Longrightarrow> safe E (complete_multipart_upload E b k u body)"
  "nul \<notin> set b \<Longrightarrow> nul \<notin> set k \<Longrightarrow> uuids_ok E \<Longrightarrow> safe E (create_multipart_upload E b k hs)"
  "nul \<notin> set b \<Longrightarrow> nul \<notin> set k \<Longrightarrow> uuids_ok E \<Longrightarrow> safe E (delete_object E b k v)"
  "safe E (upload_part E b k u n hs body)"
  "safe E (upload_part_copy E b k u n src hs)"
  using put_object_server copy_object_server complete_multipart_server create_multipart_server keeps_delete_object
    upload_part_server upload_part_copy_server roomy_counts
  by (auto simp: safe_def triple_def sweep_inv_def)

lemma keeps_cors [simp, intro]:
  "keeps (server_inv E) (put_bucket_cors E b body)" "keeps (server_inv E) (delete_bucket_cors E b)"
  by (auto simp: put_bucket_cors_def delete_bucket_cors_def update_cors_or_404_def
      intro!: keeps_bnd keeps_catch keeps_pure split: sum.split unit.split meta_error.split)

lemma quiet_answers [simp, intro]:
  "quiet (get_bucket_versioning E b)" "quiet (get_bucket_location E b)" "quiet (get_bucket_lifecycle E b)"
  "quiet (get_bucket_object_lock_config E b)" "quiet (head_bucket E b)" "quiet (handler_list_buckets E)"
  "quiet (get_object_tagging E b k v)" "quiet (get_object_retention E b k v)" "quiet (get_object_legal_hold E b k v)"
  "quiet not_implemented"
  by (auto simp: get_bucket_versioning_def get_bucket_location_def get_bucket_lifecycle_def
      get_bucket_object_lock_config_def head_bucket_def handler_list_buckets_def get_object_tagging_def
      get_object_retention_def get_object_legal_hold_def not_implemented_def Let_def
      intro!: quiet_rules split: option.split)

lemma quiet_page_parts [simp, intro]:
  "quiet (split_items X enc items)" "quiet (split_versions X enc entries)" "quiet (require_bucket_exists E b)"
  unfolding split_items_def split_versions_def require_bucket_exists_def content_of_def Let_def
  by (auto intro!: quiet_for_each quiet_rules split: list_item.split manifest_kind.split prod.split)

lemma quiet_list_answers [simp, intro]:
  "quiet (handler_list_object_versions E b q)" "quiet (handler_list_objects E b q)" "quiet (list_parts E b k u)"
  unfolding handler_list_object_versions_def handler_list_objects_def list_v1_def list_v2_def list_parts_def Let_def
  by (auto intro!: quiet_rules split: option.split prod.split)

lemma safe_bucket_requests: "safe E (handle_bucket E cfg mth b query hs body)"
  unfolding handle_bucket_def Let_def
  using keeps_bucket_handlers [of E]
  by (intro safe_if) (auto intro: safe_quiet safe_keeps)

lemma safe_object_requests:
  assumes "nul \<notin> set b" "nul \<notin> set k" "uuids_ok E"
  shows "safe E (handle_object E mth b k query hs body)"
  unfolding handle_object_def Let_def
  using keeps_metadata_handlers [of E] keeps_abort [of E] assms
  by (intro safe_if)
    (auto intro: safe_quiet safe_keeps safe_intros intro!: safe_after_quiet quiet_bnd)

lemma safe_request:
  assumes "extract_addressing host uri cfg = Inr ad" "nul \<notin> set uri" "uuids_ok E"
  shows "safe E (handle_request E cfg mth ad query hs body)"
proof -
  have "nul \<notin> set b" if "ad_bucket ad = Some b" for b
    using extract_wf(1) [OF assms(1) that] valid_bucket_bytes [of b nul] by blast
  moreover have "nul \<notin> set k" if "ad_key ad = Some k" for k
    using extract_wf(3) [OF assms(1) that] assms(2) by blast
  ultimately show ?thesis
    using safe_bucket_requests safe_object_requests assms(3)
    by (auto simp: handle_request_def intro: safe_quiet split: option.split)
qed

subsection \<open>The middleware stack\<close>

lemma snd_respond [simp]: "snd (respond X f m w) = snd (m w)"
  by (auto simp: respond_def catch_def ret_def split: prod.split outcome.split)

lemma snd_request_id [simp]: "snd (request_id_mw X rid nxt rq w) = snd (nxt (Some rid) rq w)"
  by (auto simp: request_id_mw_def bnd_def ret_def split: prod.split outcome.split)

lemma quiet_respond [intro]: "quiet m \<Longrightarrow> quiet (respond X f m)"
  by (simp add: quiet_def)

lemma snd_count [simp]: "snd (count_or_none m w) = snd (m w)"
  by (auto simp: count_or_none_def split: prod.split outcome.split)

lemma safe_respond: "safe E m \<Longrightarrow> safe E (respond X f m)"
  by (simp add: safe_def triple_def)

lemma safe_dispatch:
  assumes "nul \<notin> set (rq_path rq)" "uuids_ok E"
  shows "safe E (dispatch E cfg rid rq)"
proof (cases "extract_addressing (header_str (e_crates E) (rq_headers rq) ''host'') (rq_path rq) cfg")
  case (Inr ad)
  note safe_request [OF Inr assms]
  then show ?thesis
    by (auto simp: dispatch_def Let_def Inr intro!: safe_respond safe_after_quiet)
qed (auto simp: dispatch_def Let_def intro!: safe_quiet quiet_respond)

text \<open>The signature library hands back the request it was given, up to its headers and body.\<close>

definition same_target :: "auth_lib \<Rightarrow> bool" where
  "same_target A \<longleftrightarrow> (\<forall>svc region service now rq rq'. au_validate A svc region service now rq = Inr rq' \<longrightarrow>
     rq_method rq' = rq_method rq \<and> rq_path rq' = rq_path rq)"

lemma authentic_target: "same_target A \<Longrightarrow> authentic E A cfg now rq rq' \<Longrightarrow> rq_path rq' = rq_path rq"
  by (auto simp: authentic_def same_target_def split: if_splits)

lemma safe_service:
  assumes "nul \<notin> set (rq_path rq)" "uuids_ok E" "same_target A"
  shows "safe E (s3_service E A cfg rid rq)"
proof -
  have "server_inv E (snd (sigv4_mw E A cfg rid (\<lambda>_. dispatch E cfg rid) rq w))"
    if w: "server_inv E w" "roomy (w_db w)" for w
    using sigv4_mw_cases [of rq E A cfg rid "\<lambda>_. dispatch E cfg rid" w]
  proof (elim disjE exE conjE)
    assume "sigv4_mw E A cfg rid (\<lambda>_. dispatch E cfg rid) rq w = dispatch E cfg rid rq w"
    then show ?thesis using safe_dispatch [OF assms(1,2)] w by (simp add: safe_def triple_def)
  next
    fix rq'
    assume "authentic E A cfg (e_clock E (w_tick w)) rq rq'"
      and "sigv4_mw E A cfg rid (\<lambda>_. dispatch E cfg rid) rq w = dispatch E cfg rid rq' (tick w)"
    then show ?thesis
      using safe_dispatch [of rq' E cfg rid] assms w authentic_target [OF assms(3)]
      by (simp add: safe_def triple_def server_inv_def)
  qed (use w in \<open>auto simp: server_inv_def\<close>)
  then show ?thesis by (simp add: s3_service_def safe_def triple_def)
qed

lemma quiet_count [intro]: "quiet m \<Longrightarrow> quiet (count_or_none m)"
  by (simp add: quiet_def)

lemma quiet_public [simp, intro]: "quiet (get_route health_handler mth)" "quiet (get_route (metrics_handler E) mth)"
  unfolding get_route_def health_handler_def metrics_handler_def
  by (auto intro!: quiet_bnd quiet_count)

lemma snd_build_app:
  "snd (build_app E A cfg rid rq w) =
     (if rq_path rq = ''/health'' then snd (get_route health_handler (rq_method rq) w)
      else if rq_path rq = ''/metrics'' then snd (get_route (metrics_handler E) (rq_method rq) w)
      else snd (s3_service E A cfg (Some rid) rq w))"
  by (simp add: build_app_def)

lemma build_app_inv:
  assumes "nul \<notin> set (rq_path rq)" "uuids_ok E" "same_target A" and "server_inv E w" "roomy (w_db w)"
  shows "server_inv E (snd (build_app E A cfg rid rq w))"
  using assms safe_service [OF assms(1-3)] safe_quiet [OF quiet_public(1)] safe_quiet [OF quiet_public(2)]
  by (simp add: snd_build_app safe_def triple_def)

text \<open>A library that accepts one header value, and two requests.\<close>

definition toy_lib :: auth_lib where
  "toy_lib = \<lparr>au_validate = (\<lambda>svc region service now rq.
     if header_get (rq_headers rq) ''authorization'' = Some ''ok'' then Inr rq else Inl (SigDoesNotMatch, ''no''))\<rparr>"

definition toy_id :: request_id where
  "toy_id = \<lparr>ri_request_id = ''0011223344556677'', ri_host_id = ''aa''\<rparr>"

definition toy_request :: "http_method \<Rightarrow> string \<Rightarrow> header_map \<Rightarrow> bytes \<Rightarrow> http_request" where
  "toy_request mth path hs body =
     \<lparr>rq_method = mth, rq_path = path, rq_query = None, rq_headers = hs, rq_body = body\<rparr>"

subsection \<open>Authentication\<close>





subsection \<open>The answer to a refused request\<close>













lemma echo_id_keeps [simp]:
  "rs_status (echo_id X n v resp) = rs_status resp" "rs_body (echo_id X n v resp) = rs_body resp"
  by (simp_all add: echo_id_def)

lemma decorate_code [simp]: "se_code (decorate_auth path rid e) = se_code e"
  by (simp add: decorate_auth_def Let_def with_request_id_def split: option.split)




subsection \<open>Reachable states\<close>

text \<open>
  The states of a running server: it starts with empty tables and serves requests one after
  the other, with whatever configuration is loaded at the time; webhook deliveries and
  maintenance sweeps run in between.  (Requests that overlap are the subject of theory
  \<^theory_text>\<open>GcRace\<close>.)
\<close>

inductive http_reach :: "env \<Rightarrow> auth_lib \<Rightarrow> net \<Rightarrow> world \<Rightarrow> bool" for E A N where
  http_start: "http_reach E A N initial_world"
| http_request: "http_reach E A N w \<Longrightarrow> roomy (w_db w) \<Longrightarrow> nul \<notin> set (rq_path rq) \<Longrightarrow>
    http_reach E A N (snd (build_app E A cfg rid rq w))"
| http_sweep: "http_reach E A N w \<Longrightarrow> roomy (w_db w) \<Longrightarrow> http_reach E A N (snd (sweep_at E now w))"
| http_delivery: "http_reach E A N w \<Longrightarrow> http_reach E A N (snd (deliver_with_retry E N t w))"

lemma queued_inv:
  assumes "server_inv E w"
  shows "server_inv E (w\<lparr>w_tick := n, w_db := queued (w_db w) entry\<rparr>)"
proof -
  have "store_inv (w_db w)" using assms by (simp add: server_inv_def world_inv_def)
  then have "store_inv (queued (w_db w) entry)"
    by (rule store_inv_frame) (simp_all add: queued_def store_inv_D [OF \<open>store_inv (w_db w)\<close>])
  then show ?thesis
    using assms refs_cong [of "queued (w_db w) entry" "w_db w"] in_progress_cong [of "queued (w_db w) entry" "w_db w"]
    by (simp add: server_inv_def world_inv_def uploads_named_def)
qed

lemma deliver_inv: "server_inv E w \<Longrightarrow> server_inv E (snd (deliver_with_retry E N t w))"
  using deliver_effect [of E N t w] queued_inv [of E w] by (auto simp: server_inv_def world_inv_def)

lemma http_reach_inv:
  assumes "http_reach E A N w" "uuids_ok E" "same_target A"
  shows "server_inv E w"
  using assms(1)
proof induction
  case http_start
  show ?case by (rule server_reach_inv [OF server_start assms(2)])
next
  case (http_request w rq cfg rid)
  then show ?case using build_app_inv assms(2,3) by blast
next
  case (http_sweep w now)
  then show ?case using triple_snd [OF sweep_server] roomy_counts by (auto simp: sweep_inv_def)
qed (rule deliver_inv)

text \<open>
  C4.  No stored byte is lost or altered by the server, whatever requests it serves, whatever
  calls fail or crash halfway, and whatever the clock says: in every reachable state each part
  of each stored manifest has its file, the file's content has the hash that names it, and the
  part's row is live and counts exactly the references to it.  (Requests one after the other,
  UUIDs that are not the word \<^verbatim>\<open>null\<close>, reference counts below the 32-bit limit.)
\<close>

theorem reachable_objects_are_readable:
  assumes "http_reach E A N w" "uuids_ok E" "same_target A"
    and "tbl_get (objects (w_db w)) kb = Some m" "p \<in> set (m_parts m)"
  shows "\<exists>data row. w_blobs w (pr_hash p) = Some data \<and> blake3 (e_crates E) data = pr_hash p \<and>
     tbl_get (parts (w_db w)) (pr_hash p) = Some row \<and> pe_state row = Live \<and>
     pe_refcount row = refs (w_db w) (pr_hash p) \<and> 0 < pe_refcount row"
proof -
  have inv: "store_inv (w_db w)" "blobs_ok (e_crates E) (w_blobs w)"
    "\<forall>h. 0 < refs (w_db w) h \<longrightarrow> w_blobs w h \<noteq> None"
    using http_reach_inv [OF assms(1-3)] by (auto simp: server_inv_def world_inv_def)
  have "mentions (w_db w) (pr_hash p)" using assms(4,5) by (auto simp: mentions_def part_hashes_def)
  then have pos: "0 < refs (w_db w) (pr_hash p)" using mentions_refs store_inv_D(1) [OF inv(1)] by blast
  have "count_of (parts (w_db w)) (pr_hash p) = refs (w_db w) (pr_hash p)" "\<not> pending (parts (w_db w)) (pr_hash p)"
    using store_inv_D(3) [OF inv(1)] pos by (auto simp: refs_exact_def)
  then show ?thesis
    using inv(2,3) pos by (auto simp: blobs_ok_def count_of_def pending_def split: option.splits) (metis part_state.exhaust)
qed

definition toy_auth :: header_map where
  "toy_auth = [(''authorization'', ''ok'')]"

lemma toy_service:
  "path \<noteq> ''/health'' \<Longrightarrow> path \<noteq> ''/metrics'' \<Longrightarrow> length body \<le> 67108864 \<Longrightarrow>
     snd (build_app toy_env toy_lib toy_config toy_id (toy_request PUT path toy_auth body) w) =
     snd (dispatch toy_env toy_config (Some toy_id) (toy_request PUT path toy_auth body) (tick w))"
  by (simp add: snd_build_app s3_service_def sigv4_mw_def is_presigned_def toy_request_def to_bytes_def toy_config_def
      server_config_new_def default_max_body_def bnd_def now_utc_def toy_lib_def header_get_def toy_auth_def)

lemma toy_valid: "valid_bucket ''bkt''"
  by (simp add: valid_bucket_iff bucket_byte_def in_range_def)

lemma toy_dispatch:
  "snd (dispatch toy_env toy_config rid (toy_request PUT ''/bkt'' toy_auth []) w) =
     snd (handler_create_bucket toy_env ''eu'' ''bkt'' toy_auth w)"
  "snd (dispatch toy_env toy_config rid (toy_request PUT ''/bkt/k'' toy_auth ''hi'') w) =
     snd (put_object toy_env ''bkt'' ''k'' toy_auth ''hi'' w)"
  using path_style_bucket [OF toy_valid] path_style_object [OF toy_valid, of "''k''"]
  by (simp_all add: toy_request_def dispatch_def Let_def extract_addressing_def to_bytes_def toy_config_def
      server_config_new_def default_max_body_def handle_request_def handle_bucket_def handle_object_def
      has_query_flag_def query_value_def header_get_def toy_auth_def)

definition toy_http_created :: world where
  "toy_http_created = snd (build_app toy_env toy_lib toy_config toy_id (toy_request PUT ''/bkt'' toy_auth []) initial_world)"

definition toy_http_stored :: world where
  "toy_http_stored = snd (build_app toy_env toy_lib toy_config toy_id (toy_request PUT ''/bkt/k'' toy_auth ''hi'') toy_http_created)"

lemma toy_created: "toy_http_created = toy_world [(''bkt'', toy_bucket Off\<lparr>bc_created_at := 1\<rparr>)] [] [] [] 3"
proof -
  have eq: "toy_http_created = snd (handler_create_bucket toy_env ''eu'' ''bkt'' toy_auth (tick initial_world))"
    unfolding toy_http_created_def by (subst toy_service) (simp_all add: toy_dispatch)
  show ?thesis
    unfolding eq
    by (simp add: handler_create_bucket_def header_str_def header_get_def toy_auth_def Let_def bnd_def now_utc_def
        catch_def write_eqs write_result_def handle_create_bucket_def initial_world_def bootstrap_tables_def
        toy_defs tick_def ret_def split: unit.split)
qed

lemma toy_stored_row:
  "tbl_get (objects (w_db toy_http_stored)) (encode (new_key ''bkt'' ''k'' ''null'')) = Some (toy_object ''null'' ''hi'' None 6)"
proof -
  have eq: "toy_http_stored = snd (put_object toy_env ''bkt'' ''k'' toy_auth ''hi'' (tick toy_http_created))"
    unfolding toy_http_stored_def by (subst toy_service) (simp_all add: toy_dispatch)
  show ?thesis
    unfolding eq by (simp add: put_eval toy_created toy_defs toy_auth_def fun_eq_iff strip_prefix_def)
qed

lemma toy_http_reach: "http_reach toy_env toy_lib toy_net toy_http_stored"
proof -
  have "http_reach toy_env toy_lib toy_net toy_http_created"
    unfolding toy_http_created_def
    by (rule http_request [OF http_start]) (simp_all add: toy_roomy initial_world_def bootstrap_tables_def toy_request_def)
  then show ?thesis
    unfolding toy_http_stored_def
    by (rule http_request) (simp_all add: toy_roomy toy_created toy_world_def toy_request_def)
qed

theorem reachable_objects_are_readable_witness:
  "\<exists>data row. w_blobs toy_http_stored ''hi'' = Some data \<and> blake3 toy_crates data = ''hi'' \<and>
     tbl_get (parts (w_db toy_http_stored)) ''hi'' = Some row \<and> pe_state row = Live \<and> 0 < pe_refcount row"
proof -
  have "same_target toy_lib" by (auto simp: same_target_def toy_lib_def split: if_splits)
  from reachable_objects_are_readable [OF toy_http_reach toy_uuids this toy_stored_row]
  show ?thesis by (auto simp: toy_object_def toy_env_def)
qed

end
