(* ===== verification/RequestProps.thy ===== *)
theory RequestProps
  imports Addressing Cors PresignedProps Toy
begin

text \<open>
  Addressing, CORS and configuration: the two addressing styles name the same object, a CORS
  configuration comes back as it was put, a preflight is granted only by a rule that matches,
  and exactly the well-formed configuration files are accepted.
\<close>

subsection \<open>Addressing\<close>

lemma no_virtual_self: "virtual_hosted_bucket e e = None"
  by (auto simp: virtual_hosted_bucket_def strip_suffix_def suffix_def dest: arg_cong [of _ _ length])

text \<open>
  C23.  Virtual-hosted and path-style requests agree: with an endpoint host \<open>e\<close> configured, the
  host \<^verbatim>\<open>b.e\<close> (with or without a port) and the path \<^verbatim>\<open>/k\<close> name the same bucket and key as the host
  \<^verbatim>\<open>e\<close> and the path \<^verbatim>\<open>/b/k\<close>, for every valid bucket name and every key.
\<close>

theorem virtual_hosted_is_path_style:
  assumes "valid_bucket b" and "sc_endpoint_host cfg = Some e" "e \<noteq> []" "CHR '':'' \<notin> set e"
    and "port = [] \<or> (\<exists>n. port = CHR '':'' # n \<and> CHR '':'' \<notin> set n)"
  shows "extract_addressing (Some (b @ CHR ''.'' # e @ port)) (CHR ''/'' # k) cfg =
      Inr \<lparr>ad_bucket = Some b, ad_key = (if k = [] then None else Some k)\<rparr> \<and>
    extract_addressing (Some (e @ port)) (CHR ''/'' # b @ CHR ''/'' # k) cfg =
      Inr \<lparr>ad_bucket = Some b, ad_key = (if k = [] then None else Some k)\<rparr>"
proof -
  have colon: "CHR '':'' \<notin> set (b @ CHR ''.'' # e)" using valid_bucket_bytes [OF assms(1)] assms(4) by auto
  have "strip_port (h @ port) = h" if "CHR '':'' \<notin> set h" "h \<noteq> []" for h
    using assms(5) strip_port_plain [OF that(1)] strip_port_port [OF that(2)] by auto
  from this [OF colon] this [OF assms(4,3)]
  have "strip_port (b @ CHR ''.'' # e @ port) = b @ CHR ''.'' # e" "strip_port (e @ port) = e" by simp_all
  then show ?thesis
    using assms(1-3) path_style_object [OF assms(1)]
    by (auto simp: extract_addressing_def virtual_hosted_of no_virtual_self path_to_key_def valid_bucket_def Let_def)
qed

theorem virtual_hosted_is_path_style_witness:
  "extract_addressing (Some ''bkt.s3.local:9000'') ''/k''
     (server_config_new [] [] [] []\<lparr>sc_endpoint_host := Some ''s3.local''\<rparr>) = Inr \<lparr>ad_bucket = Some ''bkt'', ad_key = Some ''k''\<rparr>"
proof -
  have v: "valid_bucket ''bkt''" by (simp add: valid_bucket_iff bucket_byte_def in_range_def)
  show ?thesis
    using virtual_hosted_is_path_style [OF v, of "server_config_new [] [] [] []\<lparr>sc_endpoint_host := Some ''s3.local''\<rparr>"
        "''s3.local''" "'':9000''" "''k''"]
    by simp
qed

subsection \<open>CORS\<close>

lemma xml_of_cors_rule_of_xml [simp]: "xml_of_cors_rule (cors_rule_of_xml r) = r"
  by (cases r) (simp add: cors_rule_of_xml_def xml_of_cors_rule_def)

lemma update_cors_or_404_Ok:
  "update_cors_or_404 E b rules st w = (Ok r, w') \<longleftrightarrow>
     update_bucket_cors E b rules w = (Ok (), w') \<and> r = empty_response st"
  by (auto simp: update_cors_or_404_def catch_Ok split: unit.splits meta_error.splits sum.splits)
    (metis meta_error.exhaust)+

lemma cors_document_eta [simp]: "\<lparr>cx_rules = cx_rules doc\<rparr> = doc"
  by (cases doc) simp

lemma update_cors_Ok:
  assumes "update_bucket_cors E b rules w = (Ok u, w')"
  shows "\<exists>cfg. tbl_get (buckets (w_db w')) b = Some (cfg\<lparr>bc_cors_rules := rules\<rparr>)"
  using assms by (auto simp: write_eqs write_result_Ok handle_update_bucket_cors_def split: option.splits)

text \<open>
  C25.  A CORS configuration comes back as it was put: after a successful PUT of a configuration
  with rules, GET answers with the document that was put.
\<close>

theorem cors_round_trip:
  assumes "put_bucket_cors E b body w = (Ok r, w')" and "parse_cors_xml (e_crates E) body = Inr doc" "cx_rules doc \<noteq> []"
    and "e_meta_fault E (w_tick w') = None"
  shows "get_bucket_cors E b w' = (Ok (xml_response (e_crates E) (CorsDoc doc)), tick w')"
proof -
  let ?rules = "List.map cors_rule_of_xml (cx_rules doc)"
  have "update_bucket_cors E b ?rules w = (Ok (), w')"
    using assms(1,2) by (simp add: put_bucket_cors_def update_cors_or_404_Ok)
  then obtain cfg where "tbl_get (buckets (w_db w')) b = Some (cfg\<lparr>bc_cors_rules := ?rules\<rparr>)"
    using update_cors_Ok by blast
  then show ?thesis
    using assms(3,4)
    by (simp add: get_bucket_cors_def bnd_def meta_def map_err_def catch_def read_eqs read_result_def ret_def
        ok_or_def comp_def)
qed

definition toy_cors_doc :: cors_configuration where
  "toy_cors_doc = \<lparr>cx_rules = [\<lparr>cx_id = None, cx_allowed_origin = [''http://*.a''], cx_allowed_method = [''GET''],
     cx_allowed_header = [], cx_expose_header = [], cx_max_age_seconds = None\<rparr>]\<rparr>"

definition toy_cors_env :: env where
  "toy_cors_env = toy_env\<lparr>e_crates := toy_crates\<lparr>parse_cors_xml := (\<lambda>_. Inr toy_cors_doc)\<rparr>\<rparr>"

lemma toy_cors_put:
  "\<exists>r w'. put_bucket_cors toy_cors_env ''bkt'' [] toy_start = (Ok r, w') \<and>
     tbl_get (buckets (w_db w')) ''bkt'' = Some (toy_bucket Off\<lparr>bc_cors_rules := List.map cors_rule_of_xml (cx_rules toy_cors_doc)\<rparr>)"
  by (simp add: put_bucket_cors_def update_cors_or_404_def catch_def write_eqs write_result_def
      handle_update_bucket_cors_def toy_cors_env_def toy_start_def toy_env_def toy_crates_def toy_world_def tbl_get_def ret_def tick_def
      split: unit.split)

theorem cors_round_trip_witness:
  "\<exists>w'. get_bucket_cors toy_cors_env ''bkt'' w' =
     (Ok (xml_response (e_crates toy_cors_env) (CorsDoc toy_cors_doc)), tick w')"
proof -
  obtain r w' where "put_bucket_cors toy_cors_env ''bkt'' [] toy_start = (Ok r, w')" using toy_cors_put by blast
  from cors_round_trip [OF this, of toy_cors_doc] show ?thesis
    by (auto simp: toy_cors_env_def toy_cors_doc_def toy_env_def)
qed

text \<open>Whether an origin fits an allowed origin: equal, or with the first star replaced.\<close>

definition fits :: "string \<Rightarrow> string \<Rightarrow> bool" where
  "fits allowed origin \<longleftrightarrow>
     (CHR ''*'' \<notin> set allowed \<and> allowed = origin) \<or>
     (\<exists>head mid tail. CHR ''*'' \<notin> set head \<and> allowed = head @ CHR ''*'' # tail \<and> origin = head @ mid @ tail)"

lemma origin_matches_iff: "origin_matches allowed origin \<longleftrightarrow> fits allowed origin"
proof (cases "CHR ''*'' \<in> set allowed")
  case True
  obtain head tail where "allowed = head @ CHR ''*'' # tail" "CHR ''*'' \<notin> set head"
    using split_list_first [OF True] by blast
  then show ?thesis using origin_matches_star [of head tail origin] by (auto simp: fits_def append_sep_inject)
next
  case False
  then show ?thesis using origin_matches_plain [of allowed origin] by (auto simp: fits_def)
qed

lemma response_header_set [simp]:
  "map_of (rs_headers (set_header X n v r)) n' =
     (if header_name_ok X n \<and> header_value_ok X v \<and> n = n' then Some v else map_of (rs_headers r) n')"
proof -
  have "map_of (filter (\<lambda>e. fst e \<noteq> n) xs) n' = (if n = n' then None else map_of xs n')" for xs :: "(string \<times> string) list"
    by (induction xs) auto
  then show ?thesis by (auto simp: set_header_def insert_header_def map_add_def split: option.split)
qed

text \<open>What a rule must allow for a preflight of an origin, a method and a list of headers.\<close>

definition grants :: "cors_rule \<Rightarrow> string \<Rightarrow> string \<Rightarrow> string list \<Rightarrow> bool" where
  "grants rule origin mth requested \<longleftrightarrow>
     (\<exists>a\<in>set (cr_allowed_origins rule). fits a origin) \<and>
     (\<exists>m\<in>set (cr_allowed_methods rule). List.map lower m = List.map lower mth) \<and>
     (\<forall>h\<in>set requested. \<exists>a\<in>set (cr_allowed_headers rule). a = ''*'' \<or> List.map lower a = List.map lower h)"

lemma cors_rule_matches_iff: "cors_rule_matches rule origin mth req \<longleftrightarrow> grants rule origin mth req"
  by (auto simp: cors_rule_matches_def grants_def origin_matches_iff list_ex_iff list_all_iff eq_ignore_ascii_case_def)

lemma pick_rule_cases:
  "case pick_rule rules origin mth req of
     None \<Rightarrow> \<not> (\<exists>rule\<in>set rules. grants rule origin mth req)
   | Some rule \<Rightarrow> rule \<in> set rules \<and> grants rule origin mth req"
  by (auto simp: pick_rule_def cors_rule_matches_iff find_None_iff find_Some_iff split: option.split)

lemma preflight_origin:
  "map_of (rs_headers (preflight_response X rule origin req)) ''access-control-allow-origin'' =
     (if header_name_ok X ''access-control-allow-origin'' \<and> header_value_ok X (echo_origin rule origin)
      then Some (echo_origin rule origin) else None)"
  by (simp add: preflight_response_def Let_def empty_response_def split: option.split)

lemma preflight_status: "rs_status (preflight_response X rule origin req) = 200"
  by (simp add: preflight_response_def Let_def empty_response_def split: option.split)

text \<open>
  C24.  A preflight is granted exactly when some rule of the bucket allows its origin, its
  method and every header it announces; the answer then names no other origin than the
  caller's, or the star of a rule that has it.  Otherwise it is refused with
  \<open>AccessForbidden\<close>.
\<close>

theorem preflight_granted_iff:
  assumes "header_str (e_crates E) hs ''origin'' = Some origin"
    and "header_str (e_crates E) hs ''access-control-request-method'' = Some mth"
    and "tbl_get (buckets (w_db w)) b = Some cfg" and "e_meta_fault E (w_tick w) = None"
  shows "if \<exists>rule\<in>set (bc_cors_rules cfg). grants rule origin mth (requested_headers (e_crates E) hs)
    then \<exists>r rule. preflight E b hs w = (Ok r, tick w) \<and> rs_status r = 200 \<and> rule \<in> set (bc_cors_rules cfg) \<and>
      grants rule origin mth (requested_headers (e_crates E) hs) \<and>
      (\<forall>v. map_of (rs_headers r) ''access-control-allow-origin'' = Some v \<longrightarrow>
         v = origin \<or> v = ''*'' \<and> ''*'' \<in> set (cr_allowed_origins rule))
    else \<exists>e. preflight E b hs w = (Err e, tick w) \<and> se_code e = AccessForbidden"
proof -
  let ?req = "requested_headers (e_crates E) hs"
  have run: "preflight E b hs w = (case pick_rule (bc_cors_rules cfg) origin mth ?req of
       None \<Rightarrow> (Err (s3_error_new AccessForbidden ''no CORS rule matches the preflight request''), tick w)
     | Some rule \<Rightarrow> (Ok (preflight_response (e_crates E) rule origin ?req), tick w))"
    using assms by (simp add: preflight_def Let_def bnd_def ok_or_def meta_def map_err_def catch_def read_eqs
        read_result_def ret_def fail_def comp_def split: option.split)
  have echo: "echo_origin rule origin = origin \<or> echo_origin rule origin = ''*'' \<and> ''*'' \<in> set (cr_allowed_origins rule)" for rule
    by (auto simp: echo_origin_def list_ex_iff)
  show ?thesis
  proof (cases "pick_rule (bc_cors_rules cfg) origin mth ?req")
    case None
    then show ?thesis using run pick_rule_cases [of "bc_cors_rules cfg" origin mth ?req] by simp
  next
    case (Some rule)
    then have *: "rule \<in> set (bc_cors_rules cfg)" "grants rule origin mth ?req"
      using pick_rule_cases [of "bc_cors_rules cfg" origin mth ?req] by simp_all
    have "\<forall>v. map_of (rs_headers (preflight_response (e_crates E) rule origin ?req)) ''access-control-allow-origin'' = Some v \<longrightarrow>
         v = origin \<or> v = ''*'' \<and> ''*'' \<in> set (cr_allowed_origins rule)"
      using echo [of rule] unfolding preflight_origin by (auto split: if_splits)
    moreover have "preflight E b hs w = (Ok (preflight_response (e_crates E) rule origin ?req), tick w)"
      using run Some by simp
    ultimately show ?thesis using * preflight_status by (metis (no_types, lifting))
  qed
qed

definition toy_preflight_headers :: header_map where
  "toy_preflight_headers = [(''origin'', ''http://x.a''), (''access-control-request-method'', ''GET'')]"

definition toy_cors_world :: world where
  "toy_cors_world = toy_world [(''bkt'', toy_bucket Off\<lparr>bc_cors_rules := List.map cors_rule_of_xml (cx_rules toy_cors_doc)\<rparr>)] [] [] [] 2"

theorem preflight_granted_iff_witness:
  "\<exists>r. preflight toy_cors_env ''bkt'' toy_preflight_headers toy_cors_world = (Ok r, tick toy_cors_world) \<and> rs_status r = 200"
proof -
  let ?rule = "cors_rule_of_xml (hd (cx_rules toy_cors_doc))"
  let ?cfg = "toy_bucket Off\<lparr>bc_cors_rules := [?rule]\<rparr>"
  have "fits ''http://*.a'' ''http://x.a''" unfolding fits_def
    by (intro disjI2 exI [of _ "''http://''"] exI [of _ "''x''"] exI [of _ "''.a''"]) simp
  then have g: "grants ?rule ''http://x.a'' ''GET'' (requested_headers (e_crates toy_cors_env) toy_preflight_headers)"
    by (simp add: grants_def cors_rule_of_xml_def toy_cors_doc_def requested_headers_def header_str_def header_get_def
        toy_preflight_headers_def)
  have h: "header_str (e_crates toy_cors_env) toy_preflight_headers ''origin'' = Some ''http://x.a''"
    "header_str (e_crates toy_cors_env) toy_preflight_headers ''access-control-request-method'' = Some ''GET''"
    by (simp_all add: header_str_def header_get_def toy_preflight_headers_def toy_cors_env_def toy_crates_def)
  have c: "tbl_get (buckets (w_db toy_cors_world)) ''bkt'' = Some ?cfg"
    by (simp add: toy_cors_world_def toy_world_def tbl_get_def toy_cors_doc_def)
  have f: "e_meta_fault toy_cors_env (w_tick toy_cors_world) = None"
    by (simp add: toy_cors_env_def toy_env_def)
  have "bc_cors_rules ?cfg = [?rule]" by simp
  then show ?thesis using preflight_granted_iff [OF h c f] g by (auto split: if_splits)
qed

subsection \<open>Configuration\<close>

text \<open>The event names a webhook may subscribe to, with or without the \<^verbatim>\<open>s3:\<close> prefix.\<close>

definition known_event :: "string \<Rightarrow> bool" where
  "known_event e \<longleftrightarrow> (\<exists>t. e = event_str t \<or> e = drop 3 (event_str t))"

lemma parse_events_ok: "(\<exists>ts. parse_events es = Inr ts) \<longleftrightarrow> list_all known_event es"
proof (induction es)
  case (Cons e es)
  have "(\<exists>t. parse_event_type e = Inr t) \<longleftrightarrow> known_event e" by (simp add: parse_event_type_Inr known_event_def)
  then show ?case using Cons by (auto split: sum.split)
qed auto

lemma parse_webhooks_ok:
  "(\<exists>subs. parse_webhooks ws = Inr subs) \<longleftrightarrow> list_all (\<lambda>h. list_all known_event (wf_events h)) ws"
proof (induction ws)
  case (Cons h ws)
  then show ?case by (auto simp flip: parse_events_ok split: sum.split)
qed auto

text \<open>
  C35.  The configurations accepted are exactly those whose file parses, whose webhooks name
  only known event types, and which give both TLS paths or neither.
\<close>

theorem config_accepted_iff:
  "(\<exists>c. load_config toml text = Inr c) \<longleftrightarrow>
     (\<exists>s f. text = Inr s \<and> toml s = Inr f \<and> list_all (\<lambda>h. list_all known_event (wf_events h)) (cf_webhooks f) \<and>
        (cf_tls_cert_path f = None \<longleftrightarrow> cf_tls_key_path f = None))"
proof -
  have "(\<exists>c. config_of_file f = Inr c) \<longleftrightarrow>
      (\<exists>subs. parse_webhooks (cf_webhooks f) = Inr subs) \<and> (cf_tls_cert_path f = None \<longleftrightarrow> cf_tls_key_path f = None)" for f
    by (auto simp: config_of_file_def split: sum.split option.split)
  then show ?thesis unfolding load_config_def parse_webhooks_ok [symmetric] by (auto split: sum.split)
qed

end
