(* ===== verification/FileTree.thy ===== *)
theory FileTree
  imports Prelude "HOL-Library.AList"
begin

text \<open>
  Directory trees, as the offline commands of \<^verbatim>\<open>src/admin.rs\<close> and the start of the server see them
  through \<^verbatim>\<open>std::fs\<close>: reading, creating directories, writing files.  A path is the list of its
  components below the root of the tree.  Permissions and links are left out.
\<close>

datatype node = File bytes | Directory "(string \<times> node) list"

type_synonym path = "string list"

fun lookup :: "node \<Rightarrow> path \<Rightarrow> node option" where
  "lookup n [] = Some n"
| "lookup (File b) (p # ps) = None"
| "lookup (Directory es) (p # ps) = (case map_of es p of None \<Rightarrow> None | Some n \<Rightarrow> lookup n ps)"

definition file_at :: "node \<Rightarrow> path \<Rightarrow> bytes option" where
  "file_at n ps = (case lookup n ps of Some (File b) \<Rightarrow> Some b | _ \<Rightarrow> None)"

text \<open>Why an operation failed; a missing file is told apart from everything else.\<close>

datatype io_error = NotFound | OtherIo string

definition not_a_directory :: io_error where "not_a_directory = OtherIo ''Not a directory''"

definition is_a_directory :: io_error where "is_a_directory = OtherIo ''Is a directory''"

text \<open>\<^verbatim>\<open>fs::create_dir_all\<close>\<close>

fun mkdirs :: "node \<Rightarrow> path \<Rightarrow> io_error + node" where
  "mkdirs (Directory es) [] = Inr (Directory es)"
| "mkdirs (Directory es) (p # ps) =
     (case mkdirs (case map_of es p of None \<Rightarrow> Directory [] | Some n \<Rightarrow> n) ps of
        Inl e \<Rightarrow> Inl e
      | Inr n \<Rightarrow> Inr (Directory (AList.update p n es)))"
| "mkdirs (File b) ps = Inl not_a_directory"

text \<open>Writing a file whose directory exists, as \<^verbatim>\<open>fs::write\<close> and \<^verbatim>\<open>fs::copy\<close> do.\<close>

fun write_file :: "node \<Rightarrow> path \<Rightarrow> bytes \<Rightarrow> io_error + node" where
  "write_file n [] b = Inl is_a_directory"
| "write_file (File c) (p # ps) b = Inl not_a_directory"
| "write_file (Directory es) [p] b =
     (case map_of es p of
        Some (Directory _) \<Rightarrow> Inl is_a_directory
      | _ \<Rightarrow> Inr (Directory (AList.update p (File b) es)))"
| "write_file (Directory es) (p # q # ps) b =
     (case map_of es p of
        None \<Rightarrow> Inl NotFound
      | Some n \<Rightarrow>
          (case write_file n (q # ps) b of
             Inl e \<Rightarrow> Inl e
           | Inr n' \<Rightarrow> Inr (Directory (AList.update p n' es))))"

text \<open>\<^verbatim>\<open>fs::read\<close>\<close>

definition read_file :: "node \<Rightarrow> path \<Rightarrow> io_error + bytes" where
  "read_file n ps =
     (case lookup n ps of
        None \<Rightarrow> Inl NotFound
      | Some (Directory _) \<Rightarrow> Inl is_a_directory
      | Some (File b) \<Rightarrow> Inr b)"

subsection \<open>Well-formed trees\<close>

text \<open>A directory has no two entries of the same name.\<close>

fun wf_node :: "node \<Rightarrow> bool" where
  "wf_node (File b) = True"
| "wf_node (Directory es) = (distinct (map fst es) \<and> (\<forall>e\<in>set es. wf_node (snd e)))"

subsection \<open>What the operations do to the files\<close>

lemma read_file_Inr: "read_file n ps = Inr b \<longleftrightarrow> file_at n ps = Some b"
  by (auto simp: read_file_def file_at_def split: option.split node.split)

lemma read_file_NotFound: "read_file n ps = Inl NotFound \<Longrightarrow> file_at n ps = None"
  by (auto simp: read_file_def file_at_def is_a_directory_def split: option.splits node.splits)

lemma file_at_nil [simp]: "file_at (File b) [] = Some b" "file_at (Directory es) [] = None"
  by (simp_all add: file_at_def)

lemma file_at_cons [simp]:
  "file_at (File b) (p # ps) = None"
  "file_at (Directory es) (p # ps) = (case map_of es p of None \<Rightarrow> None | Some n \<Rightarrow> file_at n ps)"
  by (auto simp: file_at_def split: option.split)

lemma file_at_empty [simp]: "file_at (Directory []) ps = None"
  by (cases ps) simp_all

lemma file_at_mkdirs: "mkdirs n ps = Inr n' \<Longrightarrow> file_at n' qs = file_at n qs"
proof (induction n ps arbitrary: n' qs rule: mkdirs.induct)
  case (2 es p ps)
  then show ?case by (cases qs) (auto simp: update_conv' split: sum.splits option.splits)
qed auto

lemma file_at_write: "write_file n ps b = Inr n' \<Longrightarrow> file_at n' qs = (if qs = ps then Some b else file_at n qs)"
proof (induction n ps b arbitrary: n' qs rule: write_file.induct)
  case (3 es p b)
  have "file_at (File c) rs = (if rs = [] then Some c else None)" for c rs by (cases rs) simp_all
  with 3 show ?case by (cases qs) (auto simp: update_conv' split: option.splits node.splits)
next
  case (4 es p q ps b)
  then show ?case by (cases qs) (auto simp: update_conv' split: sum.splits option.splits)
qed auto

lemma in_update: "e \<in> set (AList.update p n es) \<Longrightarrow> e = (p, n) \<or> e \<in> set es"
  by (induction es) (auto split: if_splits)

lemma wf_update: "wf_node (Directory es) \<Longrightarrow> wf_node n \<Longrightarrow> wf_node (Directory (AList.update p n es))"
  by (auto simp: distinct_update dest!: in_update)

lemma wf_child: "wf_node (Directory es) \<Longrightarrow> map_of es p = Some n \<Longrightarrow> wf_node n"
  by (auto dest: map_of_SomeD)

lemma wf_mkdirs: "mkdirs n ps = Inr n' \<Longrightarrow> wf_node n \<Longrightarrow> wf_node n'"
proof (induction n ps arbitrary: n' rule: mkdirs.induct)
  case (2 es p ps)
  then obtain m where "mkdirs (case map_of es p of None \<Rightarrow> Directory [] | Some n \<Rightarrow> n) ps = Inr m"
    "n' = Directory (AList.update p m es)" by (auto split: sum.splits)
  moreover have "wf_node (case map_of es p of None \<Rightarrow> Directory [] | Some n \<Rightarrow> n)"
    using wf_child [OF 2(3)] by (auto split: option.split)
  ultimately show ?case using 2 wf_update by blast
qed auto

lemma wf_write: "write_file n ps b = Inr n' \<Longrightarrow> wf_node n \<Longrightarrow> wf_node n'"
proof (induction n ps b arbitrary: n' rule: write_file.induct)
  case (3 es p b)
  then show ?case using wf_update [of es "File b" p] by (auto split: option.splits node.splits)
next
  case (4 es p q ps b)
  then obtain n m where "map_of es p = Some n" "write_file n (q # ps) b = Inr m" "n' = Directory (AList.update p m es)"
    by (auto split: option.splits sum.splits)
  then show ?case using 4 wf_update wf_child by blast
qed auto

end
