(* ===== verification/Admin.thy ===== *)
theory Admin
  imports FileTree Calls
begin

text \<open>
  \<^verbatim>\<open>src/admin.rs\<close>: offline backup, restore and integrity scan of a data directory.  The directory
  read from and the one written to are two separate trees.  The format of \<^verbatim>\<open>meta.redb\<close> is
  third-party code and a parameter; every file operation and every call of the metadata store
  may fail, as the environment decides for its number.  A failed operation leaves the trees as
  they were: partly written files are left out.
\<close>

datatype admin_error = AdminIo path io_error | AdminMeta meta_error | MissingSnapshotFile path

record backup_report =
  br_buckets :: nat
  br_manifests :: nat
  br_parts_copied :: nat
  br_parts_missing :: "string list"

record restore_report =
  rr_parts_copied :: nat

record scan_report =
  sr_parts_checked :: nat
  sr_parts_passed :: nat
  sr_corrupted :: "string list"

record redb =
  rb_open :: "bytes \<Rightarrow> meta_error + db"
  rb_new :: bytes                     \<comment> \<open>the file \<^verbatim>\<open>Database::create\<close> makes when there is none\<close>

subsection \<open>Commands\<close>

text \<open>The directory read, the directory written (absent before it is created), the calls made.\<close>

record disks =
  dk_from :: node
  dk_to :: "node option"
  dk_calls :: nat

text \<open>
  A command changes a state and returns a value or fails; the error of a part is the error of
  the whole (the operator \<^verbatim>\<open>?\<close>).
\<close>

type_synonym ('s, 'e, 'a) command = "'s \<Rightarrow> ('e + 'a) \<times> 's"

definition return :: "'a \<Rightarrow> ('s, 'e, 'a) command" where
  "return a d = (Inr a, d)"

definition abort :: "'e \<Rightarrow> ('s, 'e, 'a) command" where
  "abort e d = (Inl e, d)"

definition seq :: "('s, 'e, 'a) command \<Rightarrow> ('a \<Rightarrow> ('s, 'e, 'b) command) \<Rightarrow> ('s, 'e, 'b) command" where
  "seq m f d = (case m d of (Inl e, d') \<Rightarrow> (Inl e, d') | (Inr a, d') \<Rightarrow> f a d')"

fun each :: "('x \<Rightarrow> 'a \<Rightarrow> ('s, 'e, 'a) command) \<Rightarrow> 'x list \<Rightarrow> 'a \<Rightarrow> ('s, 'e, 'a) command" where
  "each f [] a = return a"
| "each f (x # xs) a = seq (f x a) (each f xs)"

text \<open>One file operation, which may fail before it does anything.\<close>

definition file_op :: "env \<Rightarrow> (disks \<Rightarrow> (io_error + 'a) \<times> disks) \<Rightarrow> (disks \<Rightarrow> (io_error + 'a) \<times> disks)" where
  "file_op E act d =
     (let d1 = d\<lparr>dk_calls := dk_calls d + 1\<rparr>
      in case e_io_fault E (dk_calls d) of
           Some (FailBefore e) \<Rightarrow> (Inl (OtherIo e), d1)
         | Some (FailAfter e) \<Rightarrow> (Inl (OtherIo e), d1)
         | None \<Rightarrow> act d1)"

text \<open>\<^verbatim>\<open>.map_err(|e| io_err(path, e))?\<close>\<close>

definition io :: "path \<Rightarrow> (disks \<Rightarrow> (io_error + 'a) \<times> disks) \<Rightarrow> (disks, admin_error, 'a) command" where
  "io p m d = (case m d of (Inl e, d') \<Rightarrow> (Inl (AdminIo p e), d') | (Inr a, d') \<Rightarrow> (Inr a, d'))"

definition to_node :: "disks \<Rightarrow> node" where
  "to_node d = (case dk_to d of None \<Rightarrow> Directory [] | Some n \<Rightarrow> n)"

definition create_dirs :: "env \<Rightarrow> path \<Rightarrow> disks \<Rightarrow> (io_error + unit) \<times> disks" where
  "create_dirs E p =
     file_op E (\<lambda>d. case mkdirs (to_node d) p of
       Inl e \<Rightarrow> (Inl e, d)
     | Inr n \<Rightarrow> (Inr (), d\<lparr>dk_to := Some n\<rparr>))"

text \<open>\<^verbatim>\<open>std::fs::copy\<close> of the bytes of an open source, and from a source path.\<close>

definition store_bytes :: "path \<Rightarrow> bytes \<Rightarrow> disks \<Rightarrow> (io_error + unit) \<times> disks" where
  "store_bytes p b d =
     (case dk_to d of
        None \<Rightarrow> (Inl NotFound, d)
      | Some n \<Rightarrow>
          (case write_file n p b of
             Inl e \<Rightarrow> (Inl e, d)
           | Inr n' \<Rightarrow> (Inr (), d\<lparr>dk_to := Some n'\<rparr>)))"

definition copy_file :: "env \<Rightarrow> path \<Rightarrow> path \<Rightarrow> disks \<Rightarrow> (io_error + unit) \<times> disks" where
  "copy_file E src dst =
     file_op E (\<lambda>d. case read_file (dk_from d) src of
       Inl e \<Rightarrow> (Inl e, d)
     | Inr b \<Rightarrow> store_bytes dst b d)"

definition meta_path :: path where "meta_path = [''meta.redb'']"

definition parts_path :: path where "parts_path = [''parts'']"

definition part_path :: "crates \<Rightarrow> hash \<Rightarrow> path" where
  "part_path X h = (let hex = hex_encode X h in parts_path @ [take 2 hex, take 2 (drop 2 hex), hex])"

subsection \<open>Backup\<close>

text \<open>\<^verbatim>\<open>MetaStore::open\<close>: a missing file is created, with empty tables.\<close>

definition open_meta :: "env \<Rightarrow> redb \<Rightarrow> (disks, admin_error, db) command" where
  "open_meta E R d =
     (let d1 = d\<lparr>dk_calls := dk_calls d + 1\<rparr>
      in case e_meta_fault E (dk_calls d) of
           Some e \<Rightarrow> (Inl (AdminMeta e), d1)
         | None \<Rightarrow>
             (case read_file (dk_from d) meta_path of
                Inr b \<Rightarrow> (case rb_open R b of Inl e \<Rightarrow> (Inl (AdminMeta e), d1) | Inr db \<Rightarrow> (Inr db, d1))
              | Inl NotFound \<Rightarrow>
                  (case write_file (dk_from d) meta_path (rb_new R) of
                     Inl _ \<Rightarrow> (Inl (AdminMeta (Redb [])), d1)
                   | Inr n \<Rightarrow> (Inr bootstrap_tables, d1\<lparr>dk_from := n\<rparr>))
              | Inl _ \<Rightarrow> (Inl (AdminMeta (Redb [])), d1)))"

definition ask :: "env \<Rightarrow> meta_error + 'a \<Rightarrow> (disks, admin_error, 'a) command" where
  "ask E r d =
     (let d1 = d\<lparr>dk_calls := dk_calls d + 1\<rparr>
      in case e_meta_fault E (dk_calls d) of
           Some e \<Rightarrow> (Inl (AdminMeta e), d1)
         | None \<Rightarrow> (case r of Inl e \<Rightarrow> (Inl (AdminMeta e), d1) | Inr a \<Rightarrow> (Inr a, d1)))"

text \<open>The manifests counted and the hashes they refer to, in the order met.\<close>

definition collect_bucket :: "env \<Rightarrow> db \<Rightarrow> string \<times> bucket_config \<Rightarrow> nat \<times> hash list \<Rightarrow> (disks, admin_error, nat \<times> hash list) command" where
  "collect_bucket E db = (\<lambda>(name, _) (n, hs).
     seq (ask E (handle_list_all_manifests_in_bucket db name)) (\<lambda>mfs.
     return ((n + length mfs) mod 4294967296, hs @ concat (map (\<lambda>m. map pr_hash (m_parts m)) mfs))))"

definition copy_part :: "env \<Rightarrow> hash \<Rightarrow> nat \<times> string list \<Rightarrow> (disks, admin_error, nat \<times> string list) command" where
  "copy_part E h = (\<lambda>(copied, missing).
     let X = e_crates E; p = part_path X h
     in seq (io (butlast p) (create_dirs E (butlast p))) (\<lambda>_ d.
        case copy_file E p p d of
          (Inr _, d') \<Rightarrow> (Inr ((copied + 1) mod 4294967296, missing), d')
        | (Inl NotFound, d') \<Rightarrow> (Inr (copied, missing @ [hex_encode X h]), d')
        | (Inl e, d') \<Rightarrow> (Inl (AdminIo p e), d')))"

text \<open>A \<^verbatim>\<open>HashSet\<close> is iterated in no particular order: \<open>order\<close> lists the distinct hashes in one.\<close>

definition backup :: "env \<Rightarrow> redb \<Rightarrow> (hash list \<Rightarrow> hash list) \<Rightarrow> (disks, admin_error, backup_report) command" where
  "backup E R order =
     seq (open_meta E R) (\<lambda>db.
     seq (ask E (handle_list_buckets db)) (\<lambda>bs.
     seq (each (collect_bucket E db) bs (0, [])) (\<lambda>(manifests, referenced).
     seq (io [] (create_dirs E [])) (\<lambda>_.
     seq (io meta_path (copy_file E meta_path meta_path)) (\<lambda>_.
     seq (io parts_path (create_dirs E parts_path)) (\<lambda>_.
     seq (each (copy_part E) (order referenced) (0, [])) (\<lambda>(copied, missing).
     return \<lparr>br_buckets = length bs mod 4294967296, br_manifests = manifests,
             br_parts_copied = copied, br_parts_missing = missing\<rparr>)))))))"

subsection \<open>Restore\<close>

text \<open>
  \<^verbatim>\<open>copy_tree\<close> and its loop over the entries of a directory.  The tree read does not change, so
  that its nodes are handed down; reading a directory and its entry is one operation.
\<close>

function copy_tree :: "env \<Rightarrow> path \<Rightarrow> node \<Rightarrow> nat \<Rightarrow> (disks, admin_error, nat) command"
  and copy_entries :: "env \<Rightarrow> path \<Rightarrow> (string \<times> node) list \<Rightarrow> nat \<Rightarrow> (disks, admin_error, nat) command" where
  "copy_tree E p n copied =
     seq (io p (create_dirs E p)) (\<lambda>_.
     case n of
       File _ \<Rightarrow> abort (AdminIo p not_a_directory)
     | Directory es \<Rightarrow> copy_entries E p es copied)"
| "copy_entries E p [] copied = seq (io p (file_op E (\<lambda>d. (Inr (), d)))) (\<lambda>_. return copied)"
| "copy_entries E p ((name, n) # es) copied =
     seq (io p (file_op E (\<lambda>d. (Inr (), d)))) (\<lambda>_.
     seq (case n of
            Directory _ \<Rightarrow> copy_tree E (p @ [name]) n copied
          | File b \<Rightarrow>
              seq (io (p @ [name]) (file_op E (store_bytes (p @ [name]) b))) (\<lambda>_.
              return ((copied + 1) mod 4294967296)))
       (\<lambda>copied. copy_entries E p es copied))"
  by pat_completeness auto

termination
  by (relation "measure (case_sum (\<lambda>(E, p, n, c). size n) (\<lambda>(E, p, es, c). size_list (size_prod (\<lambda>_. 0) size) es))")
    auto

text \<open>\<^verbatim>\<open>Path::exists\<close>\<close>

definition exists_in :: "node \<Rightarrow> path \<Rightarrow> bool" where
  "exists_in n p \<longleftrightarrow> lookup n p \<noteq> None"

definition restore :: "env \<Rightarrow> (disks, admin_error, restore_report) command" where
  "restore E d =
     (if \<not> exists_in (dk_from d) meta_path then abort (MissingSnapshotFile meta_path) d
      else seq (io [] (create_dirs E [])) (\<lambda>_ d.
        if exists_in (to_node d) meta_path
        then abort (AdminIo meta_path (OtherIo ''target meta.redb already exists; restore refuses to overwrite'')) d
        else seq (io meta_path (copy_file E meta_path meta_path)) (\<lambda>_ d.
          case lookup (dk_from d) parts_path of
            Some n \<Rightarrow> seq (copy_tree E parts_path n 0) (\<lambda>copied. return \<lparr>rr_parts_copied = copied\<rparr>) d
          | None \<Rightarrow> seq (io parts_path (create_dirs E parts_path)) (\<lambda>_. return \<lparr>rr_parts_copied = 0\<rparr>) d) d) d)"

subsection \<open>Integrity scan\<close>

text \<open>\<^verbatim>\<open>to_str().unwrap_or_default()\<close>\<close>

definition utf8_name :: "string \<Rightarrow> string" where
  "utf8_name name = (if valid_utf8 name then name else [])"

definition check_file :: "crates \<Rightarrow> string \<Rightarrow> bytes \<Rightarrow> scan_report \<Rightarrow> scan_report" where
  "check_file X name b r =
     (let filename = utf8_name name;
          r = r\<lparr>sr_parts_checked := (sr_parts_checked r + 1) mod 4294967296\<rparr>
      in if hex_encode X (blake3 X b) = filename
         then r\<lparr>sr_parts_passed := (sr_parts_passed r + 1) mod 4294967296\<rparr>
         else r\<lparr>sr_corrupted := sr_corrupted r @ [filename]\<rparr>)"

function walk_and_verify :: "env \<Rightarrow> path \<Rightarrow> node \<Rightarrow> scan_report \<Rightarrow> (disks, admin_error, scan_report) command"
  and verify_entries :: "env \<Rightarrow> path \<Rightarrow> (string \<times> node) list \<Rightarrow> scan_report \<Rightarrow> (disks, admin_error, scan_report) command" where
  "walk_and_verify E p n r =
     (case n of
        File _ \<Rightarrow> abort (AdminIo p not_a_directory)
      | Directory es \<Rightarrow> verify_entries E p es r)"
| "verify_entries E p [] r = seq (io p (file_op E (\<lambda>d. (Inr (), d)))) (\<lambda>_. return r)"
| "verify_entries E p ((name, n) # es) r =
     seq (io p (file_op E (\<lambda>d. (Inr (), d)))) (\<lambda>_.
     seq (case n of
            Directory _ \<Rightarrow> walk_and_verify E (p @ [name]) n r
          | File b \<Rightarrow> seq (io (p @ [name]) (file_op E (\<lambda>d. (Inr b, d)))) (\<lambda>bytes.
                    return (check_file (e_crates E) name bytes r)))
       (\<lambda>r. verify_entries E p es r))"
  by pat_completeness auto

termination
  by (relation "measure (case_sum (\<lambda>(E, p, n, r). 2 * size n) (\<lambda>(E, p, es, r). 2 * size_list (size_prod (\<lambda>_. 0) size) es))")
    auto

definition empty_scan :: scan_report where
  "empty_scan = \<lparr>sr_parts_checked = 0, sr_parts_passed = 0, sr_corrupted = []\<rparr>"

definition scan_rebuild :: "env \<Rightarrow> (disks, admin_error, scan_report) command" where
  "scan_rebuild E d =
     (case lookup (dk_from d) parts_path of
        None \<Rightarrow> return empty_scan d
      | Some n \<Rightarrow> walk_and_verify E parts_path n empty_scan d)"

end
