(* ===== verification/Entry.thy ===== *)
theory Entry
  imports Admin Dispatch Events Maintenance
begin

text \<open>
  \<^verbatim>\<open>src/main.rs\<close> and \<^verbatim>\<open>src/s3/state.rs\<close>: the commands of the executable, the generation of keys
  and configuration files, the start of the server and the reload of its configuration.  Random
  bytes are arguments; argument parsing, logging, sockets and signal handlers are left out.
\<close>

subsection \<open>Keys\<close>

definition alpha :: string where "alpha = ''ABCDEFGHIJKLMNOPQRSTUVWXYZ234567''"

definition generate_access_key :: "bytes \<Rightarrow> string" where
  "generate_access_key random = map (\<lambda>b. alpha ! (of_char b mod length alpha)) random"

definition generate_secret_key :: "crates \<Rightarrow> bytes \<Rightarrow> string" where
  "generate_secret_key X random = base64_encode X random"

subsection \<open>The host\<close>

text \<open>
  What the start of the program touches: files by path, directories, permission bits, the lines
  printed, the metadata file and part files below each data directory, and the calls made.
\<close>

record host =
  hs_file :: "string \<Rightarrow> string option"
  hs_dir :: "string \<Rightarrow> bool"
  hs_mode :: "string \<Rightarrow> nat option"
  hs_out :: "string list"
  hs_store :: "string \<Rightarrow> db option \<times> (hash \<Rightarrow> bytes option)"
  hs_calls :: nat

definition host_op :: "env \<Rightarrow> string \<Rightarrow> (host \<Rightarrow> host) \<Rightarrow> (host, string, unit) command" where
  "host_op E context f h =
     (let h1 = h\<lparr>hs_calls := hs_calls h + 1\<rparr>
      in case e_io_fault E (hs_calls h) of
           Some (FailBefore e) \<Rightarrow> (Inl (context @ e), h1)
         | Some (FailAfter e) \<Rightarrow> (Inl (context @ e), h1)
         | None \<Rightarrow> (Inr (), f h1))"

definition create_dir_all :: "env \<Rightarrow> string \<Rightarrow> (host, string, unit) command" where
  "create_dir_all E d = host_op E ''create data_dir: '' (\<lambda>h. h\<lparr>hs_dir := (hs_dir h)(d := True)\<rparr>)"

definition chmod :: "env \<Rightarrow> string \<Rightarrow> string \<Rightarrow> nat \<Rightarrow> (host, string, unit) command" where
  "chmod E context p mode = host_op E context (\<lambda>h. h\<lparr>hs_mode := (hs_mode h)(p := Some mode)\<rparr>)"

text \<open>
  \<^verbatim>\<open>std::fs::write\<close>: it can fail before the file is opened, or after it was created or truncated;
  then an empty file stays.
\<close>

definition write_config :: "env \<Rightarrow> string \<Rightarrow> string \<Rightarrow> (host, string, unit) command" where
  "write_config E p content h =
     (let h1 = h\<lparr>hs_calls := hs_calls h + 1\<rparr>
      in case e_io_fault E (hs_calls h) of
           Some (FailBefore e) \<Rightarrow> (Inl (''write config: '' @ e), h1)
         | Some (FailAfter e) \<Rightarrow> (Inl (''write config: '' @ e), h1\<lparr>hs_file := (hs_file h)(p := Some [])\<rparr>)
         | None \<Rightarrow> (Inr (), h1\<lparr>hs_file := (hs_file h)(p := Some content)\<rparr>))"

definition print :: "string list \<Rightarrow> (host, string, unit) command" where
  "print lines h = (Inr (), h\<lparr>hs_out := hs_out h @ lines\<rparr>)"

definition path_join :: "string \<Rightarrow> string \<Rightarrow> string" where
  "path_join dir name = (if dir = [] \<or> last dir = CHR ''/'' then dir @ name else dir @ ''/'' @ name)"

definition mode_dir :: nat where "mode_dir = 448"     \<comment> \<open>\<^verbatim>\<open>0o700\<close>\<close>

definition mode_file :: nat where "mode_file = 384"   \<comment> \<open>\<^verbatim>\<open>0o600\<close>\<close>

subsection \<open>Configuration files\<close>

definition toml_line :: "string \<Rightarrow> string \<Rightarrow> string" where
  "toml_line name v = name @ '' = \"'' @ v @ ''\"'' @ nl"

definition config_head :: "string \<Rightarrow> string \<Rightarrow> string \<Rightarrow> string \<Rightarrow> string \<Rightarrow> string" where
  "config_head region listen_addr data ak sk =
     toml_line ''region'' region @ toml_line ''listen_addr'' listen_addr @ toml_line ''data_dir'' data @
     toml_line ''access_key_id'' ak @ toml_line ''secret_access_key'' sk"

definition auto_content ::
  "string \<Rightarrow> string \<Rightarrow> string \<Rightarrow> string \<Rightarrow> string \<Rightarrow> string option \<Rightarrow> (string \<times> string) option \<Rightarrow> string" where
  "auto_content region listen_addr data ak sk endpoint_host tls =
     config_head region listen_addr data ak sk @
     (case endpoint_host of Some h \<Rightarrow> toml_line ''endpoint_host'' h | None \<Rightarrow> []) @
     (case tls of Some (cert, key) \<Rightarrow> toml_line ''tls_cert_path'' cert @ toml_line ''tls_key_path'' key | None \<Rightarrow> [])"

definition init_content :: "string \<Rightarrow> string \<Rightarrow> string \<Rightarrow> string \<Rightarrow> string \<Rightarrow> string" where
  "init_content region listen_addr data ak sk =
     ''# s3lite config file '' @ [CHR 0xE2, CHR 0x80, CHR 0x94] @ '' keep this readable only to the s3lite user.'' @ nl @
     config_head region listen_addr data ak sk @ nl @
     ''# Optional virtual-hosted addressing '' @ [CHR 0xE2, CHR 0x80, CHR 0x94] @ '' uncomment to enable.'' @ nl @
     ''# endpoint_host = \"s3.example.com\"'' @ nl @ nl @
     ''# Webhook subscriptions for object events.'' @ nl @
     ''# [[webhook]]'' @ nl @
     ''# url = \"https://example.com/hook\"'' @ nl @
     ''# bucket = \"my-bucket\"'' @ nl @
     ''# events = [\"s3:ObjectCreated:Put\"]'' @ nl"

definition credential_lines :: "string \<Rightarrow> string \<Rightarrow> string list" where
  "credential_lines ak sk =
     [[], ''save these credentials '' @ [CHR 0xE2, CHR 0x80, CHR 0x94] @ '' they will not be shown again:'',
      ''  access_key_id     = '' @ ak, ''  secret_access_key = '' @ sk]"

definition init_command ::
  "env \<Rightarrow> bytes \<times> bytes \<Rightarrow> string \<Rightarrow> string option \<Rightarrow> string \<Rightarrow> string \<Rightarrow> (host, string, unit) command" where
  "init_command E random data_dir config listen_addr region =
     seq (create_dir_all E data_dir) (\<lambda>_.
     seq (chmod E ''chmod data_dir: '' data_dir mode_dir) (\<lambda>_ h.
     let config_path = (case config of Some p \<Rightarrow> p | None \<Rightarrow> path_join data_dir ''config.toml'')
     in if hs_file h config_path \<noteq> None
        then abort (''config already exists at '' @ config_path @ ''; remove it first or use --config'') h
        else (let ak = generate_access_key (fst random); sk = generate_secret_key (e_crates E) (snd random)
              in seq (write_config E config_path (init_content region listen_addr data_dir ak sk)) (\<lambda>_.
                 seq (chmod E ''chmod config: '' config_path mode_file) (\<lambda>_.
                 print ([''s3lite initialized at '' @ data_dir, ''config written to '' @ config_path] @
                        credential_lines ak sk))) h)))"

subsection \<open>The container entry point\<close>

definition data_dir_of :: "(string \<Rightarrow> string option) \<Rightarrow> string" where
  "data_dir_of var = (case var ''S3LITE_DATA_DIR'' of Some d \<Rightarrow> d | None \<Rightarrow> ''/data'')"

definition config_path_of :: "(string \<Rightarrow> string option) \<Rightarrow> string" where
  "config_path_of var = path_join (data_dir_of var) ''config.toml''"

text \<open>Both or neither of two variables; and the keys, with whether they were generated.\<close>

definition tls_pair :: "(string \<Rightarrow> string option) \<Rightarrow> string + (string \<times> string) option" where
  "tls_pair var =
     (case (var ''S3LITE_TLS_CERT_PATH'', var ''S3LITE_TLS_KEY_PATH'') of
        (Some c, Some k) \<Rightarrow> Inr (Some (c, k))
      | (None, None) \<Rightarrow> Inr None
      | _ \<Rightarrow> Inl ''S3LITE_TLS_CERT_PATH and S3LITE_TLS_KEY_PATH must both be set or both omitted'')"

definition key_pair :: "crates \<Rightarrow> bytes \<times> bytes \<Rightarrow> (string \<Rightarrow> string option) \<Rightarrow> string + string \<times> string \<times> bool" where
  "key_pair X random var =
     (case (var ''S3LITE_ACCESS_KEY_ID'', var ''S3LITE_SECRET_ACCESS_KEY'') of
        (Some ak, Some sk) \<Rightarrow> Inr (ak, sk, False)
      | (None, None) \<Rightarrow> Inr (generate_access_key (fst random), generate_secret_key X (snd random), True)
      | _ \<Rightarrow> Inl ''S3LITE_ACCESS_KEY_ID and S3LITE_SECRET_ACCESS_KEY must both be set or both omitted'')"

definition from_sum :: "string + 'a \<Rightarrow> (host, string, 'a) command" where
  "from_sum r h = (r, h)"

text \<open>\<^verbatim>\<open>auto_command\<close> up to the call of \<^verbatim>\<open>serve_command\<close>.\<close>

definition auto_bootstrap :: "env \<Rightarrow> bytes \<times> bytes \<Rightarrow> (string \<Rightarrow> string option) \<Rightarrow> (host, string, unit) command" where
  "auto_bootstrap E random var h =
     (let data_dir = data_dir_of var; config_path = config_path_of var
      in if hs_file h config_path \<noteq> None then (Inr (), h)
         else (let preexisted = hs_dir h data_dir;
                   listen_addr = (case var ''S3LITE_LISTEN_ADDR'' of Some a \<Rightarrow> a | None \<Rightarrow> ''0.0.0.0:9000'');
                   region = (case var ''S3LITE_REGION'' of Some r \<Rightarrow> r | None \<Rightarrow> ''us-east-1'')
               in seq (create_dir_all E data_dir) (\<lambda>_.
                  seq (if preexisted then return () else chmod E ''chmod data_dir: '' data_dir mode_dir) (\<lambda>_.
                  seq (from_sum (tls_pair var)) (\<lambda>tls.
                  seq (from_sum (key_pair (e_crates E) random var)) (\<lambda>(ak, sk, generated).
                  seq (write_config E config_path
                         (auto_content region listen_addr data_dir ak sk (var ''S3LITE_ENDPOINT_HOST'') tls)) (\<lambda>_.
                  seq (chmod E ''chmod config: '' config_path mode_file) (\<lambda>_.
                  if generated then print ((''s3lite auto-init at '' @ data_dir) # credential_lines ak sk)
                  else return ())))))) h))"

subsection \<open>The running server\<close>

text \<open>
  \<^verbatim>\<open>AppState\<close>: the metadata store and the part files are the world; the live configuration
  is swapped as a whole.  A running server has the TLS material in use, if TLS was on at the
  start, and the webhook deliveries that are still to run.
\<close>

record app_state =
  st_world :: world
  st_config :: server_config

definition app_state_new :: "world \<Rightarrow> server_config \<Rightarrow> app_state" where
  "app_state_new w cfg = \<lparr>st_world = w, st_config = cfg\<rparr>"

definition config_snapshot :: "app_state \<Rightarrow> server_config" where
  "config_snapshot st = st_config st"

record running =
  ru_state :: app_state
  ru_tls :: "string option"

definition config_error_text :: "config_error \<Rightarrow> string" where
  "config_error_text e =
     (case e of
        ConfigIo m \<Rightarrow> ''io: '' @ m
      | ConfigToml m \<Rightarrow> ''toml: '' @ m
      | UnknownEventType t \<Rightarrow> ''unknown event type '' @ [CHR 0x27] @ t @ [CHR 0x27]
      | PartialTlsConfig \<Rightarrow> ''tls_cert_path and tls_key_path must both be set or both omitted'')"

definition read_text :: "env \<Rightarrow> string \<Rightarrow> host \<Rightarrow> string + string" where
  "read_text E p h =
     (case e_io_fault E (hs_calls h) of
        Some (FailBefore e) \<Rightarrow> Inl e
      | Some (FailAfter e) \<Rightarrow> Inl e
      | None \<Rightarrow> (case hs_file h p of None \<Rightarrow> Inl ''No such file or directory (os error 2)'' | Some t \<Rightarrow> Inr t))"

definition read_config ::
  "env \<Rightarrow> (string \<Rightarrow> string + config_file) \<Rightarrow> string \<Rightarrow> (host, string, server_config \<times> string) command" where
  "read_config E toml p h =
     (case load_config toml (read_text E p h) of
        Inl e \<Rightarrow> (Inl (''load config: '' @ config_error_text e), h\<lparr>hs_calls := hs_calls h + 1\<rparr>)
      | Inr c \<Rightarrow> (Inr c, h\<lparr>hs_calls := hs_calls h + 1\<rparr>))"

text \<open>Certificate and key files to TLS material, or an error; third-party code.\<close>

type_synonym pem = "tls_config \<Rightarrow> string + string"

definition open_data :: "env \<Rightarrow> string \<Rightarrow> (host, string, world) command" where
  "open_data E d h =
     (let h1 = h\<lparr>hs_calls := hs_calls h + 1\<rparr>
      in case open_store (e_meta_fault E (hs_calls h)) (fst (hs_store h d)) of
           Inl e \<Rightarrow> (Inl (''open meta store: '' @ e_meta_text E e), h1)
         | Inr db \<Rightarrow> (Inr \<lparr>w_db = db, w_blobs = snd (hs_store h d), w_events = [], w_tick = 0\<rparr>,
                      h1\<lparr>hs_store := (hs_store h)(d := (Some db, snd (hs_store h d)))\<rparr>))"

definition open_parts :: "env \<Rightarrow> string \<Rightarrow> (host, string, unit) command" where
  "open_parts E d =
     (let parts_dir = path_join d ''parts''; tmp_dir = path_join d ''tmp''
      in host_op E ''open part store: io: '' (\<lambda>h.
           h\<lparr>hs_dir := (hs_dir h)(parts_dir := True, tmp_dir := True),
             hs_mode := (hs_mode h)(d := Some mode_dir, parts_dir := Some mode_dir, tmp_dir := Some mode_dir)\<rparr>))"

text \<open>\<^verbatim>\<open>serve_command\<close> up to the point where it listens.\<close>

definition boot :: "env \<Rightarrow> (string \<Rightarrow> string + config_file) \<Rightarrow> pem \<Rightarrow> string \<Rightarrow> (host, string, running) command" where
  "boot E toml load_pem config_path =
     seq (read_config E toml config_path) (\<lambda>(cfg, data_dir).
     seq (create_dir_all E data_dir) (\<lambda>_.
     seq (open_data E data_dir) (\<lambda>w.
     seq (open_parts E data_dir) (\<lambda>_.
     seq (case sc_tls cfg of
            None \<Rightarrow> return None
          | Some tls \<Rightarrow> (case load_pem tls of
                           Inl e \<Rightarrow> abort (''load TLS cert/key: '' @ e)
                         | Inr material \<Rightarrow> return (Some material))) (\<lambda>material.
     return \<lparr>ru_state = app_state_new w cfg, ru_tls = material\<rparr>)))))"

text \<open>One turn of \<^verbatim>\<open>reload_loop\<close>, on a hang-up signal.\<close>

definition reload :: "(string \<Rightarrow> string + config_file) \<Rightarrow> pem \<Rightarrow> string + string \<Rightarrow> running \<Rightarrow> running" where
  "reload toml load_pem text ru =
     (let cfg = (case load_config toml text of
                   Inr (new_cfg, _) \<Rightarrow> new_cfg
                 | Inl _ \<Rightarrow> st_config (ru_state ru));
          material = (case ru_tls ru of
                        None \<Rightarrow> None
                      | Some old \<Rightarrow>
                          (case sc_tls cfg of
                             None \<Rightarrow> Some old
                           | Some tls \<Rightarrow> (case load_pem tls of Inr new \<Rightarrow> Some new | Inl _ \<Rightarrow> Some old)))
      in \<lparr>ru_state = (ru_state ru)\<lparr>st_config := cfg\<rparr>, ru_tls = material\<rparr>)"

text \<open>
  What happens to a running server: a signal, a request, the timer, a webhook delivery.  The step
  \<open>occur\<close> is no function of the program: it puts together the tasks that \<^verbatim>\<open>serve_command\<close> starts
  (\<^verbatim>\<open>reload_loop\<close>, the application, the maintenance timer) and the delivery of an event.
\<close>

datatype occurrence =
    Hangup "string + string" pem
  | Arrives request_id http_request
  | Timer
  | Delivers delivery_task

definition on_world :: "(world \<Rightarrow> world) \<Rightarrow> running \<Rightarrow> running" where
  "on_world f ru = ru\<lparr>ru_state := (ru_state ru)\<lparr>st_world := f (st_world (ru_state ru))\<rparr>\<rparr>"

fun occur :: "env \<Rightarrow> auth_lib \<Rightarrow> net \<Rightarrow> (string \<Rightarrow> string + config_file) \<Rightarrow> occurrence \<Rightarrow> running \<Rightarrow> running" where
  "occur E A N toml (Hangup text load_pem) ru = reload toml load_pem text ru"
| "occur E A N toml (Arrives rid rq) ru =
     on_world (\<lambda>w. snd (build_app E A (config_snapshot (ru_state ru)) rid rq w)) ru"
| "occur E A N toml Timer ru = on_world (\<lambda>w. snd (sweep_once E w)) ru"
| "occur E A N toml (Delivers t) ru = on_world (\<lambda>w. snd (deliver_with_retry E N t w)) ru"

subsection \<open>Exit codes\<close>

datatype exit_code = Success | Failure

text \<open>The exit code, the lines of standard output and those of standard error.\<close>

type_synonym run_result = "exit_code \<times> string list \<times> string list"

definition exit_unit :: "string \<Rightarrow> string + unit \<Rightarrow> run_result" where
  "exit_unit label r = (case r of Inr _ \<Rightarrow> (Success, [], []) | Inl e \<Rightarrow> (Failure, [], [label @ '' failed: '' @ e]))"

definition exit_backup :: "(admin_error \<Rightarrow> string) \<Rightarrow> admin_error + backup_report \<Rightarrow> run_result" where
  "exit_backup display r =
     (case r of
        Inl e \<Rightarrow> (Failure, [], [''backup failed: '' @ display e])
      | Inr rep \<Rightarrow>
          (let missing = length (br_parts_missing rep)
           in (Success,
               [''backup complete: buckets='' @ show_nat (br_buckets rep) @ '' manifests='' @ show_nat (br_manifests rep) @
                '' parts_copied='' @ show_nat (br_parts_copied rep) @ '' missing_parts='' @ show_nat missing],
               if missing \<noteq> 0
               then [''warning: '' @ show_nat missing @ '' part(s) referenced by manifests are missing on disk'']
               else [])))"

definition exit_restore :: "(admin_error \<Rightarrow> string) \<Rightarrow> admin_error + restore_report \<Rightarrow> run_result" where
  "exit_restore display r =
     (case r of
        Inl e \<Rightarrow> (Failure, [], [''restore failed: '' @ display e])
      | Inr rep \<Rightarrow> (Success, [''restore complete: parts_copied='' @ show_nat (rr_parts_copied rep)], []))"

definition exit_scan :: "(admin_error \<Rightarrow> string) \<Rightarrow> admin_error + scan_report \<Rightarrow> run_result" where
  "exit_scan display r =
     (case r of
        Inl e \<Rightarrow> (Failure, [], [''scan failed: '' @ display e])
      | Inr rep \<Rightarrow>
          (if sr_corrupted rep = [] then Success else Failure,
           [''scan complete: checked='' @ show_nat (sr_parts_checked rep) @ '' passed='' @ show_nat (sr_parts_passed rep) @
            '' corrupted='' @ show_nat (length (sr_corrupted rep))],
           map (\<lambda>name. ''corrupted: '' @ name) (sr_corrupted rep)))"

end
