(* ===== verification/AdminProps.thy ===== *)
theory AdminProps
  imports Admin Toy
begin

text \<open>
  What the offline commands guarantee: a backup that is restored serves the same objects, a
  restore never overwrites a data directory, and the scan reports exactly the files whose
  content does not have the hash that names them.
\<close>

subsection \<open>Successful commands\<close>

lemma seq_Inr: "seq m f d = (Inr b, d') \<longleftrightarrow> (\<exists>a d1. m d = (Inr a, d1) \<and> f a d1 = (Inr b, d'))"
  by (auto simp: seq_def split: prod.splits sum.splits)

lemma return_Inr [simp]: "return a d = (Inr b, d') \<longleftrightarrow> b = a \<and> d' = d" "abort e d = (Inr b, d') \<longleftrightarrow> False"
  by (auto simp: return_def abort_def)

lemma io_Inr [simp]: "io p m d = (Inr a, d') \<longleftrightarrow> m d = (Inr a, d')"
  by (auto simp: io_def split: prod.splits sum.splits)

lemma file_op_Inr:
  "file_op E act d = (Inr a, d') \<longleftrightarrow>
     e_io_fault E (dk_calls d) = None \<and> act (d\<lparr>dk_calls := dk_calls d + 1\<rparr>) = (Inr a, d')"
  by (auto simp: file_op_def Let_def split: option.splits io_fault.splits)

lemma ask_Inr: "ask E r d = (Inr a, d') \<Longrightarrow> r = Inr a \<and> dk_from d' = dk_from d \<and> dk_to d' = dk_to d"
  by (auto simp: ask_def Let_def split: option.splits sum.splits)

text \<open>The files of the directory written.\<close>

definition files :: "disks \<Rightarrow> path \<Rightarrow> bytes option" where
  "files d = file_at (to_node d)"

definition to_wf :: "disks \<Rightarrow> bool" where
  "to_wf d \<longleftrightarrow> wf_node (to_node d)"

lemma files_calls [simp]: "files (d\<lparr>dk_calls := n\<rparr>) = files d" "to_wf (d\<lparr>dk_calls := n\<rparr>) = to_wf d"
  "to_node (d\<lparr>dk_calls := n\<rparr>) = to_node d"
  by (simp_all add: files_def to_wf_def to_node_def)

lemma create_dirs_Inr:
  assumes "create_dirs E p d = (Inr u, d')"
  shows "files d' = files d" "dk_from d' = dk_from d" "to_wf d \<Longrightarrow> to_wf d'" "mkdirs (to_node d) p = Inr (to_node d')" "dk_to d' \<noteq> None"
  using assms file_at_mkdirs [of "to_node d" p] wf_mkdirs [of "to_node d" p]
  by (auto simp: create_dirs_def file_op_Inr files_def to_wf_def to_node_def split: sum.splits)

lemma store_bytes_Inr:
  assumes "store_bytes p b d = (Inr u, d')"
  shows "files d' = (files d)(p := Some b)" "dk_from d' = dk_from d" "to_wf d \<Longrightarrow> to_wf d'" "dk_to d' \<noteq> None"
  using assms by (auto simp: store_bytes_def files_def to_wf_def to_node_def file_at_write wf_write fun_eq_iff
      split: option.splits sum.splits)

lemma store_file_Inr:
  assumes "file_op E (store_bytes p b) d = (Inr u, d')"
  shows "files d' = (files d)(p := Some b)" "dk_from d' = dk_from d"
proof -
  from assms have "store_bytes p b (d\<lparr>dk_calls := Suc (dk_calls d)\<rparr>) = (Inr u, d')" by (simp add: file_op_Inr)
  from store_bytes_Inr(1,2) [OF this] show "files d' = (files d)(p := Some b)" "dk_from d' = dk_from d" by simp_all
qed

lemma copy_file_Inr:
  assumes "copy_file E src dst d = (Inr u, d')"
  shows "\<exists>b. file_at (dk_from d) src = Some b \<and> files d' = (files d)(dst := Some b)"
    "dk_from d' = dk_from d" "to_wf d \<Longrightarrow> to_wf d'" "dk_to d' \<noteq> None"
proof -
  obtain b where b: "read_file (dk_from d) src = Inr b"
    and s: "store_bytes dst b (d\<lparr>dk_calls := dk_calls d + 1\<rparr>) = (Inr u, d')"
    using assms by (auto simp: copy_file_def file_op_Inr split: sum.splits)
  show "\<exists>b. file_at (dk_from d) src = Some b \<and> files d' = (files d)(dst := Some b)"
    using b store_bytes_Inr(1) [OF s] by (auto simp: read_file_Inr)
  show "dk_from d' = dk_from d" "to_wf d \<Longrightarrow> to_wf d'" "dk_to d' \<noteq> None"
    using store_bytes_Inr [OF s] by simp_all
qed

text \<open>With its directory there, a file is only missing when the source is.\<close>

lemma lookup_mkdirs: "mkdirs n ps = Inr n' \<Longrightarrow> \<exists>es. lookup n' ps = Some (Directory es)"
  by (induction n ps arbitrary: n' rule: mkdirs.induct) (auto simp: update_conv' split: sum.splits)

lemma write_file_there: "lookup n ps = Some (Directory es) \<Longrightarrow> write_file n (ps @ [x]) b \<noteq> Inl NotFound"
proof (induction n ps rule: lookup.induct)
  case (1 n)
  then show ?case by (auto simp: is_a_directory_def split: option.split node.split)
next
  case (3 es' p ps)
  then show ?case by (cases "ps @ [x]") (auto split: option.splits sum.splits)
qed simp

lemma copy_file_missing:
  assumes "copy_file E src (ps @ [x]) d = (Inl NotFound, d')" and "lookup (to_node d) ps = Some (Directory es)" "dk_to d \<noteq> None"
  shows "file_at (dk_from d) src = None" "files d' = files d" "dk_from d' = dk_from d" "to_wf d' = to_wf d" "dk_to d' = dk_to d"
proof -
  let ?d = "d\<lparr>dk_calls := Suc (dk_calls d)\<rparr>"
  have run: "(case read_file (dk_from d) src of Inl e \<Rightarrow> (Inl e, ?d) | Inr b \<Rightarrow> store_bytes (ps @ [x]) b ?d) = (Inl NotFound, d')"
    using assms(1) by (auto simp: copy_file_def file_op_def Let_def split: option.splits io_fault.splits)
  have "store_bytes (ps @ [x]) b ?d \<noteq> (Inl NotFound, d')" for b
    using assms(2,3) write_file_there [of _ ps es x b] by (auto simp: store_bytes_def to_node_def split: option.splits sum.splits)
  then have "read_file (dk_from d) src = Inl NotFound \<and> d' = ?d" using run by (auto split: sum.splits)
  then show "file_at (dk_from d) src = None" "files d' = files d" "dk_from d' = dk_from d" "to_wf d' = to_wf d" "dk_to d' = dk_to d"
    by (auto dest: read_file_NotFound)
qed

subsection \<open>Backup\<close>

lemma copy_part_Inr:
  fixes E h
  defines "p \<equiv> part_path (e_crates E) h"
  assumes run: "copy_part E h (n, ms) d = (Inr r, d')"
  shows "files d' = (case file_at (dk_from d) p of None \<Rightarrow> files d | Some b \<Rightarrow> (files d)(p := Some b))"
    "snd r = ms @ (if file_at (dk_from d) p = None then [hex_encode (e_crates E) h] else [])"
    "dk_from d' = dk_from d" "to_wf d \<Longrightarrow> to_wf d'"
proof -
  obtain ps x where px: "p = ps @ [x]" "butlast p = ps" by (auto simp: p_def part_path_def Let_def parts_path_def)
  obtain u d1 where d1: "create_dirs E ps d = (Inr u, d1)"
    and cp: "(case copy_file E p p d1 of
        (Inr _, d') \<Rightarrow> (Inr ((n + 1) mod 4294967296, ms), d')
      | (Inl NotFound, d') \<Rightarrow> (Inr (n, ms @ [hex_encode (e_crates E) h]), d')
      | (Inl e, d') \<Rightarrow> (Inl (AdminIo p e), d')) = (Inr r, d')"
    using run [unfolded copy_part_def Let_def prod.case, folded p_def, unfolded px(2) seq_Inr io_Inr] by blast
  note dirs = create_dirs_Inr [OF d1]
  obtain es where es: "lookup (to_node d1) ps = Some (Directory es)" using lookup_mkdirs [OF dirs(4)] by blast
  consider (copied) v where "copy_file E p p d1 = (Inr v, d')" "snd r = ms"
    | (missing) "copy_file E p p d1 = (Inl NotFound, d')" "snd r = ms @ [hex_encode (e_crates E) h]"
    using cp by (auto split: prod.splits sum.splits unit.splits io_error.splits)
  then have "files d' = (case file_at (dk_from d) p of None \<Rightarrow> files d | Some b \<Rightarrow> (files d)(p := Some b)) \<and>
    snd r = ms @ (if file_at (dk_from d) p = None then [hex_encode (e_crates E) h] else []) \<and>
    dk_from d' = dk_from d \<and> (to_wf d \<longrightarrow> to_wf d')"
  proof cases
    case copied
    then show ?thesis using copy_file_Inr [OF copied(1)] dirs by auto
  next
    case missing
    then show ?thesis using copy_file_missing [OF missing(1) [unfolded px(1)] es dirs(5)] dirs px by auto
  qed
  then show "files d' = (case file_at (dk_from d) p of None \<Rightarrow> files d | Some b \<Rightarrow> (files d)(p := Some b))"
    "snd r = ms @ (if file_at (dk_from d) p = None then [hex_encode (e_crates E) h] else [])"
    "dk_from d' = dk_from d" "to_wf d \<Longrightarrow> to_wf d'" by blast+
qed

lemma copy_parts_Inr:
  assumes "each (copy_part E) hs r d = (Inr r', d')"
  shows "files d' q = (if q \<in> part_path (e_crates E) ` set hs \<and> file_at (dk_from d) q \<noteq> None
      then file_at (dk_from d) q else files d q) \<and>
    snd r' = snd r @ map (hex_encode (e_crates E)) (filter (\<lambda>h. file_at (dk_from d) (part_path (e_crates E) h) = None) hs) \<and>
    dk_from d' = dk_from d \<and> (to_wf d \<longrightarrow> to_wf d')"
  using assms
proof (induction hs arbitrary: r d)
  case (Cons h hs)
  obtain n ms where r: "r = (n, ms)" by (cases r)
  obtain r1 d1 where step: "copy_part E h (n, ms) d = (Inr r1, d1)" and rest: "each (copy_part E) hs r1 d1 = (Inr r', d')"
    using Cons.prems by (auto simp: seq_Inr r)
  note one = copy_part_Inr [OF step] and IH = Cons.IH [OF rest]
  show ?case using one IH by (auto simp: r split: option.splits)
qed simp

lemma collect_Inr:
  assumes "each (collect_bucket E db) bs r d = (Inr r', d')"
  shows "dk_from d' = dk_from d \<and> dk_to d' = dk_to d \<and> set (snd r) \<subseteq> set (snd r') \<and>
    (\<forall>b cfg m. (b, cfg) \<in> set bs \<longrightarrow> m \<in> set (filter (\<lambda>m. mk_bucket (m_key m) = b)
        (map snd (tbl_range (objects db) (b @ [nul]) (b @ [soh])))) \<longrightarrow> part_hashes m \<subseteq> set (snd r')) \<and>
    set (snd r') \<subseteq> set (snd r) \<union> (\<Union>e\<in>set (objects db). part_hashes (snd e))"
  using assms
proof (induction bs arbitrary: r d)
  case (Cons e bs)
  obtain n hs b cfg where r: "r = (n, hs)" and e: "e = (b, cfg)" by (cases r, cases e)
  let ?ms = "filter (\<lambda>m. mk_bucket (m_key m) = b) (map snd (tbl_range (objects db) (b @ [nul]) (b @ [soh])))"
  obtain ms r1 d1 where a: "ask E (handle_list_all_manifests_in_bucket db b) d = (Inr ms, d1)"
    and r1: "snd r1 = hs @ concat (map (\<lambda>m. map pr_hash (m_parts m)) ms)"
    and rest: "each (collect_bucket E db) bs r1 d1 = (Inr r', d')"
    using Cons.prems by (auto simp: seq_Inr collect_bucket_def r e)
  have ms: "ms = ?ms" and d1: "dk_from d1 = dk_from d" "dk_to d1 = dk_to d"
    using ask_Inr [OF a] by (simp_all add: handle_list_all_manifests_in_bucket_def)
  have "set (snd r1) = set hs \<union> (\<Union>m\<in>set ms. part_hashes m)" by (simp add: r1 part_hashes_def)
  then have head: "part_hashes m \<subseteq> set (snd r1)" if "m \<in> set ?ms" for m
    using that unfolding ms [symmetric] by blast
  have "set (snd r) \<subseteq> set (snd r1)" by (simp add: r r1)
  then have sub: "set (snd r) \<subseteq> set (snd r')" "set (snd r1) \<subseteq> set (snd r')" using Cons.IH [OF rest] by blast+
  have "part_hashes m \<subseteq> set (snd r')"
    if "(b', cfg') \<in> set (e # bs)" "m \<in> set (filter (\<lambda>m. mk_bucket (m_key m) = b')
        (map snd (tbl_range (objects db) (b' @ [nul]) (b' @ [soh]))))" for b' cfg' m
  proof (cases "(b', cfg') \<in> set bs")
    case True
    then show ?thesis using that(2) Cons.IH [OF rest] by blast
  next
    case False
    then have "b' = b" using that(1) e by simp
    then show ?thesis using head [of m] that(2) sub(2) by blast
  qed
  moreover have "set (snd r1) \<subseteq> set (snd r) \<union> (\<Union>e\<in>set (objects db). part_hashes (snd e))"
    using r1 ms by (auto simp: r part_hashes_def tbl_range_def tbl_iter_def)
  ultimately show ?case using Cons.IH [OF rest] d1 sub by auto
qed simp

text \<open>The order in which the distinct hashes are met.\<close>

definition fair_order :: "(hash list \<Rightarrow> hash list) \<Rightarrow> bool" where
  "fair_order order \<longleftrightarrow> (\<forall>hs. distinct (order hs) \<and> set (order hs) = set hs)"

text \<open>The directory of a stopped server in state \<open>w\<close>.\<close>

definition holds :: "crates \<Rightarrow> redb \<Rightarrow> node \<Rightarrow> world \<Rightarrow> bool" where
  "holds X R n w \<longleftrightarrow> (\<exists>b. file_at n meta_path = Some b \<and> rb_open R b = Inr (w_db w)) \<and>
     (\<forall>h. file_at n (part_path X h) = w_blobs w h)"

text \<open>A manifest of a bucket that exists.\<close>

definition stored_in_bucket :: "db \<Rightarrow> manifest \<Rightarrow> bool" where
  "stored_in_bucket d m \<longleftrightarrow>
     (\<exists>kb. tbl_get (objects d) kb = Some m) \<and> tbl_get (buckets d) (mk_bucket (m_key m)) \<noteq> None"

lemma open_meta_Inr:
  assumes "open_meta E R d = (Inr db, d')" and "file_at (dk_from d) meta_path = Some b"
  shows "rb_open R b = Inr db" "dk_from d' = dk_from d" "dk_to d' = dk_to d"
proof -
  have "read_file (dk_from d) meta_path = Inr b" using assms(2) by (simp add: read_file_Inr)
  then show "rb_open R b = Inr db" "dk_from d' = dk_from d" "dk_to d' = dk_to d"
    using assms(1) by (auto simp: open_meta_def Let_def split: option.splits sum.splits)
qed

lemma part_path_not_meta [simp]: "part_path X h \<noteq> meta_path" "prefix parts_path (part_path X h)"
  by (simp_all add: part_path_def meta_path_def parts_path_def Let_def)

lemma in_bucket_range:
  assumes "db_ok d" "keys_ok d" and "tbl_get (objects d) kb = Some m"
  shows "m \<in> set (map snd (tbl_range (objects d) (mk_bucket (m_key m) @ [nul]) (mk_bucket (m_key m) @ [soh])))"
proof -
  have kb: "kb = encode (m_key m)" using assms(2,3) by (auto simp: keys_ok_def)
  have "tbl_ok (objects d)" using assms(1) by (simp add: db_ok_def)
  then have "(kb, m) \<in> set (tbl_range (objects d) (mk_bucket (m_key m) @ [nul]) (mk_bucket (m_key m) @ [soh]))"
    using assms(3) in_tbl_range_iff [of "objects d"] by (auto simp: kb encode_def nul_range_iff_prefix prefix_def)
  then show ?thesis by force
qed

lemma backup_effect:
  assumes run: "backup E R order \<lparr>dk_from = src, dk_to = None, dk_calls = c\<rparr> = (Inr rep, d')"
    and "fair_order order" and src: "holds (e_crates E) R src w" and inv: "db_ok (w_db w)" "keys_ok (w_db w)"
  shows "dk_from d' = src" "to_wf d'" "files d' meta_path = file_at src meta_path"
    "stored_in_bucket (w_db w) m \<Longrightarrow> h \<in> part_hashes m \<Longrightarrow> files d' (part_path (e_crates E) h) = w_blobs w h"
    "\<exists>hs. (\<forall>h\<in>set hs. mentions (w_db w) h) \<and>
       br_parts_missing rep = map (hex_encode (e_crates E)) (filter (\<lambda>h. w_blobs w h = None) hs)"
proof -
  let ?d = "\<lparr>dk_from = src, dk_to = None, dk_calls = c\<rparr>" and ?X = "e_crates E"
  obtain b where b: "file_at src meta_path = Some b" "rb_open R b = Inr (w_db w)"
    and blobs: "\<And>h. file_at src (part_path ?X h) = w_blobs w h" using src by (auto simp: holds_def)
  from run obtain db d1 bs d2 r3 d3 u d4 u5 d5 u6 d6 r7 where
    r1: "open_meta E R ?d = (Inr db, d1)" and r2: "ask E (handle_list_buckets db) d1 = (Inr bs, d2)"
    and r3: "each (collect_bucket E db) bs (0, []) d2 = (Inr r3, d3)"
    and r4: "create_dirs E [] d3 = (Inr u, d4)" and r5: "copy_file E meta_path meta_path d4 = (Inr u5, d5)"
    and r6: "create_dirs E parts_path d5 = (Inr u6, d6)"
    and r7: "each (copy_part E) (order (snd r3)) (0, []) d6 = (Inr r7, d')"
    and rep: "br_parts_missing rep = snd r7"
    by (auto simp: backup_def seq_Inr split: prod.splits)
  have db: "db = w_db w" using open_meta_Inr(1) [OF r1] b by simp
  have from6: "dk_from d6 = src" "dk_from d3 = src" "dk_from d4 = src" "dk_to d3 = None"
    using open_meta_Inr [OF r1] b ask_Inr [OF r2] collect_Inr [OF r3] create_dirs_Inr(2) [OF r4]
      copy_file_Inr(2) [OF r5] create_dirs_Inr(2) [OF r6] by simp_all
  have wf6: "to_wf d6" and empty: "files d4 q = None" for q
    using create_dirs_Inr [OF r4] copy_file_Inr(3) [OF r5] create_dirs_Inr(3) [OF r6] from6(4)
    by (simp_all add: to_wf_def to_node_def files_def)
  have files6: "files d6 = Map.empty(meta_path := Some b)"
    using copy_file_Inr(1) [OF r5] create_dirs_Inr(1) [OF r6] empty b from6 by (auto simp: fun_eq_iff)
  note parts = copy_parts_Inr [OF r7]
  have ord: "set (order (snd r3)) = set (snd r3)" using assms(2) by (simp add: fair_order_def)
  have bs: "bs = tbl_iter (buckets (w_db w))" using ask_Inr [OF r2] by (simp add: handle_list_buckets_def db)
  have covered: "part_hashes m \<subseteq> set (snd r3)" if st: "stored_in_bucket (w_db w) m" for m
  proof -
    obtain kb cfg where kb: "tbl_get (objects (w_db w)) kb = Some m"
      and cfg: "tbl_get (buckets (w_db w)) (mk_bucket (m_key m)) = Some cfg"
      using st by (auto simp: stored_in_bucket_def)
    have "(mk_bucket (m_key m), cfg) \<in> set bs" using cfg by (auto simp: bs tbl_get_def tbl_iter_def dest: map_of_SomeD)
    then show ?thesis using collect_Inr [OF r3] in_bucket_range [OF inv kb] by (auto simp: db)
  qed
  show "dk_from d' = src" "to_wf d'" using parts from6 wf6 by simp_all
  have "meta_path \<notin> part_path ?X ` set (order (snd r3))" using part_path_not_meta(1) by (metis imageE)
  then show "files d' meta_path = file_at src meta_path" using parts [of meta_path] b files6 by simp
  show "files d' (part_path ?X h) = w_blobs w h" if "stored_in_bucket (w_db w) m" "h \<in> part_hashes m" for m h
    using parts [of "part_path ?X h"] covered [OF that(1)] that(2) ord from6(1) files6 blobs by (auto simp: subset_iff)
  have "br_parts_missing rep = map (hex_encode ?X) (filter (\<lambda>h. w_blobs w h = None) (order (snd r3)))"
    using parts from6(1) by (simp add: rep blobs)
  moreover have "mentions (w_db w) h" if "h \<in> set (order (snd r3))" for h
  proof -
    have "h \<in> (\<Union>e\<in>set (objects (w_db w)). part_hashes (snd e))"
      using that ord collect_Inr [OF r3] by (simp add: db) blast
    then obtain kb m where m: "(kb, m) \<in> set (objects (w_db w))" "h \<in> part_hashes m" by auto
    have "tbl_ok (objects (w_db w))" using inv(1) by (simp add: db_ok_def)
    then have "tbl_get (objects (w_db w)) kb = Some m" using m(1) tbl.in_iter_iff by (metis tbl_iter_def)
    then show ?thesis using m(2) by (auto simp: mentions_def)
  qed
  ultimately show "\<exists>hs. (\<forall>h\<in>set hs. mentions (w_db w) h) \<and>
       br_parts_missing rep = map (hex_encode ?X) (filter (\<lambda>h. w_blobs w h = None) hs)"
    by blast
qed

subsection \<open>Restore\<close>

text \<open>The files after a tree has been copied below a path.\<close>

definition overlay :: "path \<Rightarrow> node \<Rightarrow> (path \<Rightarrow> bytes option) \<Rightarrow> path \<Rightarrow> bytes option" where
  "overlay p n old q =
     (if prefix p q \<and> file_at n (drop (length p) q) \<noteq> None then file_at n (drop (length p) q) else old q)"

lemma overlay_empty [simp]: "overlay p (Directory []) old = old"
  by (simp add: overlay_def fun_eq_iff)

lemma overlay_file: "overlay p (File b) old = old(p := Some b)"
proof
  fix q
  have "file_at (File b) r = (if r = [] then Some b else None)" for r by (cases r) simp_all
  then show "overlay p (File b) old q = (old(p := Some b)) q" by (auto simp: overlay_def prefix_def)
qed

lemma overlay_entry:
  assumes "name \<notin> fst ` set es"
  shows "overlay p (Directory es) (overlay (p @ [name]) n old) = overlay p (Directory ((name, n) # es)) old"
proof
  fix q
  show "overlay p (Directory es) (overlay (p @ [name]) n old) q = overlay p (Directory ((name, n) # es)) old q"
  proof (cases "prefix p q")
    case True
    then obtain r where q: "q = p @ r" by (auto simp: prefix_def)
    have "map_of es name = None" using assms by (simp add: map_of_eq_None_iff)
    then show ?thesis by (cases r) (auto simp: overlay_def q)
  next
    case False
    then show ?thesis by (auto simp: overlay_def prefix_def)
  qed
qed

lemma copy_tree_Inr:
  "copy_tree E p n k d = (Inr k', d') \<Longrightarrow> wf_node n \<Longrightarrow> dk_from d' = dk_from d \<and> files d' = overlay p n (files d)"
  "copy_entries E p es k d = (Inr k', d') \<Longrightarrow> wf_node (Directory es) \<Longrightarrow>
     dk_from d' = dk_from d \<and> files d' = overlay p (Directory es) (files d)"
proof (induction E p n k and E p es k arbitrary: d k' d' and d k' d' rule: copy_tree_copy_entries.induct)
  case (1 E p n k)
  obtain u d1 where d1: "create_dirs E p d = (Inr u, d1)"
    and rest: "(case n of File _ \<Rightarrow> abort (AdminIo p not_a_directory) | Directory es \<Rightarrow> copy_entries E p es k) d1 = (Inr k', d')"
    using "1.prems"(1) by (auto simp: seq_Inr)
  then obtain es where n: "n = Directory es" by (cases n) auto
  show ?case using "1.IH" rest n "1.prems"(2) create_dirs_Inr [OF d1] by simp
next
  case (2 E p k)
  then show ?case by (auto simp: seq_Inr file_op_Inr)
next
  case (3 E p name n es k)
  obtain d1 d2 k2 where d1: "dk_from d1 = dk_from d" "files d1 = files d"
    and one: "(case n of Directory _ \<Rightarrow> copy_tree E (p @ [name]) n k
        | File b \<Rightarrow> seq (io (p @ [name]) (file_op E (store_bytes (p @ [name]) b))) (\<lambda>_. return ((k + 1) mod 4294967296))) d1
        = (Inr k2, d2)"
    and rest: "copy_entries E p es k2 d2 = (Inr k', d')"
  proof -
    obtain u d1 k2 d2 where "io p (file_op E (\<lambda>d. (Inr (), d))) d = (Inr u, d1)"
      and one: "(case n of Directory _ \<Rightarrow> copy_tree E (p @ [name]) n k
        | File b \<Rightarrow> seq (io (p @ [name]) (file_op E (store_bytes (p @ [name]) b))) (\<lambda>_. return ((k + 1) mod 4294967296))) d1
        = (Inr k2, d2)" "copy_entries E p es k2 d2 = (Inr k', d')"
      using "3.prems"(1) unfolding copy_entries.simps seq_Inr by blast
    moreover from this(1) have "dk_from d1 = dk_from d" "files d1 = files d" by (auto simp: file_op_Inr)
    ultimately show thesis using that by blast
  qed
  have wf: "wf_node n" "wf_node (Directory es)" "name \<notin> fst ` set es" using "3.prems"(2) by auto
  have "dk_from d2 = dk_from d1 \<and> files d2 = overlay (p @ [name]) n (files d1)"
  proof (cases n)
    case (File b)
    then show ?thesis using one store_file_Inr by (auto simp: seq_Inr overlay_file)
  next
    case (Directory es')
    then show ?thesis using "3.IH"(1) one wf(1) by auto
  qed
  then show ?case using "3.IH"(2) [OF rest wf(2)] d1 overlay_entry [OF wf(3)] by simp
qed

lemma restore_effect:
  assumes run: "restore E \<lparr>dk_from = snap, dk_to = None, dk_calls = c\<rparr> = (Inr rep, d')" and "wf_node snap"
  shows "files d' meta_path = file_at snap meta_path" "prefix parts_path q \<Longrightarrow> files d' q = file_at snap q"
proof -
  let ?d = "\<lparr>dk_from = snap, dk_to = None, dk_calls = c\<rparr>"
  from run obtain u d1 u2 d2 where r1: "create_dirs E [] ?d = (Inr u, d1)"
    and r2: "copy_file E meta_path meta_path d1 = (Inr u2, d2)"
    and r3: "(case lookup (dk_from d2) parts_path of
        Some n \<Rightarrow> seq (copy_tree E parts_path n 0) (\<lambda>k. return \<lparr>rr_parts_copied = k\<rparr>) d2
      | None \<Rightarrow> seq (io parts_path (create_dirs E parts_path)) (\<lambda>_. return \<lparr>rr_parts_copied = 0\<rparr>) d2) = (Inr rep, d')"
    by (auto simp: restore_def seq_Inr split: if_splits)
  have from_snap: "dk_from d2 = snap" using copy_file_Inr(2) [OF r2] create_dirs_Inr(2) [OF r1] by simp
  have "files d1 = Map.empty" using create_dirs_Inr(1) [OF r1] by (simp add: files_def to_node_def fun_eq_iff)
  then obtain b where b: "file_at snap meta_path = Some b" "files d2 = [meta_path \<mapsto> b]"
    using copy_file_Inr(1) [OF r2] create_dirs_Inr(2) [OF r1] by auto
  have "files d' meta_path = file_at snap meta_path \<and> (prefix parts_path q \<longrightarrow> files d' q = file_at snap q)"
  proof (cases "lookup snap parts_path")
    case None
    then have "files d' = files d2" using r3 from_snap by (auto simp: seq_Inr dest: create_dirs_Inr(1))
    moreover have "file_at snap (parts_path @ r) = None" for r
      using None by (cases snap) (auto simp: parts_path_def split: option.splits)
    ultimately show ?thesis using b by (auto simp: prefix_def meta_path_def parts_path_def)
  next
    case (Some n)
    then obtain k where "copy_tree E parts_path n 0 d2 = (Inr k, d')" using r3 from_snap by (auto simp: seq_Inr)
    moreover have sub: "file_at snap (parts_path @ r) = file_at n r" for r
      using Some by (cases snap) (auto simp: parts_path_def split: option.splits)
    moreover have "wf_node n" using Some assms(2) by (cases snap) (auto simp: parts_path_def split: option.splits dest: map_of_SomeD)
    ultimately have "files d' = overlay parts_path n (files d2)" using copy_tree_Inr(1) by blast
    then show ?thesis using b sub by (auto simp: overlay_def prefix_def meta_path_def parts_path_def)
  qed
  then show "files d' meta_path = file_at snap meta_path" "prefix parts_path q \<Longrightarrow> files d' q = file_at snap q" by blast+
qed

text \<open>
  C14.  A backup that is restored serves the same objects: when the data directory of a stopped
  server is backed up into a new directory and the snapshot is restored into another new
  directory, without an error, then no part is reported missing, the restored directory opens to the
  same metadata, and every part of every object in a bucket is there with its bytes.
\<close>

theorem backup_restore_round_trip:
  assumes "holds (e_crates E) R src w" and "server_inv E w" and "fair_order order"
    and "backup E R order \<lparr>dk_from = src, dk_to = None, dk_calls = c\<rparr> = (Inr rep, d1)"
    and "restore E \<lparr>dk_from = to_node d1, dk_to = None, dk_calls = c'\<rparr> = (Inr rep', d2)"
  shows "br_parts_missing rep = [] \<and>
    (\<exists>b. file_at (to_node d2) meta_path = Some b \<and> rb_open R b = Inr (w_db w)) \<and>
    (\<forall>m h. stored_in_bucket (w_db w) m \<and> h \<in> part_hashes m \<longrightarrow>
       file_at (to_node d2) (part_path (e_crates E) h) = w_blobs w h \<and> w_blobs w h \<noteq> None)"
proof -
  have inv: "db_ok (w_db w)" "keys_ok (w_db w)" and kept: "\<forall>h. 0 < refs (w_db w) h \<longrightarrow> w_blobs w h \<noteq> None"
    using assms(2) by (auto simp: server_inv_def world_inv_def dest: store_inv_D)
  note b = backup_effect [OF assms(4,3,1) inv]
  note r = restore_effect [OF assms(5) b(2) [unfolded to_wf_def]]
  have "w_blobs w h \<noteq> None" if "stored_in_bucket (w_db w) m" "h \<in> part_hashes m" for m h
    using that kept mentions_refs [OF inv(1)] by (metis mentions_def stored_in_bucket_def)
  moreover have "br_parts_missing rep = []" using b(5) kept mentions_refs [OF inv(1)] by (auto simp: filter_empty_conv)
  ultimately show ?thesis
    using b(3,4) r(1) r(2) [OF part_path_not_meta(2)] assms(1) by (auto simp: files_def holds_def)
qed

definition toy_redb :: redb where
  "toy_redb = \<lparr>rb_open = (\<lambda>_. Inr (w_db toy_stored)), rb_new = []\<rparr>"

definition toy_part_dir :: node where
  "toy_part_dir = Directory [(''hi'', Directory [([], Directory [(''hi'', File ''hi'')])])]"

definition toy_dir :: node where
  "toy_dir = Directory [(''meta.redb'', File ''m''), (''parts'', toy_part_dir)]"

lemma toy_holds: "holds toy_crates toy_redb toy_dir toy_stored"
  by (auto simp: holds_def toy_redb_def toy_dir_def toy_part_dir_def meta_path_def part_path_def parts_path_def
      toy_crates_def toy_stored_def toy_world_def Let_def)

lemmas command_eval = seq_def io_def file_op_def Let_def create_dirs_def copy_file_def store_bytes_def to_node_def
  read_file_def meta_path_def parts_path_def part_path_def open_meta_def ask_def collect_bucket_def copy_part_def
  return_def handle_list_buckets_def handle_list_all_manifests_in_bucket_def tbl_range_def tbl_iter_def

lemma toy_backup:
  "\<exists>rep d. backup toy_env toy_redb remdups \<lparr>dk_from = toy_dir, dk_to = None, dk_calls = 0\<rparr> = (Inr rep, d) \<and> to_node d = toy_dir"
  by (simp add: backup_def command_eval toy_redb_def toy_stored_def toy_world_def toy_object_def toy_dir_def
      toy_part_dir_def toy_env_def toy_crates_def new_key_def encode_def)

lemma toy_restore: "\<exists>rep d. restore toy_env \<lparr>dk_from = toy_dir, dk_to = None, dk_calls = 0\<rparr> = (Inr rep, d)"
  by (simp add: restore_def exists_in_def command_eval toy_dir_def toy_part_dir_def toy_env_def)

theorem backup_restore_round_trip_witness:
  "\<exists>rep d1 rep' d2.
     backup toy_env toy_redb remdups \<lparr>dk_from = toy_dir, dk_to = None, dk_calls = 0\<rparr> = (Inr rep, d1) \<and>
     restore toy_env \<lparr>dk_from = to_node d1, dk_to = None, dk_calls = 0\<rparr> = (Inr rep', d2) \<and>
     br_parts_missing rep = [] \<and> file_at (to_node d2) (part_path toy_crates ''hi'') = Some ''hi''"
proof -
  obtain rep d1 where b: "backup toy_env toy_redb remdups \<lparr>dk_from = toy_dir, dk_to = None, dk_calls = 0\<rparr> = (Inr rep, d1)"
    "to_node d1 = toy_dir" using toy_backup by blast
  obtain rep' d2 where r: "restore toy_env \<lparr>dk_from = toy_dir, dk_to = None, dk_calls = 0\<rparr> = (Inr rep', d2)"
    using toy_restore by blast
  have X: "e_crates toy_env = toy_crates" by (simp add: toy_env_def)
  have m: "stored_in_bucket (w_db toy_stored) (toy_object ''null'' ''hi'' None 4)" "''hi'' \<in> part_hashes (toy_object ''null'' ''hi'' None 4)"
    "w_blobs toy_stored ''hi'' = Some ''hi''"
    by (auto simp: stored_in_bucket_def toy_stored_def toy_world_def toy_object_def new_key_def part_hashes_def tbl_get_def)
  have "fair_order remdups" by (simp add: fair_order_def)
  from backup_restore_round_trip [OF toy_holds [folded X] toy_inv(2) this b(1) r [folded b(2)]] show ?thesis
    using b r m by (metis X)
qed

subsection \<open>Refusal to overwrite\<close>

text \<open>
  C37.  A restore never touches a directory that already holds a metadata store: it fails and
  leaves the directory as it was.
\<close>

theorem restore_refuses_overwrite:
  assumes "dk_to d = Some n" "exists_in n meta_path"
  shows "\<exists>e. fst (restore E d) = Inl e \<and> dk_to (snd (restore E d)) = Some n \<and> dk_from (snd (restore E d)) = dk_from d"
proof -
  have "\<exists>es. n = Directory es" using assms(2) by (cases n) (simp_all add: exists_in_def meta_path_def)
  then have "mkdirs n [] = Inr n" by auto
  then show ?thesis
    using assms by (auto simp: restore_def seq_def io_def create_dirs_def file_op_def Let_def to_node_def abort_def
        split: option.split io_fault.split)
qed

theorem restore_refuses_overwrite_witness:
  "\<exists>e. fst (restore toy_env \<lparr>dk_from = toy_dir, dk_to = Some toy_dir, dk_calls = 0\<rparr>) = Inl e"
  using restore_refuses_overwrite [of "\<lparr>dk_from = toy_dir, dk_to = Some toy_dir, dk_calls = 0\<rparr>" toy_dir toy_env]
  by (auto simp: exists_in_def toy_dir_def meta_path_def)

subsection \<open>Scan\<close>

text \<open>The files below a directory with their names, in the order of the walk.\<close>

function tree_files :: "node \<Rightarrow> (string \<times> bytes) list" and entry_files :: "(string \<times> node) list \<Rightarrow> (string \<times> bytes) list" where
  "tree_files n = (case n of File _ \<Rightarrow> [] | Directory es \<Rightarrow> entry_files es)"
| "entry_files [] = []"
| "entry_files ((name, n) # es) = (case n of File b \<Rightarrow> [(name, b)] | Directory _ \<Rightarrow> tree_files n) @ entry_files es"
  by pat_completeness auto

termination
  by (relation "measure (case_sum (\<lambda>n. 2 * size n) (\<lambda>es. 2 * size_list (size_prod (\<lambda>_. 0) size) es))") auto

declare tree_files.simps [simp del]

definition intact :: "crates \<Rightarrow> string \<times> bytes \<Rightarrow> bool" where
  "intact X e \<longleftrightarrow> hex_encode X (blake3 X (snd e)) = utf8_name (fst e)"

lemma pass_entry: "\<forall>n. e_io_fault E n = None \<Longrightarrow> seq (io p (file_op E (\<lambda>d. (Inr a, d)))) f d = f a (d\<lparr>dk_calls := dk_calls d + 1\<rparr>)"
  by (simp add: seq_def io_def file_op_def Let_def)

lemma seq_at: "m d = (Inr a, d') \<Longrightarrow> seq m f d = f a d'"
  by (simp add: seq_def)

lemma walk_runs:
  "\<forall>n. e_io_fault E n = None \<Longrightarrow> n = Directory es \<Longrightarrow> \<exists>c. walk_and_verify E p n r d =
      (Inr (foldl (\<lambda>r e. check_file (e_crates E) (fst e) (snd e) r) r (tree_files n)), d\<lparr>dk_calls := c\<rparr>)"
  "\<forall>n. e_io_fault E n = None \<Longrightarrow> \<exists>c. verify_entries E p es' r d =
      (Inr (foldl (\<lambda>r e. check_file (e_crates E) (fst e) (snd e) r) r (entry_files es')), d\<lparr>dk_calls := c\<rparr>)"
proof (induction E p n r and E p es' r arbitrary: d es and d rule: walk_and_verify_verify_entries.induct)
  case (1 E p n r)
  then show ?case by (simp add: tree_files.simps)
next
  case (2 E p r)
  then show ?case by (auto simp: pass_entry return_def)
next
  case (3 E p name n es r)
  let ?step = "foldl (\<lambda>r e. check_file (e_crates E) (fst e) (snd e) r)"
  let ?d = "d\<lparr>dk_calls := dk_calls d + 1\<rparr>"
  have "\<exists>c. (case n of Directory _ \<Rightarrow> walk_and_verify E (p @ [name]) n r
      | File b \<Rightarrow> seq (io (p @ [name]) (file_op E (\<lambda>d. (Inr b, d)))) (\<lambda>bytes. return (check_file (e_crates E) name bytes r))) ?d
      = (Inr (?step r (case n of File b \<Rightarrow> [(name, b)] | Directory _ \<Rightarrow> tree_files n)), ?d\<lparr>dk_calls := c\<rparr>)"
  proof (cases n)
    case (File b)
    then show ?thesis using "3.prems" by (auto simp: pass_entry return_def)
  next
    case (Directory es')
    then show ?thesis using "3.IH"(1) [OF Directory "3.prems" Directory, of ?d] by (simp del: walk_and_verify.simps)
  qed
  then obtain c where one: "(case n of Directory _ \<Rightarrow> walk_and_verify E (p @ [name]) n r
      | File b \<Rightarrow> seq (io (p @ [name]) (file_op E (\<lambda>d. (Inr b, d)))) (\<lambda>bytes. return (check_file (e_crates E) name bytes r))) ?d
      = (Inr (?step r (case n of File b \<Rightarrow> [(name, b)] | Directory _ \<Rightarrow> tree_files n)), ?d\<lparr>dk_calls := c\<rparr>)" by blast
  have eq: "verify_entries E p ((name, n) # es) r d =
      verify_entries E p es (?step r (case n of File b \<Rightarrow> [(name, b)] | Directory _ \<Rightarrow> tree_files n)) (?d\<lparr>dk_calls := c\<rparr>)"
    by (subst verify_entries.simps, subst pass_entry [OF "3.prems"(1)], rule seq_at, rule one)
  obtain c2 where c2: "verify_entries E p es (?step r (case n of File b \<Rightarrow> [(name, b)] | Directory _ \<Rightarrow> tree_files n)) (?d\<lparr>dk_calls := c\<rparr>)
      = (Inr (?step r (entry_files ((name, n) # es))), d\<lparr>dk_calls := c2\<rparr>)"
    using "3.IH"(2) [OF "3.prems", of _ "?d\<lparr>dk_calls := c\<rparr>"] by (auto simp: foldl_append)
  show ?case by (rule exI [of _ c2]) (simp only: eq c2)
qed

lemma check_file_sel:
  "sr_parts_checked (check_file X name b r) = (sr_parts_checked r + 1) mod 4294967296"
  "sr_parts_passed (check_file X name b r) =
     (if intact X (name, b) then (sr_parts_passed r + 1) mod 4294967296 else sr_parts_passed r)"
  "sr_corrupted (check_file X name b r) = sr_corrupted r @ (if intact X (name, b) then [] else [utf8_name name])"
  by (simp_all add: check_file_def intact_def Let_def)

lemma check_files:
  fixes r X fs
  defines "r' \<equiv> foldl (\<lambda>r e. check_file X (fst e) (snd e) r) r fs"
  assumes "sr_parts_checked r < 4294967296" "sr_parts_passed r < 4294967296"
  shows "sr_parts_checked r' = (sr_parts_checked r + length fs) mod 4294967296 \<and>
    sr_parts_passed r' = (sr_parts_passed r + length (filter (intact X) fs)) mod 4294967296 \<and>
    sr_corrupted r' = sr_corrupted r @ map (utf8_name \<circ> fst) (filter (\<lambda>e. \<not> intact X e) fs)"
  using assms(2,3) unfolding r'_def
proof (induction fs arbitrary: r)
  case (Cons e fs)
  show ?case using Cons.IH [of "check_file X (fst e) (snd e) r"] Cons.prems
    by (auto simp: check_file_sel mod_simps)
qed simp

text \<open>
  C32.  The integrity scan reports exactly the corrupted files: when no file operation fails it
  returns, its list of corrupted names is the list of the files whose content does not have the
  hash in their name, and its counts are the numbers of all files and of intact files (as
  \<^verbatim>\<open>u32\<close>).  It changes no file.
\<close>

theorem scan_reports_exactly:
  assumes "\<forall>n. e_io_fault E n = None" and "lookup (dk_from d) parts_path = Some (Directory es)"
  shows "\<exists>rep c. scan_rebuild E d = (Inr rep, d\<lparr>dk_calls := c\<rparr>) \<and>
    sr_parts_checked rep = length (tree_files (Directory es)) mod 4294967296 \<and>
    sr_parts_passed rep = length (filter (intact (e_crates E)) (tree_files (Directory es))) mod 4294967296 \<and>
    sr_corrupted rep = map (utf8_name \<circ> fst) (filter (\<lambda>e. \<not> intact (e_crates E) e) (tree_files (Directory es)))"
proof -
  obtain c where "scan_rebuild E d =
      (Inr (foldl (\<lambda>r e. check_file (e_crates E) (fst e) (snd e) r) empty_scan (tree_files (Directory es))), d\<lparr>dk_calls := c\<rparr>)"
    using walk_runs(1) [OF assms(1) refl, of parts_path es empty_scan d] assms(2)
    by (auto simp: scan_rebuild_def simp del: walk_and_verify.simps)
  then show ?thesis using check_files [of empty_scan "e_crates E" "tree_files (Directory es)"] by (auto simp: empty_scan_def)
qed

definition toy_damaged :: node where
  "toy_damaged = Directory [(''parts'', Directory [(''hi'', Directory [(''hi'', File ''hi''), (''ho'', File ''he'')])])]"

theorem scan_reports_exactly_witness:
  "\<exists>rep d. scan_rebuild toy_env \<lparr>dk_from = toy_damaged, dk_to = None, dk_calls = 0\<rparr> = (Inr rep, d) \<and>
     sr_parts_checked rep = 2 \<and> sr_corrupted rep = [''ho'']"
proof -
  have "valid_utf8 ''hi'' \<and> valid_utf8 ''ho''" by (simp add: valid_utf8.simps continuations_def in_range_def)
  then have "\<not> intact toy_crates (''ho'', ''he'')" "intact toy_crates (''hi'', ''hi'')" "utf8_name ''ho'' = ''ho''"
    by (simp_all add: intact_def utf8_name_def toy_crates_def)
  then show ?thesis
    using scan_reports_exactly [of toy_env "\<lparr>dk_from = toy_damaged, dk_to = None, dk_calls = 0\<rparr>"
        "[(''hi'', Directory [(''hi'', File ''hi''), (''ho'', File ''he'')])]"]
    by (auto simp: toy_env_def toy_damaged_def parts_path_def tree_files.simps)
qed

end
