(* ===== verification/EntryProps.thy ===== *)
theory EntryProps
  imports Entry HttpProps AdminProps
begin

text \<open>
  The executable: the keys it generates, the configuration it writes once, the configuration in
  force after reloads, and what survives restarts.
\<close>

subsection \<open>Keys\<close>

lemma alpha_facts: "length alpha = 32" "distinct alpha"
  by (simp_all add: alpha_def)

lemma alpha_eq: "i < 32 \<Longrightarrow> alpha ! (n mod 32) = alpha ! i \<longleftrightarrow> n mod 32 = i"
  using alpha_facts by (simp add: nth_eq_iff_index_eq)

lemma bytes_mod_32:
  assumes "i < 32"
  shows "card {b :: char. of_char b mod (32 :: nat) = i} = 8"
proof -
  let ?f = "\<lambda>k. char_of (i + 32 * k) :: char"
  have small: "i + 32 * k < 256" if "k < 8" for k using that assms by simp
  then have of_f: "of_char (?f k) = i + 32 * k" if "k < 8" for k using that by simp
  have "{b :: char. of_char b mod (32 :: nat) = i} = ?f ` {0..<8}"
  proof
    show "{b :: char. of_char b mod (32 :: nat) = i} \<subseteq> ?f ` {0..<8}"
    proof
      fix b :: char assume "b \<in> {b. of_char b mod (32 :: nat) = i}"
      then have "(of_char b :: nat) = i + 32 * (of_char b div 32)" by (simp add: mult.commute) (metis mod_div_mult_eq mult.commute)
      then have "b = ?f (of_char b div 32)" by (metis char_of_char)
      moreover have "of_char b div (32 :: nat) < 8" using nat_of_char_less_256 [of b] by (intro less_mult_imp_div_less) simp
      ultimately show "b \<in> ?f ` {0..<8}" by (metis atLeastLessThan_iff image_eqI zero_le)
    qed
    show "?f ` {0..<8} \<subseteq> {b. of_char b mod (32 :: nat) = i}" using of_f assms by auto
  qed
  moreover have "inj_on ?f {0..<8}" using of_f by (auto intro!: inj_onI)
  ultimately show ?thesis by (simp add: card_image)
qed

text \<open>
  C40.  A generated access key has twenty characters of the base-32 alphabet, and the choice is
  unbiased: every character of the alphabet stands for exactly 8 of the 256 values of its random
  byte.
\<close>

theorem access_key_unbiased:
  assumes "length random = 20"
  shows "length (generate_access_key random) = 20 \<and> set (generate_access_key random) \<subseteq> set alpha \<and>
    (\<forall>c\<in>set alpha. card {b. generate_access_key [b] = [c]} = 8)"
proof -
  have "set (generate_access_key random) \<subseteq> set alpha"
    using alpha_facts(1) by (auto simp: generate_access_key_def simp del: nth_mem intro!: nth_mem)
  moreover have "card {b. generate_access_key [b] = [c]} = 8" if c: "c \<in> set alpha" for c
  proof -
    obtain i where "i < 32" "c = alpha ! i" using c unfolding in_set_conv_nth alpha_facts by blast
    then have "generate_access_key [b] = [c] \<longleftrightarrow> of_char b mod (32 :: nat) = i" for b
      using alpha_eq [of i "of_char b"] by (simp only: generate_access_key_def list.map alpha_facts list.inject simp_thms)
    then show ?thesis using bytes_mod_32 [OF \<open>i < 32\<close>] by simp
  qed
  ultimately show ?thesis using assms by (simp add: generate_access_key_def)
qed

theorem access_key_unbiased_witness: "length (generate_access_key ''aaaaaaaaaabbbbbbbbbb'') = 20"
  using access_key_unbiased [of "''aaaaaaaaaabbbbbbbbbb''"] by simp

subsection \<open>Configuration\<close>

lemma host_op_Inr:
  "host_op E c f h = (Inr u, h') \<longleftrightarrow> e_io_fault E (hs_calls h) = None \<and> h' = f (h\<lparr>hs_calls := hs_calls h + 1\<rparr>)"
  by (auto simp: host_op_def Let_def split: option.splits io_fault.splits)

lemma write_config_Inr:
  "write_config E p content h = (Inr u, h') \<longleftrightarrow>
     e_io_fault E (hs_calls h) = None \<and> h' = h\<lparr>hs_calls := hs_calls h + 1, hs_file := (hs_file h)(p := Some content)\<rparr>"
  by (auto simp: write_config_def Let_def split: option.splits io_fault.splits)

lemma host_op_file: "(\<And>h. hs_file (f h) = hs_file h) \<Longrightarrow> hs_file (snd (host_op E c f h)) = hs_file h"
  by (auto simp: host_op_def Let_def split: option.splits io_fault.splits)

text \<open>
  C36.  The container entry point writes its configuration once: after a successful first start
  the configuration file exists with owner-only permissions, and no later start with the same
  data directory, whatever its other variables and random bytes, changes anything on the host.
\<close>

theorem auto_bootstrap_once:
  assumes "auto_bootstrap E random var h = (Inr (), h')" and "data_dir_of var' = data_dir_of var"
  shows "auto_bootstrap E' random' var' h' = (Inr (), h') \<and>
    (hs_file h (config_path_of var) \<noteq> None \<longrightarrow> h' = h) \<and>
    (hs_file h (config_path_of var) = None \<longrightarrow>
       hs_file h' (config_path_of var) \<noteq> None \<and> hs_mode h' (config_path_of var) = Some 384)"
proof (cases "hs_file h (config_path_of var) = None")
  case True
  have "hs_file h' (config_path_of var) \<noteq> None \<and> hs_mode h' (config_path_of var) = Some 384"
    using assms(1) True
    by (auto simp: auto_bootstrap_def Let_def seq_Inr host_op_Inr create_dir_all_def chmod_def write_config_Inr print_def
        mode_file_def split: if_splits prod.splits)
  then show ?thesis using True assms(2) by (auto simp: auto_bootstrap_def config_path_of_def Let_def)
next
  case False
  then have "h' = h" using assms(1) by (simp add: auto_bootstrap_def Let_def)
  then show ?thesis using False assms(2) by (auto simp: auto_bootstrap_def config_path_of_def Let_def)
qed

definition toy_host :: host where
  "toy_host = \<lparr>hs_file = (\<lambda>_. None), hs_dir = (\<lambda>_. False), hs_mode = (\<lambda>_. None), hs_out = [],
     hs_store = (\<lambda>_. (None, \<lambda>_. None)), hs_calls = 0\<rparr>"

lemma toy_bootstrap: "\<exists>h'. auto_bootstrap toy_env (''a'', ''b'') (\<lambda>_. None) toy_host = (Inr (), h')"
  by (simp add: auto_bootstrap_def Let_def seq_def create_dir_all_def chmod_def write_config_def print_def host_op_def
      tls_pair_def key_pair_def from_sum_def toy_host_def toy_env_def return_def)

theorem auto_bootstrap_once_witness:
  "\<exists>h'. auto_bootstrap toy_env (''a'', ''b'') (\<lambda>_. None) toy_host = (Inr (), h') \<and>
     auto_bootstrap toy_env (''c'', ''d'') (\<lambda>_. None) h' = (Inr (), h') \<and> hs_mode h' (config_path_of (\<lambda>_. None)) = Some 384"
proof -
  obtain h' where h': "auto_bootstrap toy_env (''a'', ''b'') (\<lambda>_. None) toy_host = (Inr (), h')" using toy_bootstrap by blast
  from auto_bootstrap_once [OF this refl] show ?thesis using h' by (auto simp: toy_host_def)
qed

text \<open>The configuration that an occurrence brings into force, if any.\<close>

definition accepted :: "(string \<Rightarrow> string + config_file) \<Rightarrow> occurrence \<Rightarrow> server_config option" where
  "accepted toml occ =
     (case occ of
        Hangup text _ \<Rightarrow> (case load_config toml text of Inr (c, _) \<Rightarrow> Some c | Inl _ \<Rightarrow> None)
      | _ \<Rightarrow> None)"

text \<open>
  C34.  The configuration in force is the last one that could be loaded: a reload whose file
  cannot be read or is rejected keeps the configuration, requests and sweeps do not change it,
  and TLS is neither switched on nor off by a reload.
\<close>

theorem config_in_force:
  "st_config (ru_state (fold (occur E A N toml) occs ru)) =
     last (st_config (ru_state ru) # List.map_filter (accepted toml) occs) \<and>
   (ru_tls (fold (occur E A N toml) occs ru) = None \<longleftrightarrow> ru_tls ru = None)"
proof (induction occs arbitrary: ru)
  case (Cons occ occs)
  have "st_config (ru_state (occur E A N toml occ ru)) =
      (case accepted toml occ of Some c \<Rightarrow> c | None \<Rightarrow> st_config (ru_state ru))"
    by (cases occ) (auto simp: accepted_def reload_def on_world_def Let_def split: sum.split)
  moreover have "ru_tls (occur E A N toml occ ru) = None \<longleftrightarrow> ru_tls ru = None"
    by (cases occ) (auto simp: reload_def on_world_def Let_def split: sum.split option.split)
  ultimately show ?case using Cons.IH [of "occur E A N toml occ ru"]
    by (auto simp: List.map_filter_simps split: option.split)
qed (simp add: List.map_filter_simps)

subsection \<open>Restarts\<close>

lemma boot_Inr:
  assumes "boot E toml load_pem p h = (Inr ru, h')" and "load_config toml (read_text E p h) = Inr (cfg, d)"
  shows "st_config (ru_state ru) = cfg"
    "st_world (ru_state ru) =
       \<lparr>w_db = (case fst (hs_store h d) of None \<Rightarrow> bootstrap_tables | Some db \<Rightarrow> db), w_blobs = snd (hs_store h d),
        w_events = [], w_tick = 0\<rparr>"
  using assms
  by (auto simp: boot_def seq_Inr read_config_def create_dir_all_def host_op_Inr open_data_def open_store_def Let_def
      open_parts_def app_state_new_def split: option.splits sum.splits)

text \<open>
  The states of a server over its whole life: first boot on an empty data directory, anything
  that occurs while it runs, and restarts, which find the metadata and the part files that the
  stopped server left (but none of the deliveries it had pending).  The calls below keep the
  side conditions of the requests: counts within 32 bits, no NUL in the path of a URL.
\<close>

definition calm :: "running \<Rightarrow> occurrence \<Rightarrow> bool" where
  "calm ru occ \<longleftrightarrow> roomy (w_db (st_world (ru_state ru))) \<and> (case occ of Arrives _ rq \<Rightarrow> nul \<notin> set (rq_path rq) | _ \<Rightarrow> True)"

inductive lives :: "env \<Rightarrow> auth_lib \<Rightarrow> net \<Rightarrow> (string \<Rightarrow> string + config_file) \<Rightarrow> running \<Rightarrow> bool" for E A N toml where
  first_boot: "boot E toml load_pem p h = (Inr ru, h') \<Longrightarrow> load_config toml (read_text E p h) = Inr (cfg, d) \<Longrightarrow>
    hs_store h d = (None, \<lambda>_. None) \<Longrightarrow> lives E A N toml ru"
| occurs: "lives E A N toml ru \<Longrightarrow> calm ru occ \<Longrightarrow> lives E A N toml (occur E A N toml occ ru)"
| restart: "lives E A N toml ru \<Longrightarrow> boot E toml load_pem p h = (Inr ru', h') \<Longrightarrow>
    load_config toml (read_text E p h) = Inr (cfg, d) \<Longrightarrow>
    hs_store h d = (Some (w_db (st_world (ru_state ru))), w_blobs (st_world (ru_state ru))) \<Longrightarrow> lives E A N toml ru'"

lemma server_inv_stored: "server_inv E \<lparr>w_db = w_db w, w_blobs = w_blobs w, w_events = evs, w_tick = n\<rparr> \<longleftrightarrow> server_inv E w"
  by (simp add: server_inv_def world_inv_def)

lemma occur_inv:
  assumes "server_inv E (st_world (ru_state ru))" "calm ru occ" "uuids_ok E" "same_target A"
  shows "server_inv E (st_world (ru_state (occur E A N toml occ ru)))"
proof (cases occ)
  case (Arrives rid rq)
  then show ?thesis using assms build_app_inv by (simp add: on_world_def calm_def)
next
  case Timer
  have "sweep_inv E (tick (st_world (ru_state ru)))"
    using assms(1,2) roomy_counts by (auto simp: sweep_inv_def server_inv_def calm_def)
  then have "server_inv E (snd (sweep_at E (e_clock E (w_tick (st_world (ru_state ru)))) (tick (st_world (ru_state ru)))))"
    using triple_snd [OF sweep_server] by (auto simp: sweep_inv_def)
  then show ?thesis by (simp add: Timer on_world_def sweep_once_def bnd_def now_utc_def)
next
  case (Delivers t)
  then show ?thesis using assms(1) deliver_inv by (simp add: on_world_def)
next
  case (Hangup content load_pem)
  then show ?thesis using assms(1) by (simp add: reload_def Let_def)
qed

lemma lives_inv:
  assumes "lives E A N toml ru" "uuids_ok E" "same_target A"
  shows "server_inv E (st_world (ru_state ru))"
  using assms(1)
proof induction
  case (first_boot load_pem p h ru h' cfg d)
  have "st_world (ru_state ru) = initial_world"
    using boot_Inr(2) [OF first_boot(1,2)] first_boot(3) by (simp add: initial_world_def)
  then show ?case using server_reach_inv [OF server_start assms(2)] by simp
next
  case (occurs ru oc)
  then show ?case using occur_inv assms(2,3) by blast
next
  case (restart ru load_pem p h ru' h' cfg d)
  then show ?case using boot_Inr(2) [OF restart(2,3)] server_inv_stored by simp
qed

text \<open>
  C3.  Objects survive restarts: over the whole life of a server, through requests, failures,
  sweeps, deliveries, reloads and restarts, every part of every stored manifest has its file and
  the file has the content that its name is the hash of.
\<close>

theorem objects_survive_restarts:
  assumes "lives E A N toml ru" "uuids_ok E" "same_target A"
    and "tbl_get (objects (w_db (st_world (ru_state ru)))) kb = Some m" "h \<in> part_hashes m"
  shows "\<exists>data. w_blobs (st_world (ru_state ru)) h = Some data \<and> blake3 (e_crates E) data = h"
proof -
  let ?w = "st_world (ru_state ru)"
  have inv: "store_inv (w_db ?w)" "blobs_ok (e_crates E) (w_blobs ?w)" "\<forall>h. 0 < refs (w_db ?w) h \<longrightarrow> w_blobs ?w h \<noteq> None"
    using lives_inv [OF assms(1-3)] by (auto simp: server_inv_def world_inv_def)
  have "0 < refs (w_db ?w) h" using assms(4,5) mentions_refs store_inv_D(1) [OF inv(1)] by (auto simp: mentions_def)
  then obtain data where "w_blobs ?w h = Some data" using inv(3) by blast
  then show ?thesis using inv(2) by (simp add: blobs_ok_def)
qed

definition toy_toml :: "string \<Rightarrow> string + config_file" where
  "toy_toml _ = Inr \<lparr>cf_region = sc_region toy_config, cf_access_key_id = rk_access_key_id (sc_root_key toy_config),
     cf_secret_access_key = rk_secret_access_key (sc_root_key toy_config), cf_listen_addr = sc_listen_addr toy_config,
     cf_data_dir = ''d'', cf_endpoint_host = None, cf_max_signed_body_bytes = None, cf_allow_loopback_webhooks = False,
     cf_tls_cert_path = None, cf_tls_key_path = None, cf_webhooks = []\<rparr>"

definition toy_configured :: "db option \<times> (hash \<Rightarrow> bytes option) \<Rightarrow> host" where
  "toy_configured st = toy_host\<lparr>hs_file := (\<lambda>_. Some []), hs_store := (\<lambda>_. st)\<rparr>"

lemma toy_load: "load_config toy_toml (read_text toy_env p (toy_configured st)) = Inr (toy_config, ''d'')"
  by (simp add: load_config_def read_text_def toy_configured_def toy_host_def toy_env_def toy_toml_def config_of_file_def
      toy_config_def server_config_new_def default_max_body_def)

lemma toy_boot: "\<exists>ru h'. boot toy_env toy_toml (\<lambda>_. Inl []) [] (toy_configured st) = (Inr ru, h')"
proof -
  have "read_config toy_env toy_toml [] (toy_configured st) =
      (Inr (toy_config, ''d''), toy_configured st\<lparr>hs_calls := hs_calls (toy_configured st) + 1\<rparr>)"
    by (simp add: read_config_def toy_load)
  then show ?thesis
    by (simp add: boot_def seq_def create_dir_all_def host_op_def Let_def open_data_def open_store_def open_parts_def return_def
        toy_config_def server_config_new_def toy_env_def)
qed

lemma toy_life: "\<exists>ru. lives toy_env toy_lib toy_net toy_toml ru \<and> st_world (ru_state ru) = toy_http_stored"
proof -
  obtain ru h' where b: "boot toy_env toy_toml (\<lambda>_. Inl []) [] (toy_configured (None, \<lambda>_. None)) = (Inr ru, h')"
    using toy_boot by blast
  have st: "st_world (ru_state ru) = initial_world" "st_config (ru_state ru) = toy_config"
    using boot_Inr [OF b toy_load] by (simp_all add: toy_configured_def initial_world_def)
  have l0: "lives toy_env toy_lib toy_net toy_toml ru"
    by (rule first_boot [OF b toy_load]) (simp add: toy_configured_def)
  let ?o1 = "Arrives toy_id (toy_request PUT ''/bkt'' toy_auth [])"
  let ?o2 = "Arrives toy_id (toy_request PUT ''/bkt/k'' toy_auth ''hi'')"
  let ?r1 = "occur toy_env toy_lib toy_net toy_toml ?o1 ru"
  have s1: "st_world (ru_state ?r1) = toy_http_created" "st_config (ru_state ?r1) = toy_config"
    using st by (simp_all add: on_world_def config_snapshot_def toy_http_created_def)
  have l1: "lives toy_env toy_lib toy_net toy_toml ?r1"
    by (rule occurs [OF l0]) (simp add: calm_def st toy_roomy initial_world_def bootstrap_tables_def toy_request_def)
  have l2: "lives toy_env toy_lib toy_net toy_toml (occur toy_env toy_lib toy_net toy_toml ?o2 ?r1)"
    by (rule occurs [OF l1], unfold calm_def s1) (simp add: toy_roomy toy_created toy_world_def toy_request_def)
  moreover have "st_world (ru_state (occur toy_env toy_lib toy_net toy_toml ?o2 ?r1)) = toy_http_stored"
    using s1 unfolding occur.simps(2) [of _ _ _ _ _ _ ?r1] on_world_def config_snapshot_def toy_http_stored_def by simp
  ultimately show ?thesis by blast
qed

theorem objects_survive_restarts_witness:
  "\<exists>ru data. lives toy_env toy_lib toy_net toy_toml ru \<and> w_events (st_world (ru_state ru)) = [] \<and>
     w_blobs (st_world (ru_state ru)) ''hi'' = Some data"
proof -
  obtain ru where ru: "lives toy_env toy_lib toy_net toy_toml ru" "st_world (ru_state ru) = toy_http_stored"
    using toy_life by blast
  let ?st = "(Some (w_db toy_http_stored), w_blobs toy_http_stored)"
  obtain ru' h' where b: "boot toy_env toy_toml (\<lambda>_. Inl []) [] (toy_configured ?st) = (Inr ru', h')" using toy_boot by blast
  have l: "lives toy_env toy_lib toy_net toy_toml ru'"
    by (rule restart [OF ru(1) b toy_load]) (simp add: toy_configured_def ru(2))
  have st: "w_db (st_world (ru_state ru')) = w_db toy_http_stored" "w_events (st_world (ru_state ru')) = []"
    using boot_Inr [OF b toy_load] by (simp_all add: toy_configured_def)
  have "same_target toy_lib" by (auto simp: same_target_def toy_lib_def split: if_splits)
  from objects_survive_restarts [OF l toy_uuids this toy_stored_row [folded st(1)], of "''hi''"]
  show ?thesis using l st(2) by (auto simp: part_hashes_def toy_object_def)
qed

end
