(* ===== verification/GcProps.thy ===== *)
theory GcProps
  imports PutGet
begin

text \<open>
  Garbage collection (\<^verbatim>\<open>gc_freed_parts\<close> of the handlers, \<^verbatim>\<open>sweep_gc\<close> of the daemon): which parts
  a collection removes and what it leaves alone, and what happens to a part whose collection
  was cut short.
\<close>

subsection \<open>What a collection may change\<close>

text \<open>Exactly the rows and files of the hashes in \<open>H\<close> are gone; nothing else differs.\<close>

definition collected :: "world \<Rightarrow> world \<Rightarrow> hash set \<Rightarrow> bool" where
  "collected w w' H \<longleftrightarrow>
     (\<forall>h. tbl_get (parts (w_db w')) h = (if h \<in> H then None else tbl_get (parts (w_db w)) h)) \<and>
     (\<forall>h. w_blobs w' h = (if h \<in> H then None else w_blobs w h)) \<and>
     objects (w_db w') = objects (w_db w) \<and> buckets (w_db w') = buckets (w_db w) \<and>
     server_meta (w_db w') = server_meta (w_db w) \<and> events_dlq (w_db w') = events_dlq (w_db w) \<and>
     w_events w' = w_events w"

text \<open>Hashes with a row of count 0, and those of them the daemon looks for.\<close>

definition idle :: "world \<Rightarrow> hash set" where
  "idle w = {h. \<exists>e. tbl_get (parts (w_db w)) h = Some e \<and> pe_refcount e = 0}"

definition orphans :: "world \<Rightarrow> hash set" where
  "orphans w = {h. \<exists>e. tbl_get (parts (w_db w)) h = Some e \<and> pe_refcount e = 0 \<and> pe_state e = Live}"

lemma idle_tick [simp]: "idle (tick w) = idle w"
  by (simp add: idle_def)

lemma collected_refl: "collected w w {}" "collected w (tick w) {}"
  by (simp_all add: collected_def)

lemma collected_idle: "collected w w1 H \<Longrightarrow> idle w1 = idle w - H"
  by (auto simp: collected_def idle_def)

lemma collected_trans: "collected w w1 H \<Longrightarrow> collected w1 w2 H' \<Longrightarrow> collected w w2 (H \<union> H')"
  by (simp add: collected_def)

subsection \<open>One part\<close>

text \<open>Without failures the three calls remove an idle part and skip any other.\<close>

lemma three_calls:
  assumes ff: "faultless E" and h: "h \<in> idle w"
  shows "\<exists>w1 w2 w3. mark_part_gc_pending E h w = (Ok True, w1) \<and> delete_part E h w1 = (Ok (), w2) \<and>
    remove_part E h w2 = (Ok (), w3) \<and> collected w w3 {h}"
  using h ff
  by (auto simp: idle_def faultless_def write_eqs write_result_def handle_mark_gc_pending_def handle_remove_part_def
      delete_part_def collected_def)

lemma mark_skips:
  assumes ff: "faultless E" and h: "h \<notin> idle w"
  shows "\<exists>r. r \<noteq> Ok True \<and> r \<noteq> Panic \<and> mark_part_gc_pending E h w = (r, tick w)"
proof (cases "tbl_get (parts (w_db w)) h")
  case (Some e)
  then have "pe_refcount e \<noteq> 0" using h by (auto simp: idle_def)
  then show ?thesis
    using ff Some
    by (intro exI [of _ "Ok False"])
      (simp add: faultless_def write_eqs write_result_def handle_mark_gc_pending_def tick_def)
qed (use ff in \<open>auto simp: faultless_def write_eqs write_result_def handle_mark_gc_pending_def\<close>)

lemma gc_one_collects:
  assumes ff: "faultless E"
  shows "\<exists>w'. gc_one E h u w = (Ok (), w') \<and> collected w w' ({h} \<inter> idle w)"
proof (cases "h \<in> idle w")
  case True
  obtain w1 w2 w3 where "mark_part_gc_pending E h w = (Ok True, w1)" "delete_part E h w1 = (Ok (), w2)"
    "remove_part E h w2 = (Ok (), w3)" "collected w w3 {h}"
    using three_calls [OF ff True] by blast
  then show ?thesis using True by (simp add: gc_one_def catch_def ret_def)
next
  case False
  obtain r where "r \<noteq> Ok True" "r \<noteq> Panic" "mark_part_gc_pending E h w = (r, tick w)"
    using mark_skips [OF ff False] by blast
  then show ?thesis
    using False collected_refl(2) [of w] by (cases r) (auto simp: gc_one_def catch_def ret_def split: bool.split)
qed

lemma gc_orphan_collects:
  assumes ff: "faultless E" and h: "h \<in> idle w"
  shows "\<exists>w'. gc_orphan E h n w = (Ok (incr n), w') \<and> collected w w' {h}"
proof -
  obtain w1 w2 w3 where "mark_part_gc_pending E h w = (Ok True, w1)" "delete_part E h w1 = (Ok (), w2)"
    "remove_part E h w2 = (Ok (), w3)" "collected w w3 {h}"
    using three_calls [OF ff h] by blast
  then show ?thesis by (auto simp: gc_orphan_def catch_def ret_def split: unit.split)
qed

subsection \<open>A list of parts\<close>

lemma gc_freed_collects:
  assumes ff: "faultless E"
  shows "\<exists>w'. (gc_freed_parts E hs :: ('e, unit) action) w = (Ok (), w') \<and> collected w w' (set hs \<inter> idle w)"
proof -
  have "\<exists>w'. (for_each (gc_one E) hs () :: ('e, unit) action) w = (Ok (), w') \<and> collected w w' (set hs \<inter> idle w)"
  proof (induction hs arbitrary: w)
    case (Cons h hs)
    obtain w1 where w1: "(gc_one E h () :: ('e, unit) action) w = (Ok (), w1)" "collected w w1 ({h} \<inter> idle w)"
      using gc_one_collects [OF ff] by blast
    obtain w2 where w2: "(for_each (gc_one E) hs () :: ('e, unit) action) w1 = (Ok (), w2)"
      "collected w1 w2 (set hs \<inter> idle w1)"
      using Cons.IH by blast
    have "{h} \<inter> idle w \<union> set hs \<inter> idle w1 = set (h # hs) \<inter> idle w"
      using collected_idle [OF w1(2)] by auto
    then show ?case using collected_trans [OF w1(2) w2(2)] w1(1) w2(1) by (simp add: bnd_def)
  qed (simp add: ret_def collected_refl)
  then show ?thesis by (simp add: gc_freed_parts_def)
qed

lemma gc_orphans_collects:
  assumes ff: "faultless E"
  shows "distinct hs \<Longrightarrow> set hs \<subseteq> idle w \<Longrightarrow>
     \<exists>w'. for_each (gc_orphan E) hs n w = (Ok ((incr ^^ length hs) n), w') \<and> collected w w' (set hs)"
proof (induction hs arbitrary: w n)
  case (Cons h hs)
  obtain w1 where w1: "gc_orphan E h n w = (Ok (incr n), w1)" "collected w w1 {h}"
    using gc_orphan_collects [OF ff, of h w n] Cons.prems by auto
  have "set hs \<subseteq> idle w1" using collected_idle [OF w1(2)] Cons.prems by auto
  then obtain w2 where w2: "for_each (gc_orphan E) hs (incr n) w1 = (Ok ((incr ^^ length hs) (incr n)), w2)"
    "collected w1 w2 (set hs)"
    using Cons.IH [of w1 "incr n"] Cons.prems(1) by auto
  have "collected w w2 (set (h # hs))" using collected_trans [OF w1(2) w2(2)] by simp
  then show ?case using w1(1) w2(1) by (simp add: bnd_def funpow_swap1)
qed (simp add: ret_def collected_refl)

lemma incr_pow: "(incr ^^ n) m mod 4294967296 = (m + n) mod 4294967296"
proof (induction n)
  case (Suc n)
  then show ?case
    using mod_Suc_eq [of "(incr ^^ n) m" 4294967296] mod_Suc_eq [of "m + n" 4294967296]
    by (simp add: incr_def [of "(incr ^^ n) m"])
qed simp

lemma incr_pow_0: "(incr ^^ n) 0 = n mod 4294967296"
  using incr_pow [of n 0] by (cases n) (simp_all add: incr_def)

definition orphan_list :: "db \<Rightarrow> hash list" where
  "orphan_list d = map fst (filter (\<lambda>e. pe_refcount (snd e) = 0 \<and> pe_state (snd e) = Live) (tbl_iter (parts d)))"

lemma list_orphan_parts_eq: "list_orphan_parts E w = read_result E w (orphan_list (w_db w))"
  by (simp add: list_orphan_parts_def call_defs handle_list_orphan_parts_def orphan_list_def hashes_of_def split: option.split)

lemma orphan_list:
  assumes "tbl_ok (parts (w_db w))"
  shows "distinct (orphan_list (w_db w))" "set (orphan_list (w_db w)) = orphans w"
proof -
  show "distinct (orphan_list (w_db w))"
    using tbl.iter_distinct [OF assms] by (simp add: orphan_list_def distinct_map_filter)
  show "set (orphan_list (w_db w)) = orphans w"
    using tbl.in_iter_iff [OF assms] by (force simp: orphan_list_def orphans_def)
qed

text \<open>In a consistent store a row is idle exactly when nothing refers to its part.\<close>

lemma idle_unreferenced:
  assumes "world_inv E w"
  shows "idle w = {h. tbl_get (parts (w_db w)) h \<noteq> None \<and> refs (w_db w) h = 0}"
  using refs_exact_count [of "w_db w"] assms
  by (force simp: idle_def count_of_def world_inv_def dest: store_inv_D split: option.splits)

subsection \<open>A collection that was cut short\<close>

definition marked :: "hash \<Rightarrow> world \<Rightarrow> bool" where
  "marked h w \<longleftrightarrow> pending (parts (w_db w)) h"

lemma keeps_marked:
  "keeps (marked h) (mark_part_gc_pending E g)" "keeps (marked h) (delete_part E g)"
  "g \<noteq> h \<Longrightarrow> keeps (marked h) (remove_part E g)"
  by (auto simp: keeps_def triple_def marked_def write_eqs write_result_def handle_mark_gc_pending_def
      handle_remove_part_def delete_part_def pending_def
      split: option.splits io_fault.splits if_splits)

lemma keeps_marked_orphan: "g \<noteq> h \<Longrightarrow> keeps (marked h) (gc_orphan E g n)"
  unfolding gc_orphan_def
  by (intro keeps_catch keeps_marked) (auto intro!: keeps_catch keeps_marked keeps_pure split: sum.split bool.split unit.split)

lemma marked_part_refused:
  assumes "marked h w" and "blake3 (e_crates E) body = h"
  shows "put_object E b k hs body w \<noteq> (Ok r, w')"
proof
  assume "put_object E b k hs body w = (Ok r, w')"
  then obtain vid lock now m t freed d1 where m: "put_manifest_of E b k hs body vid lock now m"
    and row: "handle_put_manifest (e_crates E) t (w_db w) m = Inr (freed, d1)"
    by (rule put_object_Ok) blast
  have "h \<in> part_hashes m" using m assms(2) by (auto simp: put_manifest_of_def part_hashes_def)
  then show False
    using put_manifest_ok_iff [of "e_crates E" t "w_db w" m] row assms(1) by (auto simp: marked_def)
qed

text \<open>
  The daemon lists live rows only, so a row that a failed unlink (or a crash) left marked is never
  collected; and a PUT of the same bytes finds the marked row and fails, every time.
\<close>

lemma marked_part_never_returns:
  assumes "tbl_ok (parts (w_db w))" and "marked h w"
  shows "marked h (snd (sweep_gc E w)) \<and>
    (\<forall>b k hs body r w'. blake3 (e_crates E) body = h \<longrightarrow> put_object E b k hs body w \<noteq> (Ok r, w'))"
proof (intro conjI allI impI notI)
  have "h \<notin> set (orphan_list (w_db w))"
    using orphan_list(2) [OF assms(1)] assms(2) by (auto simp: orphans_def marked_def pending_def)
  then have keeps: "keeps (marked h) (for_each (gc_orphan E) (orphan_list (w_db w)) 0)"
    by (intro keeps_for_each keeps_marked_orphan) auto
  have "marked h (tick w)" using assms(2) by (simp add: marked_def)
  then have "marked h (snd (for_each (gc_orphan E) (orphan_list (w_db w)) 0 (tick w)))"
    using keeps by (auto simp: keeps_def triple_def)
  then show "marked h (snd (sweep_gc E w))"
    using \<open>marked h (tick w)\<close>
    by (auto simp: sweep_gc_def bnd_def list_orphan_parts_eq read_result_def split: option.split)
qed (use assms(2) marked_part_refused in blast)

definition toy_garbage :: world where
  "toy_garbage = toy_world [] [] [(''hi'', toy_row 0 2 5), (''ho'', toy_row 0 2 5\<lparr>pe_state := GcPending\<rparr>)] [] 0"

lemma toy_garbage_inv: "world_inv toy_env toy_garbage"
  by (auto simp: world_inv_def store_inv_def db_ok_def keys_ok_def refs_exact_def blobs_ok_def refs_def tbl_iter_def
      tbl_ok_def count_of_def pending_def toy_garbage_def toy_defs tbl_get_def split: option.splits if_splits)

text \<open>One failed unlink is enough.\<close>

lemma failed_unlink_blocks_part:
  "\<exists>w'. snd (sweep_gc (toy_env\<lparr>e_io_fault := (\<lambda>_. Some (FailBefore ''busy''))\<rparr>) toy_garbage) = w' \<and>
     (\<forall>r w''. put_object toy_env ''bkt'' ''k'' [] ''hi'' w' \<noteq> (Ok r, w''))"
proof -
  let ?E = "toy_env\<lparr>e_io_fault := (\<lambda>_. Some (FailBefore ''busy''))\<rparr>"
  let ?w = "snd (sweep_gc ?E toy_garbage)"
  have "tbl_ok (parts (w_db ?w)) \<and> marked ''hi'' ?w"
    by (simp add: marked_def pending_def tbl_ok_def sweep_gc_def bnd_def list_orphan_parts_eq read_result_def orphan_list_def
        tbl_iter_def gc_orphan_def catch_def ret_def write_eqs write_result_def handle_mark_gc_pending_def delete_part_def
        tick_def tbl_get_def toy_garbage_def toy_defs)
  then have "\<forall>r w''. put_object toy_env ''bkt'' ''k'' [] ''hi'' ?w \<noteq> (Ok r, w'')"
    using marked_part_never_returns [of ?w "''hi''" toy_env] by (simp add: toy_defs)
  then show ?thesis by blast
qed

subsection \<open>What a collection removes\<close>

text \<open>
  C33.  A collection removes what is not referenced and nothing else.  Without failures the
  collection after a request removes, of the hashes it is given, the rows and files of exactly
  those that no stored manifest refers to; the daemon's sweep does so for every unreferenced
  part of the store whose row is still live, and reports how many they were (in 32 bits).  All
  other rows and files, the manifests, buckets, queue and events stay.  So the sweep also leaves
  every row that an interrupted collection has marked, and a PUT of the bytes of such a part keeps
  being refused.
\<close>

theorem collection_exact:
  assumes "faultless E" and "world_inv E w"
  shows "\<exists>w1 w2. (gc_freed_parts E hs :: (s3_error, unit) action) w = (Ok (), w1) \<and>
      collected w w1 {h \<in> set hs. tbl_get (parts (w_db w)) h \<noteq> None \<and> refs (w_db w) h = 0} \<and>
    sweep_gc E w = (Ok (card (orphans w) mod 2 ^ 32), w2) \<and> collected w w2 (orphans w) \<and>
    (\<forall>h. h \<in> orphans w \<longleftrightarrow> refs (w_db w) h = 0 \<and>
       (\<exists>e. tbl_get (parts (w_db w)) h = Some e \<and> pe_state e = Live)) \<and>
    (\<forall>h. marked h w \<longrightarrow> marked h w2 \<and>
       (\<forall>E' b k hs body r w3. blake3 (e_crates E') body = h \<longrightarrow> put_object E' b k hs body w2 \<noteq> (Ok r, w3)))"
proof -
  have idle: "idle w = {h. tbl_get (parts (w_db w)) h \<noteq> None \<and> refs (w_db w) h = 0}"
    using idle_unreferenced [OF assms(2)] .
  have "tbl_ok (parts (w_db w))"
    using assms(2) by (auto simp: world_inv_def db_ok_def dest: store_inv_D)
  note ol = orphan_list [OF this]
  have "set (orphan_list (w_db w)) \<subseteq> idle (tick w)" by (auto simp: ol(2) orphans_def idle_def)
  then obtain w2 where w2: "for_each (gc_orphan E) (orphan_list (w_db w)) 0 (tick w) =
      (Ok ((incr ^^ length (orphan_list (w_db w))) 0), w2)" "collected (tick w) w2 (orphans w)"
    using gc_orphans_collects [OF assms(1) ol(1), of "tick w" 0] ol(2) by auto
  have swept: "sweep_gc E w = (Ok (card (orphans w) mod 2 ^ 32), w2)"
    using w2(1) assms(1) distinct_card [OF ol(1)]
    by (simp add: sweep_gc_def bnd_def list_orphan_parts_eq faultless_read incr_pow_0 ol(2))
  have all: "collected w w2 (orphans w)"
    using collected_trans [OF collected_refl(2) w2(2)] by simp
  have orph: "h \<in> orphans w \<longleftrightarrow> refs (w_db w) h = 0 \<and> (\<exists>e. tbl_get (parts (w_db w)) h = Some e \<and> pe_state e = Live)" for h
    using eqset_imp_iff [OF idle, of h] by (auto simp: orphans_def idle_def)
  obtain w1 where w1: "(gc_freed_parts E hs :: (s3_error, unit) action) w = (Ok (), w1)"
    "collected w w1 (set hs \<inter> idle w)"
    using gc_freed_collects [OF assms(1)] by blast
  have given: "set hs \<inter> idle w = {h \<in> set hs. tbl_get (parts (w_db w)) h \<noteq> None \<and> refs (w_db w) h = 0}"
    using idle by auto
  have stays: "marked h w2" if "marked h w" for h
    using all that by (auto simp: collected_def marked_def pending_def orphans_def)
  then have marks: "\<forall>h. marked h w \<longrightarrow> marked h w2 \<and>
      (\<forall>E' b k hs body r w3. blake3 (e_crates E') body = h \<longrightarrow> put_object E' b k hs body w2 \<noteq> (Ok r, w3))"
    using marked_part_refused by blast
  have "collected w w1 {h \<in> set hs. tbl_get (parts (w_db w)) h \<noteq> None \<and> refs (w_db w) h = 0}"
    using w1(2) given by simp
  with w1(1) swept all marks show ?thesis
    by (intro exI [of _ w1] exI [of _ w2] conjI allI orph) simp_all
qed

text \<open>An unreferenced part, freed by a request or swept by the daemon, beside a marked one.\<close>

theorem collection_exact_witness:
  "\<exists>w1 w2. (gc_freed_parts toy_env [''hi''] :: (s3_error, unit) action) toy_garbage = (Ok (), w1) \<and>
     w_blobs w1 ''hi'' = None \<and> sweep_gc toy_env toy_garbage = (Ok 1, w2) \<and> w_blobs w2 ''hi'' = None \<and>
     w_blobs toy_garbage ''hi'' = Some ''hi'' \<and> w_blobs w2 ''ho'' = Some ''ho'' \<and> marked ''ho'' w2 \<and>
     (\<forall>r w3. put_object toy_env ''bkt'' ''k'' [] ''ho'' w2 \<noteq> (Ok r, w3))"
proof -
  have orph: "orphans toy_garbage = {''hi''}"
    by (auto simp: orphans_def toy_garbage_def toy_defs tbl_get_def split: if_splits)
  have row: "tbl_get (parts (w_db toy_garbage)) ''hi'' \<noteq> None" "w_blobs toy_garbage ''hi'' = Some ''hi''"
    "refs (w_db toy_garbage) ''hi'' = 0" "marked ''ho'' toy_garbage" "w_blobs toy_garbage ''ho'' = Some ''ho''"
    "blake3 (e_crates toy_env) ''ho'' = ''ho''"
    by (simp_all add: toy_garbage_def toy_defs tbl_get_def refs_def tbl_iter_def marked_def pending_def)
  obtain w1 w2 where "(gc_freed_parts toy_env [''hi''] :: (s3_error, unit) action) toy_garbage = (Ok (), w1)"
    "collected toy_garbage w1 {''hi''}" "sweep_gc toy_env toy_garbage = (Ok 1, w2)" "collected toy_garbage w2 {''hi''}"
    "marked ''ho'' w2" "\<forall>r w3. put_object toy_env ''bkt'' ''k'' [] ''ho'' w2 \<noteq> (Ok r, w3)"
    using collection_exact [OF toy_faultless toy_garbage_inv, of "[''hi'']"] row
    by (auto simp: orph conj_commute cong: conj_cong)
  then show ?thesis using row by (intro exI [of _ w1] exI [of _ w2]) (simp add: collected_def)
qed

end
