(* ===== verification/GcRace.thy ===== *)
theory GcRace
  imports Toy
begin

text \<open>
  Requests that overlap.  A PUT writes its part file before it commits the manifest that refers
  to it (\<^verbatim>\<open>put_object\<close>), and a collector marks, unlinks and drops a freed part in three separate
  calls (\<^verbatim>\<open>gc_freed_parts\<close>); the metadata actor serialises the calls, not the handlers.  Here a
  handler in progress is a task that makes one call per step, and any number of tasks
  interleave.  The steps make the calls of the handlers of theories \<^theory_text>\<open>World\<close> and
  \<^theory_text>\<open>PartStore\<close>; calls of a handler that touch no part are left out.
\<close>

subsection \<open>Tasks\<close>

datatype task =
    PutWrite manifest bytes
  | PutCommit manifest
  | DeleteRow manifest_key
  | Freed "hash list"
  | Unlink hash "hash list"
  | DropRow hash "hash list"
  | Finished

fun run_task :: "env \<Rightarrow> task \<Rightarrow> world \<Rightarrow> task \<times> world" where
  "run_task E (PutWrite m body) w =
     (case write_bytes E body w of
        (Ok part, w') \<Rightarrow>
          (PutCommit (m\<lparr>m_parts := [\<lparr>pr_part_number = 1, pr_hash = pw_hash part, pr_md5 = pw_md5 part,
                                    pr_size = pw_size part\<rparr>]\<rparr>), w')
      | (_, w') \<Rightarrow> (Finished, w'))"
| "run_task E (PutCommit m) w =
     (case put_manifest E m w of (Ok freed, w') \<Rightarrow> (Freed freed, w') | (_, w') \<Rightarrow> (Finished, w'))"
| "run_task E (DeleteRow k) w =
     (case delete_manifest E k w of (Ok freed, w') \<Rightarrow> (Freed freed, w') | (_, w') \<Rightarrow> (Finished, w'))"
| "run_task E (Freed []) w = (Finished, w)"
| "run_task E (Freed (h # hs)) w =
     (case mark_part_gc_pending E h w of
        (Ok True, w') \<Rightarrow> (Unlink h hs, w')
      | (_, w') \<Rightarrow> (Freed hs, w'))"
| "run_task E (Unlink h hs) w = (DropRow h hs, snd (delete_part E h w))"
| "run_task E (DropRow h hs) w = (Freed hs, snd (remove_part E h w))"
| "run_task E Finished w = (Finished, w)"

text \<open>One step of the task at some index.\<close>

inductive interleaved :: "env \<Rightarrow> task list \<times> world \<Rightarrow> task list \<times> world \<Rightarrow> bool" for E where
  interleave: "i < length ts \<Longrightarrow> run_task E (ts ! i) w = (t, w') \<Longrightarrow> interleaved E (ts, w) (ts[i := t], w')"

inductive_cases interleavedE: "interleaved E (ts, w) s"

subsection \<open>A collector that is left alone\<close>

definition alone :: "env \<Rightarrow> task \<times> world \<Rightarrow> task \<times> world" where
  "alone E s = run_task E (fst s) (snd s)"

lemma gc_one_run:
  "gc_one E h u w =
     (Ok (), case mark_part_gc_pending E h w of
        (Ok True, w1) \<Rightarrow> snd (remove_part E h (snd (delete_part E h w1)))
      | (_, w1) \<Rightarrow> w1)"
  by (auto simp: gc_one_def catch_def ret_def write_eqs write_result_def delete_part_def handle_remove_part_def
      split: option.split sum.split prod.split outcome.split io_fault.split bool.split)

lemma alone_step:
  "\<exists>n\<le>3. (alone E ^^ n) (Freed (h # hs), w) = (Freed hs, snd ((gc_one E h () :: (s3_error, unit) action) w))"
proof (cases "mark_part_gc_pending E h w")
  case (Pair r w1)
  show ?thesis
  proof (cases "r = Ok True")
    case True
    then have "(alone E ^^ 3) (Freed (h # hs), w) = (Freed hs, snd ((gc_one E h () :: (s3_error, unit) action) w))"
      using Pair by (simp add: alone_def gc_one_run eval_nat_numeral)
    then show ?thesis by blast
  next
    case False
    then have "(alone E ^^ 1) (Freed (h # hs), w) = (Freed hs, snd ((gc_one E h () :: (s3_error, unit) action) w))"
      using Pair by (auto simp: alone_def gc_one_run split: outcome.splits bool.splits)
    then show ?thesis by (intro exI [of _ 1]) auto
  qed
qed

text \<open>
  A collector that nothing interrupts ends, after at most three steps per freed part and
  one more, in the world that the inline collection \<open>gc_freed_parts\<close> of the handlers computes.
\<close>

lemma collector_steps_end:
  "\<exists>n\<le>3 * length hs + 1. (alone E ^^ n) (Freed hs, w) = (Finished, snd ((gc_freed_parts E hs :: (s3_error, unit) action) w))"
proof (induction hs arbitrary: w)
  case Nil
  have "(alone E ^^ 1) (Freed [], w) = (Finished, w)" by (simp add: alone_def)
  then show ?case by (intro exI [of _ 1]) (simp add: gc_freed_parts_def ret_def)
next
  case (Cons h hs)
  let ?gc = "gc_freed_parts E hs :: (s3_error, unit) action"
  let ?w = "snd ((gc_one E h () :: (s3_error, unit) action) w)"
  obtain n1 where n1: "n1 \<le> 3" "(alone E ^^ n1) (Freed (h # hs), w) = (Freed hs, ?w)" using alone_step by blast
  obtain n2 where n2: "n2 \<le> 3 * length hs + 1" "(alone E ^^ n2) (Freed hs, ?w) = (Finished, snd (?gc ?w))"
    using Cons.IH by blast
  have "(alone E ^^ (n2 + n1)) (Freed (h # hs), w) = (Finished, snd (?gc ?w))"
    using n1(2) n2(2) by (simp add: funpow_add)
  moreover have "(gc_freed_parts E (h # hs) :: (s3_error, unit) action) w = ?gc ?w"
    by (simp add: gc_freed_parts_def bnd_def gc_one_run)
  ultimately show ?case using n1(1) n2(1) by (intro exI [of _ "n2 + n1"]) simp
qed

subsection \<open>What can go wrong\<close>

definition race_start :: "task list \<times> world" where
  "race_start = ([PutWrite (toy_object ''null'' [] None 9\<lparr>m_key := new_key ''bkt'' ''l'' ''null''\<rparr>) ''hi'',
      DeleteRow (new_key ''bkt'' ''k'' ''null'')], toy_stored)"

text \<open>A schedule is the list of the indices of the tasks that step.\<close>

definition run_at :: "env \<Rightarrow> nat \<Rightarrow> task list \<times> world \<Rightarrow> task list \<times> world" where
  "run_at E i s = (case run_task E (fst s ! i) (snd s) of (t, w') \<Rightarrow> ((fst s)[i := t], w'))"

lemma schedule_reach:
  "\<forall>i\<in>set is. i < length (fst s) \<Longrightarrow> (interleaved E)\<^sup>*\<^sup>* s (fold (run_at E) is s)"
proof (induction "is" arbitrary: s)
  case (Cons i "is")
  obtain ts w where s: "s = (ts, w)" by (cases s)
  have "interleaved E s (run_at E i s)"
    using Cons.prems interleave [of i ts E w] by (auto simp: s run_at_def split: prod.split)
  moreover have "length (fst (run_at E i s)) = length (fst s)" by (simp add: run_at_def split: prod.split)
  ultimately show ?case using Cons.IH [of "run_at E i s"] Cons.prems by (auto intro: converse_rtranclp_into_rtranclp)
qed simp

definition race_end :: "task list \<times> world" where
  "race_end = fold (run_at toy_env) [0, 1, 1, 1, 1, 1, 0, 0] race_start"

lemma race_end_eq:
  "fst race_end = [Finished, Finished]" "w_blobs (snd race_end) = (\<lambda>_. None)"
  "\<exists>m. tbl_get (objects (w_db (snd race_end))) (encode (new_key ''bkt'' ''l'' ''null'')) = Some m \<and>
     m_state m = Committed \<and> m_parts m \<noteq> []"
  by (auto simp: race_end_def run_at_def race_start_def write_bytes_eq Let_def write_eqs write_result_def
      handle_put_manifest_def handle_delete_manifest_def handle_mark_gc_pending_def handle_remove_part_def delete_part_def
      inc_all_def inc_part_refcount_def dec_all_def dec_part_refcount_def toy_stored_def toy_defs tick_def tbl_get_def
      tbl_remove_def encode_def new_key_def)

text \<open>
  C13.  Overlapping requests can lose bytes: from a consistent store, a PUT of bytes that are
  already stored and a DELETE of the only object that has them can interleave so that both
  succeed and the new object is committed with a part that has no file.
\<close>

theorem put_delete_race:
  "\<exists>w' m p. (interleaved toy_env)\<^sup>*\<^sup>* race_start ([Finished, Finished], w') \<and> server_inv toy_env (snd race_start) \<and>
     tbl_get (objects (w_db w')) (encode (new_key ''bkt'' ''l'' ''null'')) = Some m \<and> m_state m = Committed \<and>
     p \<in> set (m_parts m) \<and> w_blobs w' (pr_hash p) = None"
proof -
  obtain w' where w': "race_end = ([Finished, Finished], w')" using race_end_eq(1) by (metis prod.collapse)
  have "(interleaved toy_env)\<^sup>*\<^sup>* race_start race_end"
    unfolding race_end_def by (rule schedule_reach) (simp add: race_start_def)
  moreover obtain m where m: "tbl_get (objects (w_db w')) (encode (new_key ''bkt'' ''l'' ''null'')) = Some m"
    "m_state m = Committed" "m_parts m \<noteq> []" using race_end_eq(3) unfolding w' by auto
  moreover have "w_blobs w' h = None" for h using race_end_eq(2) unfolding w' by simp
  moreover have "server_inv toy_env (snd race_start)" using toy_inv(2) by (simp add: race_start_def)
  ultimately show ?thesis using w' by (metis last_in_set)
qed

subsection \<open>What the marks protect\<close>

text \<open>The hash whose row a task has marked and not yet dropped.\<close>

definition holding :: "task \<Rightarrow> hash option" where
  "holding t = (case t of Unlink h _ \<Rightarrow> Some h | DropRow h _ \<Rightarrow> Some h | _ \<Rightarrow> None)"

text \<open>
  The two windows: a commit must find the files it refers to, and a collector must not mark what
  another one has marked.
\<close>

definition guarded :: "task list \<Rightarrow> world \<Rightarrow> task \<Rightarrow> bool" where
  "guarded ts w t \<longleftrightarrow>
     (case t of
        PutCommit m \<Rightarrow> (\<forall>h\<in>part_hashes m. w_blobs w h \<noteq> None) \<and> op_ok (w_db w) (PutManifest m)
      | Freed (h # _) \<Rightarrow> \<forall>u\<in>set ts. holding u \<noteq> Some h
      | _ \<Rightarrow> True)"

inductive careful :: "env \<Rightarrow> task list \<times> world \<Rightarrow> task list \<times> world \<Rightarrow> bool" for E where
  careful_step: "i < length ts \<Longrightarrow> guarded ts w (ts ! i) \<Longrightarrow> run_task E (ts ! i) w = (t, w') \<Longrightarrow>
    careful E (ts, w) (ts[i := t], w')"

definition pend_at :: "world \<Rightarrow> hash \<Rightarrow> bool" where
  "pend_at w h \<longleftrightarrow> pending (parts (w_db w)) h"

definition marks_held :: "env \<Rightarrow> task list \<times> world \<Rightarrow> bool" where
  "marks_held E s \<longleftrightarrow>
     world_inv E (snd s) \<and>
     (\<forall>i<length (fst s). \<forall>h. holding (fst s ! i) = Some h \<longrightarrow> pend_at (snd s) h \<and>
        (\<forall>j<length (fst s). j \<noteq> i \<longrightarrow> holding (fst s ! j) \<noteq> Some h))"

lemma pend_put: "pend_at (snd (put_manifest E m w)) h = pend_at w h"
  by (auto simp: pend_at_def write_eqs write_result_def inc_all_def rc.inc_all_pend dec_all_pending
      elim!: put_manifest_cases split: option.splits sum.split prod.splits dest!: arg_cong [of "(_, _)" _ snd])

lemma pend_delete: "pend_at (snd (delete_manifest E k w)) h = pend_at w h"
  by (auto simp: pend_at_def write_eqs write_result_def handle_delete_manifest_def dec_all_pending Let_def
      split: option.splits sum.split prod.splits dest!: arg_cong [of "dec_all _ _" _ snd])

lemma pend_files: "pend_at (snd (write_bytes E b w)) h = pend_at w h" "pend_at (snd (delete_part E g w)) h = pend_at w h"
  by (auto simp: pend_at_def write_bytes_eq Let_def delete_part_def split: option.split io_fault.split)

lemma pend_mark:
  "pend_at w h \<Longrightarrow> pend_at (snd (mark_part_gc_pending E g w)) h"
  "fst (mark_part_gc_pending E g w) = Ok True \<Longrightarrow> pend_at (snd (mark_part_gc_pending E g w)) g"
  by (auto simp: pend_at_def write_eqs write_result_def handle_mark_gc_pending_def split: option.splits if_splits)

lemma pend_remove: "h \<noteq> g \<Longrightarrow> pend_at (snd (remove_part E g w)) h = pend_at w h"
  by (auto simp: pend_at_def write_eqs write_result_def handle_remove_part_def split: option.split)

lemma world_inv_calls:
  "world_inv E w \<Longrightarrow> world_inv E (snd (write_bytes E b w))"
  "world_inv E w \<Longrightarrow> \<forall>h\<in>part_hashes m. w_blobs w h \<noteq> None \<Longrightarrow> op_ok (w_db w) (PutManifest m) \<Longrightarrow>
     world_inv E (snd (put_manifest E m w))"
  "world_inv E w \<Longrightarrow> world_inv E (snd (delete_manifest E k w))"
  "world_inv E w \<Longrightarrow> world_inv E (snd (mark_part_gc_pending E h w))"
  "world_inv E w \<Longrightarrow> pend_at w h \<Longrightarrow> world_inv E (snd (delete_part E h w))"
  "world_inv E w \<Longrightarrow> pend_at w h \<Longrightarrow> world_inv E (snd (remove_part E h w))"
proof -
  have unreferenced: "refs (w_db w) h = 0" if "world_inv E w" "pend_at w h" for w h
    using that refs_exact_pending by (auto simp: world_inv_def pend_at_def dest: store_inv_D)
  have put: "snd (put_manifest E m w) = snd (meta_call E (PutManifest m) w)"
    by (auto simp: put_manifest_def reply_as_def bnd_def ret_def split: prod.split outcome.split)
  show "world_inv E w \<Longrightarrow> world_inv E (snd (write_bytes E b w))"
    using write_bytes_triple [of E "\<lambda>_. True" b] by (auto simp: triple_def)
  show "world_inv E w \<Longrightarrow> \<forall>h\<in>part_hashes m. w_blobs w h \<noteq> None \<Longrightarrow> op_ok (w_db w) (PutManifest m) \<Longrightarrow>
     world_inv E (snd (put_manifest E m w))"
    unfolding put by (rule meta_call_inv) (auto simp: op_hashes_def)
  show "world_inv E w \<Longrightarrow> world_inv E (snd (delete_manifest E k w))"
    "world_inv E w \<Longrightarrow> world_inv E (snd (mark_part_gc_pending E h w))"
    using keeps_reads(6) [of E k] keeps_reads(7) [of E h] by (simp_all add: keeps_def triple_def)
  show "world_inv E w \<Longrightarrow> pend_at w h \<Longrightarrow> world_inv E (snd (delete_part E h w))"
    using triple_snd [OF delete_part_triple [of E h]] unreferenced by auto
  show "world_inv E w \<Longrightarrow> pend_at w h \<Longrightarrow> world_inv E (snd (remove_part E h w))"
    using triple_snd [OF remove_part_triple [of E h]] unreferenced by auto
qed

text \<open>What one step does to the invariant, to the marks of others and to its own.\<close>

lemma step_facts:
  assumes run: "run_task E t w = (t', w')" and inv: "world_inv E w" and g: "guarded ts w t"
    and own: "\<forall>h. holding t = Some h \<longrightarrow> pend_at w h"
  shows "world_inv E w'" "\<And>h. pend_at w h \<Longrightarrow> holding t \<noteq> Some h \<Longrightarrow> pend_at w' h"
    "\<And>h. holding t' = Some h \<Longrightarrow> pend_at w' h \<and> (holding t = Some h \<or> (\<forall>u\<in>set ts. holding u \<noteq> Some h))"
proof -
  have "world_inv E w' \<and> (\<forall>h. pend_at w h \<longrightarrow> holding t \<noteq> Some h \<longrightarrow> pend_at w' h) \<and>
    (\<forall>h. holding t' = Some h \<longrightarrow> pend_at w' h \<and> (holding t = Some h \<or> (\<forall>u\<in>set ts. holding u \<noteq> Some h)))"
  proof (cases t)
    case (PutWrite m body)
    then have "w' = snd (write_bytes E body w)" "holding t' = None"
      using run by (auto simp: holding_def split: prod.splits outcome.splits)
    then show ?thesis using world_inv_calls(1) [OF inv] by (simp add: pend_files)
  next
    case (PutCommit m)
    then have "w' = snd (put_manifest E m w)" "holding t' = None"
      using run by (auto simp: holding_def split: prod.splits outcome.splits)
    then show ?thesis using world_inv_calls(2) [OF inv] g PutCommit by (auto simp: guarded_def pend_put)
  next
    case (DeleteRow k)
    then have "w' = snd (delete_manifest E k w)" "holding t' = None"
      using run by (auto simp: holding_def split: prod.splits outcome.splits)
    then show ?thesis using world_inv_calls(3) [OF inv] by (simp add: pend_delete)
  next
    case (Freed hs)
    show ?thesis
    proof (cases hs)
      case Nil
      then show ?thesis using run inv Freed by (auto simp: holding_def)
    next
      case (Cons h hs')
      have w': "w' = snd (mark_part_gc_pending E h w)"
        and t': "holding t' = (if fst (mark_part_gc_pending E h w) = Ok True then Some h else None)"
        using run Freed Cons by (auto simp: holding_def split: prod.splits outcome.splits bool.splits)
      have "\<forall>u\<in>set ts. holding u \<noteq> Some h" using g Freed Cons by (simp add: guarded_def)
      then show ?thesis using world_inv_calls(4) [OF inv] pend_mark by (auto simp: w' t' split: if_splits)
    qed
  next
    case (Unlink h hs)
    then have "w' = snd (delete_part E h w)" "holding t' = Some h" "holding t = Some h"
      using run by (auto simp: holding_def)
    then show ?thesis using world_inv_calls(5) [OF inv] own by (simp add: pend_files)
  next
    case (DropRow h hs)
    then have "w' = snd (remove_part E h w)" "holding t' = None" "holding t = Some h"
      using run by (auto simp: holding_def)
    then show ?thesis using world_inv_calls(6) [OF inv] own pend_remove by auto
  qed (use run inv in \<open>auto simp: holding_def\<close>)
  then show "world_inv E w'" "\<And>h. pend_at w h \<Longrightarrow> holding t \<noteq> Some h \<Longrightarrow> pend_at w' h"
    "\<And>h. holding t' = Some h \<Longrightarrow> pend_at w' h \<and> (holding t = Some h \<or> (\<forall>u\<in>set ts. holding u \<noteq> Some h))"
    by blast+
qed

lemma careful_keeps: "careful E s s' \<Longrightarrow> marks_held E s \<Longrightarrow> marks_held E s'"
proof (induction rule: careful.induct)
  case (careful_step i ts w t w')
  note all = careful_step(4) [unfolded marks_held_def fst_conv snd_conv]
  have inv: "world_inv E w" using all by blast
  have held: "\<And>j h. j < length ts \<Longrightarrow> holding (ts ! j) = Some h \<Longrightarrow> pend_at w h" using all by blast
  have apart: "\<And>j k h. j < length ts \<Longrightarrow> k < length ts \<Longrightarrow> k \<noteq> j \<Longrightarrow> holding (ts ! j) = Some h \<Longrightarrow> holding (ts ! k) \<noteq> Some h"
    using all by blast
  have own: "\<forall>h. holding (ts ! i) = Some h \<longrightarrow> pend_at w h" using held [OF careful_step(1)] by blast
  note f = step_facts [OF careful_step(3) inv careful_step(2) own]
  have new: "holding (ts ! j) \<noteq> Some h" if "holding t = Some h" "j < length ts" "j \<noteq> i" for j h
    using f(3) [OF that(1)] that(2,3) apart [OF careful_step(1)] nth_mem by blast
  show ?case
    unfolding marks_held_def fst_conv snd_conv
  proof (intro conjI allI impI)
    show "world_inv E w'" by (rule f(1))
  next
    fix j h assume j: "j < length (ts[i := t])" "holding (ts[i := t] ! j) = Some h"
    show "pend_at w' h"
    proof (cases "j = i")
      case True
      then show ?thesis using j f(3) by simp
    next
      case False
      then show ?thesis using j held f(2) apart careful_step(1) by (metis length_list_update nth_list_update_neq)
    qed
  next
    fix j h k assume j: "j < length (ts[i := t])" "holding (ts[i := t] ! j) = Some h" and k: "k < length (ts[i := t])" "k \<noteq> j"
    show "holding (ts[i := t] ! k) \<noteq> Some h"
    proof (cases "j = i")
      case True
      then show ?thesis using j k new [of h k] by simp
    next
      case False
      then have tj: "j < length ts" "holding (ts ! j) = Some h" using j by simp_all
      show ?thesis
      proof (cases "k = i")
        case True
        then show ?thesis using new [of h j] tj False careful_step(1) by auto
      next
        case False
        then show ?thesis using apart [OF tj(1) _ k(2) tj(2)] k(1) by simp
      qed
    qed
  qed
qed

text \<open>
  C12.  These two windows are the only ones: as long as every commit finds the files it refers to
  and no collector marks a part that another one has marked, any interleaving of any number of
  PUTs, DELETEs and collectors keeps the server invariant: every referenced part has its file.
\<close>

theorem guarded_interleavings_safe:
  assumes "(careful E)\<^sup>*\<^sup>* (ts, w) (ts', w')" and "world_inv E w" and "\<forall>t\<in>set ts. holding t = None"
  shows "\<forall>h. 0 < refs (w_db w') h \<longrightarrow> (\<exists>data. w_blobs w' h = Some data \<and> blake3 (e_crates E) data = h)"
proof -
  have "marks_held E (ts, w)" using assms(2,3) by (auto simp: marks_held_def)
  moreover have "marks_held E s'" if "(careful E)\<^sup>*\<^sup>* s s'" "marks_held E s" for s s'
    using that by (induction rule: rtranclp_induct) (auto intro: careful_keeps)
  ultimately have "world_inv E w'" using assms(1) by (fastforce simp: marks_held_def)
  then have "\<forall>h. 0 < refs (w_db w') h \<longrightarrow> w_blobs w' h \<noteq> None" "blobs_ok (e_crates E) (w_blobs w')"
    by (simp_all add: world_inv_def)
  then show ?thesis unfolding blobs_ok_def by (metis not_None_eq)
qed

theorem guarded_interleavings_safe_witness:
  "\<exists>w'. (careful toy_env)\<^sup>*\<^sup>* ([DeleteRow (new_key ''bkt'' ''k'' ''null'')], toy_stored) ([Unlink ''hi'' []], w') \<and>
     (0 < refs (w_db w') ''hi'' \<longrightarrow> (\<exists>data. w_blobs w' ''hi'' = Some data))"
proof -
  let ?d = "DeleteRow (new_key ''bkt'' ''k'' ''null'')"
  obtain w1 where w1: "run_task toy_env ?d toy_stored = (Freed [''hi''], w1)" "fst (mark_part_gc_pending toy_env ''hi'' w1) = Ok True"
    by (auto simp: write_eqs write_result_def handle_delete_manifest_def handle_mark_gc_pending_def dec_all_def
        dec_part_refcount_def toy_stored_def toy_defs tick_def tbl_get_def encode_def new_key_def Let_def)
  let ?w2 = "snd (mark_part_gc_pending toy_env ''hi'' w1)"
  have "careful toy_env ([?d], toy_stored) ([?d][0 := Freed [''hi'']], w1)"
    by (rule careful_step) (simp_all add: guarded_def w1(1) del: run_task.simps)
  moreover have "careful toy_env ([Freed [''hi'']], w1) ([Freed [''hi'']][0 := Unlink ''hi'' []], ?w2)"
    by (rule careful_step) (use w1(2) in \<open>auto simp: guarded_def holding_def split: prod.split\<close>)
  ultimately have run: "(careful toy_env)\<^sup>*\<^sup>* ([?d], toy_stored) ([Unlink ''hi'' []], ?w2)" by simp
  have "world_inv toy_env toy_stored" using toy_inv(2) by (simp add: server_inv_def)
  from guarded_interleavings_safe [OF run this] show ?thesis using run by (intro exI [of _ ?w2] conjI) (auto simp: holding_def)
qed

end
