(* ===== verification/Spec2Isabelle.thy ===== *)
theory Spec2Isabelle
  imports LockProps HttpProps RequestProps EntryProps GcProps GcRace
begin

text \<open>
  A verification development for s3lite, an S3-compatible object store in Rust
  (\<^verbatim>\<open>src/src/\<close>).

  \<^bold>\<open>The program.\<close>  A server keeps its metadata in one redb file, owned by an actor thread, and
  the bytes of objects in files named by their BLAKE3 hash.  An HTTP request passes the
  request-id middleware, the router and the authentication middleware; the dispatcher picks a
  handler by method, addressing and query; the handler calls the metadata actor and the part
  store and may hand an event to the webhook delivery.  A timer runs lifecycle rules and the
  collection of unreferenced parts.  Offline commands back up, restore and scan a data
  directory; the executable generates keys and configurations and reloads them on a signal.

  \<^bold>\<open>The model, bottom up.\<close>
  \<^item> \<^theory_text>\<open>Prelude\<close>, \<^theory_text>\<open>Table\<close>: byte strings and their order, machine-integer bounds; redb tables as
    ordered association lists, with the locale of ordered maps and its interpretation.
  \<^item> \<^theory_text>\<open>Xml\<close>, \<^theory_text>\<open>Crates\<close>: the XML documents (\<^verbatim>\<open>s3/xml.rs\<close>) as records, and the third-party functions
    (hashes, encodings, date and XML text, header values) as the fields of one record.
  \<^item> \<^theory_text>\<open>Manifest\<close>: \<^verbatim>\<open>storage/manifest.rs\<close>.
  \<^item> \<^theory_text>\<open>MetaDb\<close>, \<^theory_text>\<open>Scan\<close>, \<^theory_text>\<open>MetaStore\<close>: the handlers of \<^verbatim>\<open>storage/db/actor.rs\<close>, its scans, and the
    messages, transactions and facade of \<^verbatim>\<open>storage/db/mod.rs\<close>.  \<^theory_text>\<open>RefCounts\<close> and \<^theory_text>\<open>DbInv\<close> hold the
    locale of reference counting and the invariant: sorted tables, rows under their own keys,
    counts equal to references, no reference to a part marked for collection.
    \<^theory_text>\<open>ScanProps\<close> states what listings return.
  \<^item> \<^theory_text>\<open>World\<close>, \<^theory_text>\<open>Http\<close>, \<^theory_text>\<open>PartStore\<close>, \<^theory_text>\<open>Text\<close>: what a handler runs in.  A handler is an action: a
    function from the world (metadata, part files, events handed over, number of outside calls)
    to an outcome (value, error, panic) and a world.  Each call to the outside is numbered,
    and the environment decides by the number whether it fails, what the clock shows and which
    UUID is drawn; so theorems about all environments cover all failures.  A crash in the middle
    of a handler is the case that all later calls fail.
  \<^item> \<^theory_text>\<open>Object\<close>, \<^theory_text>\<open>Multipart\<close>, \<^theory_text>\<open>Copy\<close>, \<^theory_text>\<open>Bucket\<close>, \<^theory_text>\<open>Listing\<close>, \<^theory_text>\<open>Tagging\<close>, \<^theory_text>\<open>Lock\<close>, \<^theory_text>\<open>Cors\<close>, \<^theory_text>\<open>Checksum\<close>,
    \<^theory_text>\<open>Maintenance\<close>, \<^theory_text>\<open>Events\<close>: the modules of \<^verbatim>\<open>s3/\<close> with the same names, one definition per function.
  \<^item> \<^theory_text>\<open>Config\<close>, \<^theory_text>\<open>Addressing\<close>, \<^theory_text>\<open>Presigned\<close>, \<^theory_text>\<open>Auth\<close>, \<^theory_text>\<open>Dispatch\<close>: configuration files
    (\<^verbatim>\<open>config.rs\<close>), bucket and key of a request (\<^verbatim>\<open>s3/addressing.rs\<close>), presigned URLs and header
    signatures (\<^verbatim>\<open>http/middleware/\<close>), dispatch (\<^verbatim>\<open>s3/dispatch.rs\<close>) and routes (\<^verbatim>\<open>http/router.rs\<close>).
  \<^item> \<^theory_text>\<open>FileTree\<close>, \<^theory_text>\<open>Admin\<close>, \<^theory_text>\<open>Entry\<close>: directory trees, the offline commands (\<^verbatim>\<open>admin.rs\<close>), and the
    executable (\<^verbatim>\<open>main.rs\<close>, \<^verbatim>\<open>s3/state.rs\<close>).

  \<^bold>\<open>What is proved.\<close>
  \<^item> \<^theory_text>\<open>WorldInv\<close>, \<^theory_text>\<open>ServerInv\<close>, \<^theory_text>\<open>ServerProps\<close>, \<^theory_text>\<open>HttpProps\<close>, \<^theory_text>\<open>EntryProps\<close>: one preservation lemma per
    operation, assembled into the invariant of every state that requests, failures, sweeps,
    deliveries, reloads and restarts reach: no stored byte is lost or altered.  Requests that do
    not authenticate change nothing, and their answers do not depend on what is stored.
  \<^item> \<^theory_text>\<open>PutGet\<close>, \<^theory_text>\<open>LockProps\<close>, \<^theory_text>\<open>MultipartProps\<close>: functional behaviour on runs that succeed: a GET after
    a PUT returns the bytes, ranges select exactly their bytes, locked versions stay (and two ways in
    which they do not), the lock handlers never shorten a retention, versioned puts keep versions.  \<^theory_text>\<open>Calls\<close> has the equations for calls, \<^theory_text>\<open>Toy\<close> a concrete run for the witnesses.
  \<^item> \<^theory_text>\<open>PresignedProps\<close>, \<^theory_text>\<open>RequestProps\<close>, \<^theory_text>\<open>EventProps\<close>: which URLs, preflights and configurations are
    accepted, what a signature binds, how deliveries end and what they send.
  \<^item> \<^theory_text>\<open>AdminProps\<close>: backup and restore together lose nothing; the scan is exact.
  \<^item> \<^theory_text>\<open>GcProps\<close>: a collection without failures removes exactly the unreferenced parts; a collection
    that was cut short leaves a mark that nothing removes and that refuses the bytes from then on.
  \<^item> \<^theory_text>\<open>GcRace\<close>: requests that overlap, one call per step: how a PUT and a DELETE can lose bytes,
    and that the two windows shown there are the only ones.

  \<^bold>\<open>Bounds.\<close>  Loops are structural recursions over what is left to read, so no fuel is used.
  Counters of 32 and 64 bits wrap or saturate as in a release build; the invariants assume that
  no reference count reaches the 32-bit limit (\<open>roomy\<close>), and that a random UUID is not the word
  \<^verbatim>\<open>null\<close> (\<open>uuids_ok\<close>).

  \<^bold>\<open>Not modelled.\<close>  Logging, sockets, TLS, signal handlers, argument parsing and the sleep of
  the timer; the text formats of XML, TOML, JSON and bincode, which are parameters; the
  header-signature crate, which is a parameter; permissions and temporary names of part files;
  debug assertions.  A request works on one snapshot of the configuration.  Except in \<^theory_text>\<open>GcRace\<close>
  handlers run one after the other.
\<close>

end
